(* ===== verification/Prelude.thy ===== *)
theory Prelude
  imports Main "HOL-Library.Word" "HOL-Library.Finite_Map" "HOL-Library.Char_ord"
    "HOL-Library.List_Lexorder" "HOL-Library.Product_Lexorder"
begin

text \<open>
  Shared vocabulary of the development: the names of the model's basic types, the bind of
  fallible steps, database tables as finite maps with the WHERE-clause statements the SQL of
  the server uses, and the generic lemmas on them.  The two collections below carry the
  component proofs: \<open>res\<close> unfolds the result of a chain of fallible steps, \<open>tab\<close> looks a row
  up after a table statement.
\<close>

named_theorems res \<open>outcomes of chains of fallible steps\<close>
named_theorems tab \<open>row lookups after table statements\<close>

section \<open>Basic types\<close>

text \<open>Go strings are byte sequences; HOL's \<open>char\<close> is one byte.\<close>

type_synonym byte = "8 word"
type_synonym bytes = "byte list"
type_synonym uuid = string

text \<open>Time stamps count nanoseconds; clocks are the successive readings an operation takes.\<close>

type_synonym time = int
type_synonym clock = "nat \<Rightarrow> time"

definition shift :: "nat \<Rightarrow> clock \<Rightarrow> clock" where
  "shift n clk = (\<lambda>i. clk (n + i))"

lemma shift_apply [simp]: "shift n clk i = clk (n + i)"
  by (simp add: shift_def)

lemma mono_shift [intro]: "mono clk \<Longrightarrow> mono (shift n clk)"
  by (simp add: mono_def)

definition seconds :: "int \<Rightarrow> time" where "seconds n = n * 1000000000"
definition hours :: "int \<Rightarrow> time" where "hours n = seconds (3600 * n)"
definition days :: "int \<Rightarrow> time" where "days n = hours (24 * n)"

section \<open>Fallible steps\<close>

definition bind_res :: "'e + 'a \<Rightarrow> ('a \<Rightarrow> 'e + 'b) \<Rightarrow> 'e + 'b" where
  "bind_res m f = (case m of Inl e \<Rightarrow> Inl e | Inr x \<Rightarrow> f x)"

lemma bind_res_simps [simp]:
  "bind_res (Inl e) f = Inl e"
  "bind_res (Inr x) f = f x"
  by (simp_all add: bind_res_def)

lemma bind_res_Inr_iff [res]: "bind_res m f = Inr y \<longleftrightarrow> (\<exists>x. m = Inr x \<and> f x = Inr y)"
  by (cases m) simp_all

lemma bind_res_Inl_iff [res]:
  "bind_res m f = Inl e \<longleftrightarrow> m = Inl e \<or> (\<exists>x. m = Inr x \<and> f x = Inl e)"
  by (cases m) auto

lemma if_Inl_Inr_iff [res]: "(if c then Inl e else m) = Inr y \<longleftrightarrow> \<not> c \<and> m = Inr y"
  by simp

section \<open>Tables\<close>

type_synonym ('k, 'v) table = "('k, 'v) fmap"

definition has_row :: "('k, 'v) table \<Rightarrow> 'k \<Rightarrow> bool" where
  "has_row t k \<longleftrightarrow> fmlookup t k \<noteq> None"

definition keys_sorted :: "('k::linorder, 'v) table \<Rightarrow> 'k list" where
  "keys_sorted t = sorted_list_of_fset (fmdom t)"

definition rows :: "('k::linorder, 'v) table \<Rightarrow> ('k \<times> 'v) list" where
  "rows t = map (\<lambda>k. (k, the (fmlookup t k))) (keys_sorted t)"

text \<open>\<open>UPDATE t SET v = f v WHERE P\<close> and \<open>DELETE FROM t WHERE P\<close>.\<close>

definition update_where :: "('k \<Rightarrow> 'v \<Rightarrow> bool) \<Rightarrow> ('v \<Rightarrow> 'v) \<Rightarrow> ('k, 'v) table \<Rightarrow> ('k, 'v) table" where
  "update_where P f t = fmmap_keys (\<lambda>k v. if P k v then f v else v) t"

definition delete_where :: "('k \<Rightarrow> 'v \<Rightarrow> bool) \<Rightarrow> ('k, 'v) table \<Rightarrow> ('k, 'v) table" where
  "delete_where P t = fmfilter (\<lambda>k. case fmlookup t k of None \<Rightarrow> True | Some v \<Rightarrow> \<not> P k v) t"

lemma has_row_iff: "has_row t k \<longleftrightarrow> (\<exists>v. fmlookup t k = Some v)"
  by (auto simp: has_row_def)

lemma lookup_update_where [tab]:
  "fmlookup (update_where P f t) k = map_option (\<lambda>v. if P k v then f v else v) (fmlookup t k)"
  by (simp add: update_where_def)

lemma lookup_delete_where [tab]:
  "fmlookup (delete_where P t) k =
     (case fmlookup t k of None \<Rightarrow> None | Some v \<Rightarrow> if P k v then None else Some v)"
  by (simp add: delete_where_def split: option.splits)

lemma lookup_delete_where_Some [tab]:
  "fmlookup (delete_where P t) k = Some v \<longleftrightarrow> fmlookup t k = Some v \<and> \<not> P k v"
  by (auto simp: lookup_delete_where split: option.splits)

lemma lookup_update_where_None [tab]:
  "fmlookup (update_where P f t) k = None \<longleftrightarrow> fmlookup t k = None"
  by (simp add: lookup_update_where)

lemma fmupd_same: "fmlookup t k = Some v \<Longrightarrow> fmupd k v t = t"
  by (rule fmap_ext) auto

lemma set_keys_sorted [simp]: "set (keys_sorted t) = fmdom' t"
  by (simp add: keys_sorted_def fmdom'_alt_def)

lemma keys_sorted_sorted [simp]: "sorted (keys_sorted t)" "distinct (keys_sorted t)"
  by (simp_all add: keys_sorted_def sorted_list_of_fset.rep_eq)

lemma in_rows_iff [simp]: "(k, v) \<in> set (rows t) \<longleftrightarrow> fmlookup t k = Some v"
  by (force simp: rows_def fmlookup_dom'_iff)

lemma map_fst_rows [simp]: "map fst (rows t) = keys_sorted t"
  by (simp add: rows_def comp_def)

lemma distinct_rows [simp]: "distinct (rows t)"
  by (metis distinct_map keys_sorted_sorted(2) map_fst_rows)

section \<open>Lists\<close>

lemma last_in_take: "n < length xs \<Longrightarrow> last (take (Suc n) xs) = xs ! n"
  by (simp add: take_Suc_conv_app_nth)

lemma sorted_key_filter: "sorted (map f xs) \<Longrightarrow> sorted (map f (filter P xs))"
  by (rule sorted_filter)

end
