(* ===== verification/GoStd.thy ===== *)
theory GoStd
  imports Prelude
begin

text \<open>
  The parts of Go's standard library the server relies on, written as functions on byte
  strings: prefix and search functions of \<open>strings\<close>, the UTF-8 decoder of \<open>unicode/utf8\<close>,
  decimal conversion of \<open>strconv\<close>, the unpadded base64 codecs of \<open>encoding/base64\<close>, the
  big-endian 32-bit encoder of \<open>encoding/binary\<close>, and the wrap-around of Go's \<open>int64\<close>.
\<close>

section \<open>Characters and bytes\<close>

definition ord :: "char \<Rightarrow> nat" where
  "ord c = of_char c"

definition chr :: "nat \<Rightarrow> char" where
  "chr n = char_of n"

lemma ord_chr [simp]: "n < 256 \<Longrightarrow> ord (chr n) = n"
  by (simp add: ord_def chr_def)

lemma chr_ord [simp]: "chr (ord c) = c"
  by (simp add: ord_def chr_def)

lemma ord_less [simp]: "ord c < 256"
  by (simp add: ord_def)

lemma ord_eq_iff [simp]: "ord c = ord d \<longleftrightarrow> c = d"
  by (metis chr_ord)

text \<open>Go's conversions \<open>[]byte(s)\<close> and \<open>string(b)\<close>.\<close>

definition bytes_of :: "string \<Rightarrow> bytes" where
  "bytes_of s = map (\<lambda>c. word_of_nat (ord c)) s"

definition string_of :: "bytes \<Rightarrow> string" where
  "string_of b = map (\<lambda>w. chr (unat w)) b"

lemma unat_byte_less [simp]: "unat (w :: byte) < 256"
  using unsigned_less [of w, where ?'a = nat] by simp

lemma unat_word_of_code [simp]: "unat (word_of_nat (ord c) :: byte) = ord c"
  by (simp add: unat_of_nat take_bit_eq_mod)

lemma string_of_bytes_of [simp]: "string_of (bytes_of s) = s"
  by (simp add: string_of_def bytes_of_def comp_def)

lemma bytes_of_string_of [simp]: "bytes_of (string_of b) = b"
  by (simp add: string_of_def bytes_of_def comp_def)

lemma length_bytes_of [simp]: "length (bytes_of s) = length s"
  by (simp add: bytes_of_def)

lemma bytes_of_eq_iff [simp]: "bytes_of s = bytes_of t \<longleftrightarrow> s = t"
  by (metis string_of_bytes_of)

section \<open>Package strings\<close>

definition HasPrefix :: "string \<Rightarrow> string \<Rightarrow> bool" where
  "HasPrefix s p \<longleftrightarrow> take (length p) s = p"

definition TrimPrefix :: "string \<Rightarrow> string \<Rightarrow> string" where
  "TrimPrefix s p = (if HasPrefix s p then drop (length p) s else s)"

fun Contains :: "string \<Rightarrow> string \<Rightarrow> bool" where
  "Contains [] p \<longleftrightarrow> p = []"
| "Contains (c # s) p \<longleftrightarrow> HasPrefix (c # s) p \<or> Contains s p"

lemma HasPrefix_append [simp]: "HasPrefix (p @ s) p"
  by (simp add: HasPrefix_def)

lemma HasPrefix_iff: "HasPrefix s p \<longleftrightarrow> (\<exists>t. s = p @ t)"
  by (metis HasPrefix_append HasPrefix_def append_take_drop_id)

lemma TrimPrefix_append [simp]: "TrimPrefix (p @ s) p = s"
  by (simp add: TrimPrefix_def)

section \<open>Package unicode/utf8\<close>

definition cont :: "nat \<Rightarrow> bool" where
  "cont b \<longleftrightarrow> 128 \<le> b \<and> b \<le> 191"

text \<open>Width of the valid encoding at the head of a byte sequence, None for an invalid one.\<close>

fun utf8_width :: "nat list \<Rightarrow> nat option" where
  "utf8_width [] = None"
| "utf8_width (a # s) =
     (if a < 128 then Some 1
      else if 194 \<le> a \<and> a \<le> 223 then
        (case s of b # _ \<Rightarrow> if cont b then Some 2 else None | _ \<Rightarrow> None)
      else if 224 \<le> a \<and> a \<le> 239 then
        (case s of b # c # _ \<Rightarrow>
           if (if a = 224 then 160 \<le> b \<and> b \<le> 191 else if a = 237 then 128 \<le> b \<and> b \<le> 159 else cont b)
              \<and> cont c then Some 3 else None
         | _ \<Rightarrow> None)
      else if 240 \<le> a \<and> a \<le> 244 then
        (case s of b # c # d # _ \<Rightarrow>
           if (if a = 240 then 144 \<le> b \<and> b \<le> 191 else if a = 244 then 128 \<le> b \<and> b \<le> 143 else cont b)
              \<and> cont c \<and> cont d then Some 4 else None
         | _ \<Rightarrow> None)
      else None)"

lemma utf8_width_pos: "utf8_width s = Some n \<Longrightarrow> 0 < n \<and> n \<le> length s"
  by (cases s) (auto split: if_splits list.splits)

declare utf8_width.simps [simp del]

text \<open>The successive runes of a string: the width of each, None where Go yields RuneError.\<close>

function rune_widths :: "nat list \<Rightarrow> nat option list" where
  "rune_widths [] = []"
| "rune_widths (a # s) =
     (case utf8_width (a # s) of
        Some n \<Rightarrow> Some n # rune_widths (drop n (a # s))
      | None \<Rightarrow> None # rune_widths s)"
  by pat_completeness auto
termination
  by (relation "measure length") (auto dest: utf8_width_pos)

definition ValidString :: "string \<Rightarrow> bool" where
  "ValidString s \<longleftrightarrow> None \<notin> set (rune_widths (map ord s))"

definition RuneCountInString :: "string \<Rightarrow> nat" where
  "RuneCountInString s = length (rune_widths (map ord s))"

lemma rune_widths_ascii: "\<forall>b\<in>set s. b < 128 \<Longrightarrow> rune_widths s = replicate (length s) (Some 1)"
  by (induction s) (auto simp: utf8_width.simps)

lemma rune_widths_length: "length (rune_widths s) \<le> length s"
proof (induction s rule: rune_widths.induct)
  case (2 a s)
  show ?case
  proof (cases "utf8_width (a # s)")
    case None
    with 2 show ?thesis by simp
  next
    case (Some n)
    with utf8_width_pos [OF Some] 2(2) [OF Some]
    have "length (rune_widths (drop n (a # s))) \<le> length s"
      by (simp del: drop_Cons') linarith
    with Some show ?thesis by simp
  qed
qed simp

lemma RuneCountInString_le: "RuneCountInString s \<le> length s"
  using rune_widths_length [of "map ord s"] by (simp add: RuneCountInString_def)

text \<open>The rune a valid encoding of the given width stands for, and the encoder.\<close>

fun rune_value :: "nat list \<Rightarrow> nat" where
  "rune_value [a] = a"
| "rune_value [a, b] = (a - 192) * 64 + (b - 128)"
| "rune_value [a, b, c] = (a - 224) * 4096 + (b - 128) * 64 + (c - 128)"
| "rune_value [a, b, c, d] = (a - 240) * 262144 + (b - 128) * 4096 + (c - 128) * 64 + (d - 128)"
| "rune_value _ = 65533"

definition encode_rune :: "nat \<Rightarrow> nat list" where
  "encode_rune r =
     (if r < 128 then [r]
      else if r < 2048 then [192 + r div 64, 128 + r mod 64]
      else if r < 65536 then [224 + r div 4096, 128 + r div 64 mod 64, 128 + r mod 64]
      else [240 + r div 262144, 128 + r div 4096 mod 64, 128 + r div 64 mod 64, 128 + r mod 64])"

function rune_values :: "nat list \<Rightarrow> nat list" where
  "rune_values [] = []"
| "rune_values (a # s) =
     (case utf8_width (a # s) of
        Some n \<Rightarrow> rune_value (take n (a # s)) # rune_values (drop n (a # s))
      | None \<Rightarrow> 65533 # rune_values s)"
  by pat_completeness auto
termination
  by (relation "measure length") (auto dest: utf8_width_pos)

definition runes :: "string \<Rightarrow> nat list" where
  "runes s = rune_values (map ord s)"

text \<open>
  \<open>strings.ToLower\<close>: ASCII letters by arithmetic, other runes by the Unicode tables, which
  are the argument.
\<close>

definition lower_rune :: "(nat \<Rightarrow> nat) \<Rightarrow> nat \<Rightarrow> nat" where
  "lower_rune tbl r = (if r < 128 then (if 65 \<le> r \<and> r \<le> 90 then r + 32 else r) else tbl r)"

definition ToLower :: "(nat \<Rightarrow> nat) \<Rightarrow> string \<Rightarrow> string" where
  "ToLower tbl s = concat (map (\<lambda>r. map chr (encode_rune (lower_rune tbl r))) (runes s))"

text \<open>\<open>strings.TrimSpace\<close>: the encodings of the runes \<open>unicode.IsSpace\<close> accepts.\<close>

definition space_encodings :: "string list" where
  "space_encodings = map (map chr)
     ([[9], [10], [11], [12], [13], [32], [194, 133], [194, 160], [225, 154, 128],
       [226, 128, 168], [226, 128, 169], [226, 128, 175], [226, 129, 159], [227, 128, 128]]
      @ map (\<lambda>k. [226, 128, k]) [128..<139])"

lemma space_encodings_not_Nil: "sp \<in> set space_encodings \<Longrightarrow> sp \<noteq> []"
  by (auto simp: space_encodings_def)

function strip_all :: "string list \<Rightarrow> string \<Rightarrow> string" where
  "strip_all ps s =
     (case List.find (\<lambda>p. p \<noteq> [] \<and> HasPrefix s p) ps of
        None \<Rightarrow> s
      | Some p \<Rightarrow> strip_all ps (drop (length p) s))"
  by pat_completeness auto
termination
  by (relation "measure (\<lambda>(ps, s). length s)")
    (auto simp: find_Some_iff HasPrefix_def, metis diff_less length_greater_0_conv take_Nil)

declare strip_all.simps [simp del]

definition TrimSpace :: "string \<Rightarrow> string" where
  "TrimSpace s =
     rev (strip_all (map rev space_encodings) (rev (strip_all space_encodings s)))"

section \<open>Go's int64\<close>

definition i64 :: "int \<Rightarrow> int" where
  "i64 x = (x + 2 ^ 63) mod 2 ^ 64 - 2 ^ 63"

definition in_int8 :: "int \<Rightarrow> bool" where \<comment> \<open>PostgreSQL BIGINT, Go int64\<close>
  "in_int8 x \<longleftrightarrow> - (2 ^ 63) \<le> x \<and> x < 2 ^ 63"

definition in_int4 :: "int \<Rightarrow> bool" where \<comment> \<open>PostgreSQL INTEGER\<close>
  "in_int4 x \<longleftrightarrow> - (2 ^ 31) \<le> x \<and> x < 2 ^ 31"

lemma i64_id [simp]: "in_int8 x \<Longrightarrow> i64 x = x"
  by (simp add: i64_def in_int8_def)

section \<open>Package strconv\<close>

definition digit :: "nat \<Rightarrow> char" where
  "digit n = chr (48 + n)"

definition is_digit :: "char \<Rightarrow> bool" where
  "is_digit c \<longleftrightarrow> 48 \<le> ord c \<and> ord c \<le> 57"

definition digit_val :: "char \<Rightarrow> nat" where
  "digit_val c = ord c - 48"

fun show_nat :: "nat \<Rightarrow> string" where
  "show_nat n = (if n < 10 then [digit n] else show_nat (n div 10) @ [digit (n mod 10)])"

declare show_nat.simps [simp del]

definition FormatInt :: "int \<Rightarrow> string" where
  "FormatInt n = (if n < 0 then CHR ''-'' # show_nat (nat (- n)) else show_nat (nat n))"

definition dec_val :: "string \<Rightarrow> nat" where
  "dec_val s = foldl (\<lambda>n c. 10 * n + digit_val c) 0 s"

text \<open>\<open>ParseInt(s, 10, 64)\<close>, which is also \<open>Atoi\<close> on a 64-bit platform; None is an error.\<close>

definition ParseInt :: "string \<Rightarrow> int option" where
  "ParseInt s =
     (let neg = (s \<noteq> [] \<and> hd s = CHR ''-'');
          body = (if s \<noteq> [] \<and> (hd s = CHR ''-'' \<or> hd s = CHR ''+'') then tl s else s);
          v = (if neg then - int (dec_val body) else int (dec_val body))
      in if body \<noteq> [] \<and> list_all is_digit body \<and> in_int8 v then Some v else None)"

abbreviation Atoi :: "string \<Rightarrow> int option" where
  "Atoi \<equiv> ParseInt"

lemma digit_is_digit [simp]: "n < 10 \<Longrightarrow> is_digit (digit n)"
  by (simp add: is_digit_def digit_def)

lemma digit_val_digit [simp]: "n < 10 \<Longrightarrow> digit_val (digit n) = n"
  by (simp add: digit_val_def digit_def)

lemma digit_digit_val [simp]: "is_digit c \<Longrightarrow> digit (digit_val c) = c"
  by (simp add: digit_def digit_val_def is_digit_def)

lemma digit_val_less [simp]: "is_digit c \<Longrightarrow> digit_val c < 10"
  by (auto simp: digit_val_def is_digit_def)

lemma dec_val_snoc [simp]: "dec_val (s @ [c]) = 10 * dec_val s + digit_val c"
  by (simp add: dec_val_def)

lemma dec_val_Nil [simp]: "dec_val [] = 0"
  by (simp add: dec_val_def)

lemma show_nat_not_Nil [simp]: "show_nat n \<noteq> []"
  by (subst show_nat.simps) simp

lemma show_nat_digits: "list_all is_digit (show_nat n)"
proof (induction n rule: show_nat.induct)
  case (1 n)
  then show ?case by (subst show_nat.simps) auto
qed

lemma dec_val_show_nat [simp]: "dec_val (show_nat n) = n"
proof (induction n rule: show_nat.induct)
  case (1 n)
  show ?case
  proof (cases "n < 10")
    case True
    then have "show_nat n = [] @ [digit n]" by (subst show_nat.simps) simp
    with True show ?thesis by (simp only: dec_val_snoc dec_val_Nil digit_val_digit)
  next
    case False
    then have "show_nat n = show_nat (n div 10) @ [digit (n mod 10)]"
      by (subst show_nat.simps) simp
    with 1 False show ?thesis by simp
  qed
qed

lemma hd_show_nat_digit: "is_digit (hd (show_nat n))"
  using show_nat_digits [of n] by (cases "show_nat n") simp_all

lemma is_digit_not_sign: "is_digit c \<Longrightarrow> c \<noteq> CHR ''-'' \<and> c \<noteq> CHR ''+''"
  by (auto simp: is_digit_def ord_def)

lemma ParseInt_digits:
  "s \<noteq> [] \<Longrightarrow> list_all is_digit s \<Longrightarrow> int (dec_val s) < 2 ^ 63 \<Longrightarrow> ParseInt s = Some (int (dec_val s))"
  by (cases s) (auto simp: ParseInt_def in_int8_def dest: is_digit_not_sign)

lemma ParseInt_FormatInt: "in_int8 n \<Longrightarrow> ParseInt (FormatInt n) = Some n"
proof (cases "n < 0")
  case True
  assume "in_int8 n"
  with True show ?thesis
    using show_nat_digits [of "nat (- n)"] by (simp add: ParseInt_def FormatInt_def in_int8_def)
next
  case False
  assume "in_int8 n"
  with False show ?thesis
    using show_nat_digits [of "nat n"]
    by (simp add: FormatInt_def ParseInt_digits in_int8_def)
qed

definition signed_val :: "string \<Rightarrow> int" where
  "signed_val s = (if hd s = CHR ''-'' then - int (dec_val (tl s)) else int (dec_val s))"

lemma signed_val_FormatInt: "signed_val (FormatInt n) = n"
  using is_digit_not_sign [OF hd_show_nat_digit [of "nat n"]]
  by (simp add: signed_val_def FormatInt_def)

lemma FormatInt_inj [simp]: "FormatInt m = FormatInt n \<longleftrightarrow> m = n"
  by (metis signed_val_FormatInt)

section \<open>Hexadecimal\<close>

text \<open>\<open>hex.EncodeToString\<close>, which is also \<open>%x\<close> of a byte slice.\<close>

definition hex_digit :: "nat \<Rightarrow> char" where
  "hex_digit n = (if n < 10 then chr (48 + n) else chr (87 + n))"

definition hex_encode :: "bytes \<Rightarrow> string" where
  "hex_encode b = concat (map (\<lambda>w. [hex_digit (unat w div 16), hex_digit (unat w mod 16)]) b)"

definition HasSuffix :: "string \<Rightarrow> string \<Rightarrow> bool" where
  "HasSuffix s p \<longleftrightarrow> length p \<le> length s \<and> drop (length s - length p) s = p"

end
