(* ===== verification/Json.thy ===== *)
theory Json
  imports GoStd
begin

text \<open>
  Package \<open>encoding/json\<close> as the server uses it: the scanner and the decoder of
  \<open>json.NewDecoder(r).Decode\<close> and \<open>json.Unmarshal\<close>, on byte strings, and the filling of a
  struct from an object by its field names.  Every error of the library is None: the callers
  only ask whether there was one.  A number keeps its literal, as the library does until it
  knows the type of the field.
\<close>

datatype json =
    JNull
  | JBool bool
  | JNum string
  | JStr string
  | JArr "json list"
  | JObj "(string \<times> json) list"

section \<open>Lexical elements\<close>

definition is_ws :: "char \<Rightarrow> bool" where
  "is_ws c \<longleftrightarrow> ord c \<in> {9, 10, 13, 32}"

definition skip_ws :: "string \<Rightarrow> string" where
  "skip_ws s = dropWhile is_ws s"

definition quote :: char where "quote = chr 34"
definition backslash :: char where "backslash = chr 92"

definition hex_val :: "char \<Rightarrow> nat option" where
  "hex_val c =
     (if is_digit c then Some (ord c - 48)
      else if 97 \<le> ord c \<and> ord c \<le> 102 then Some (ord c - 87)
      else if 65 \<le> ord c \<and> ord c \<le> 70 then Some (ord c - 55)
      else None)"

text \<open>Four hexadecimal digits, and the same behind a backslash and the letter u.\<close>

definition hex4 :: "string \<Rightarrow> nat option" where
  "hex4 s =
     (case map hex_val (take 4 s) of
        [Some a, Some b, Some c, Some d] \<Rightarrow> Some (4096 * a + 256 * b + 16 * c + d)
      | _ \<Rightarrow> None)"

definition getu4 :: "string \<Rightarrow> nat option" where
  "getu4 s = (if take 2 s = [backslash, CHR ''u''] then hex4 (drop 2 s) else None)"

definition surrogate :: "nat \<Rightarrow> bool" where
  "surrogate r \<longleftrightarrow> 55296 \<le> r \<and> r < 57344"

definition surrogate_pair :: "nat \<Rightarrow> nat \<Rightarrow> nat option" where
  "surrogate_pair a b =
     (if 55296 \<le> a \<and> a < 56320 \<and> 56320 \<le> b \<and> b < 57344
      then Some ((a - 55296) * 1024 + (b - 56320) + 65536) else None)"

definition rune_string :: "nat \<Rightarrow> string" where
  "rune_string r = map chr (encode_rune r)"

text \<open>What follows a backslash: the decoded bytes and the rest of the input.\<close>

definition escape :: "string \<Rightarrow> (string \<times> string) option" where
  "escape s =
     (case s of
        [] \<Rightarrow> None
      | c # t \<Rightarrow>
          if c \<in> {quote, backslash, CHR ''/''} then Some ([c], t)
          else if c = CHR ''b'' then Some ([chr 8], t)
          else if c = CHR ''f'' then Some ([chr 12], t)
          else if c = CHR ''n'' then Some ([chr 10], t)
          else if c = CHR ''r'' then Some ([chr 13], t)
          else if c = CHR ''t'' then Some ([chr 9], t)
          else if c = CHR ''u'' then
            (case hex4 t of
               None \<Rightarrow> None
             | Some r \<Rightarrow>
                 let t = drop 4 t in
                 if \<not> surrogate r then Some (rune_string r, t)
                 else case getu4 t of
                   None \<Rightarrow> Some (rune_string 65533, t)
                 | Some r' \<Rightarrow>
                     (case surrogate_pair r r' of
                        None \<Rightarrow> Some (rune_string 65533, t)
                      | Some p \<Rightarrow> Some (rune_string p, drop 6 t)))
          else None)"

lemma escape_shorter: "escape s = Some (x, t) \<Longrightarrow> length t < length s"
  by (auto simp: escape_def Let_def split: list.splits option.splits if_splits)

text \<open>The rest of a string literal behind its opening quote.\<close>

function string_body :: "string \<Rightarrow> (string \<times> string) option" where
  "string_body s =
     (case s of
        [] \<Rightarrow> None
      | c # t \<Rightarrow>
          if c = quote then Some ([], t)
          else if c = backslash then
            (case escape t of
               None \<Rightarrow> None
             | Some (x, u) \<Rightarrow> map_option (\<lambda>(y, r). (x @ y, r)) (string_body u))
          else if ord c < 32 then None
          else case utf8_width (map ord s) of
            Some n \<Rightarrow> map_option (\<lambda>(y, r). (take n s @ y, r)) (string_body (drop n s))
          | None \<Rightarrow> map_option (\<lambda>(y, r). (rune_string 65533 @ y, r)) (string_body t))"
  by pat_completeness auto
termination
  by (relation "measure length") (auto dest: escape_shorter utf8_width_pos)

declare string_body.simps [simp del]

definition digits :: "string \<Rightarrow> string" where
  "digits s = takeWhile is_digit s"

text \<open>The parts of a number behind its sign, its integer part and its fraction.\<close>

definition int_part :: "string \<Rightarrow> string option" where
  "int_part s =
     (if digits s = [] then None else if hd s = CHR ''0'' then Some ''0'' else Some (digits s))"

definition frac_part :: "string \<Rightarrow> string option" where
  "frac_part s =
     (if s \<noteq> [] \<and> hd s = CHR ''.'' then
        (if digits (tl s) = [] then None else Some (CHR ''.'' # digits (tl s)))
      else Some [])"

definition exp_part :: "string \<Rightarrow> string option" where
  "exp_part s =
     (if s \<noteq> [] \<and> hd s \<in> {CHR ''e'', CHR ''E''} then
        (let sign = (if tl s \<noteq> [] \<and> hd (tl s) \<in> {CHR ''+'', CHR ''-''} then take 1 (tl s) else []);
             ds = digits (drop (length sign) (tl s))
         in if ds = [] then None else Some (hd s # sign @ ds))
      else Some [])"

definition number :: "string \<Rightarrow> (string \<times> string) option" where
  "number s =
     (let sign = (if s \<noteq> [] \<and> hd s = CHR ''-'' then ''-'' else []); s = drop (length sign) s in
      case int_part s of
        None \<Rightarrow> None
      | Some i \<Rightarrow>
          (case frac_part (drop (length i) s) of
             None \<Rightarrow> None
           | Some f \<Rightarrow>
               (case exp_part (drop (length i + length f) s) of
                  None \<Rightarrow> None
                | Some e \<Rightarrow>
                    Some (sign @ i @ f @ e, drop (length i + length f + length e) s))))"

section \<open>Values\<close>

text \<open>
  The first argument bounds the recursion: every call has consumed a byte since the call
  before it, so the length of the input is enough (\<open>parse_fuel\<close>).  The second is what is left
  of the nesting depth of 10000 the library allows.
\<close>

fun parse_value :: "nat \<Rightarrow> nat \<Rightarrow> string \<Rightarrow> (json \<times> string) option"
  and parse_elems :: "nat \<Rightarrow> nat \<Rightarrow> string \<Rightarrow> (json list \<times> string) option"
  and parse_members :: "nat \<Rightarrow> nat \<Rightarrow> string \<Rightarrow> ((string \<times> json) list \<times> string) option" where
  "parse_value 0 d s = None"
| "parse_value (Suc n) d s =
     (case skip_ws s of
        [] \<Rightarrow> None
      | c # t \<Rightarrow>
          if c = CHR ''{'' then
            (if d = 0 then None
             else case skip_ws t of
               [] \<Rightarrow> None
             | k # u \<Rightarrow>
                 if k = CHR ''}'' then Some (JObj [], u)
                 else map_option (\<lambda>(ms, r). (JObj ms, r)) (parse_members n (d - 1) (k # u)))
          else if c = CHR ''['' then
            (if d = 0 then None
             else case skip_ws t of
               [] \<Rightarrow> None
             | k # u \<Rightarrow>
                 if k = CHR '']'' then Some (JArr [], u)
                 else map_option (\<lambda>(vs, r). (JArr vs, r)) (parse_elems n (d - 1) (k # u)))
          else if c = quote then map_option (\<lambda>(x, r). (JStr x, r)) (string_body t)
          else if HasPrefix (c # t) ''null'' then Some (JNull, drop 4 (c # t))
          else if HasPrefix (c # t) ''true'' then Some (JBool True, drop 4 (c # t))
          else if HasPrefix (c # t) ''false'' then Some (JBool False, drop 5 (c # t))
          else map_option (\<lambda>(x, r). (JNum x, r)) (number (c # t)))"
| "parse_elems 0 d s = None"
| "parse_elems (Suc n) d s =
     (case parse_value n d s of
        None \<Rightarrow> None
      | Some (v, r) \<Rightarrow>
          (case skip_ws r of
             [] \<Rightarrow> None
           | c # t \<Rightarrow>
               if c = CHR '']'' then Some ([v], t)
               else if c = CHR '','' then map_option (\<lambda>(vs, r). (v # vs, r)) (parse_elems n d t)
               else None))"
| "parse_members 0 d s = None"
| "parse_members (Suc n) d s =
     (case skip_ws s of
        [] \<Rightarrow> None
      | c # t \<Rightarrow>
          if c \<noteq> quote then None
          else case string_body t of
            None \<Rightarrow> None
          | Some (k, r) \<Rightarrow>
              (case skip_ws r of
                 [] \<Rightarrow> None
               | e # u \<Rightarrow>
                   if e \<noteq> CHR '':'' then None
                   else case parse_value n d u of
                     None \<Rightarrow> None
                   | Some (v, r) \<Rightarrow>
                       (case skip_ws r of
                          [] \<Rightarrow> None
                        | e # u \<Rightarrow>
                            if e = CHR ''}'' then Some ([(k, v)], u)
                            else if e = CHR '','' then
                              map_option (\<lambda>(ms, r). ((k, v) # ms, r)) (parse_members n d u)
                            else None)))"

definition max_depth :: nat where "max_depth = 10000"

text \<open>
  \<open>Decoder.Decode\<close> reads the first value and leaves what follows; \<open>Unmarshal\<close> allows only
  white space to follow.
\<close>

definition read_value :: "string \<Rightarrow> json option" where
  "read_value s = map_option fst (parse_value (2 * length s + 1) max_depth s)"

definition read_all :: "string \<Rightarrow> json option" where
  "read_all s =
     (case parse_value (2 * length s + 1) max_depth s of
        Some (v, r) \<Rightarrow> if skip_ws r = [] then Some v else None
      | None \<Rightarrow> None)"

section \<open>The bound is enough\<close>

lemma skip_ws_shorter: "length (skip_ws s) \<le> length s"
  by (simp add: skip_ws_def length_dropWhile_le)

lemma skip_ws_Cons: "skip_ws s = c # t \<Longrightarrow> length t < length s"
  using skip_ws_shorter [of s] by simp

lemma string_body_shorter: "string_body s = Some (x, r) \<Longrightarrow> length r < length s"
proof (induction s arbitrary: x r rule: string_body.induct)
  case (1 s)
  show ?case
  proof (cases s)
    case Nil
    with 1(4) show ?thesis by (simp add: string_body.simps)
  next
    case (Cons c t)
    have esc: "length r < length s" if "string_body u = Some (y, r)" "escape t = Some (z, u)"
      "c \<noteq> quote" "c = backslash" for y z u
      using 1(1) [OF Cons that(3,4,2) refl that(1)] escape_shorter [OF that(2)] Cons by simp
    have run: "length r < length s" if "string_body (drop n s) = Some (y, r)"
      "utf8_width (map ord s) = Some n" "c \<noteq> quote" "c \<noteq> backslash" "\<not> ord c < 32" for y n
      using 1(3) [OF Cons that(3-5,2,1)] by simp
    have bad: "length r < length s" if "string_body t = Some (y, r)"
      "utf8_width (map ord s) = None" "c \<noteq> quote" "c \<noteq> backslash" "\<not> ord c < 32" for y
      using 1(2) [OF Cons that(3-5,2,1)] Cons by simp
    from 1(4) Cons esc run bad show ?thesis
      by (subst (asm) string_body.simps) (auto split: if_splits option.splits)
  qed
qed

lemma digits_le: "length (digits s) \<le> length s"
  by (simp add: digits_def length_takeWhile_le)

lemma number_shorter: "number s = Some (x, r) \<Longrightarrow> length r < length s"
proof -
  assume "number s = Some (x, r)"
  then obtain k i where "r = drop (k + length i) s" and i: "int_part (drop (length (if s \<noteq> [] \<and> hd s = CHR ''-'' then ''-'' else [])) s) = Some i"
    by (auto simp: number_def Let_def drop_drop add.assoc split: option.splits)
      (metis add.commute add.left_commute)+
  moreover from i have "i \<noteq> []" "s \<noteq> []" by (auto simp: int_part_def digits_def split: if_splits)
  ultimately show ?thesis by (cases i) auto
qed

lemma length_drop_less: "xs \<noteq> [] \<Longrightarrow> 0 < k \<Longrightarrow> length (drop k xs) < length xs"
  by simp

lemma parse_shorter:
  "parse_value n d s = Some (v, r) \<Longrightarrow> length r < length s"
  "parse_elems n d s = Some (vs, r) \<Longrightarrow> length r < length s"
  "parse_members n d s = Some (ms, r) \<Longrightarrow> length r < length s"
proof (induction n d s and n d s and n d s arbitrary: v r and vs r and ms r
    rule: parse_value_parse_elems_parse_members.induct)
  case (2 n d s)
  show ?case
    using 2 skip_ws_shorter [of s]
    by (auto split: list.splits if_splits simp del: drop_Cons' drop_Suc_Cons dest!: string_body_shorter number_shorter)
      (drule skip_ws_Cons, drule skip_ws_Cons, force)+
next
  case (4 n d s)
  have tail: "length r < length s" if "parse_value n d s = Some (v, r1)" "skip_ws r1 = c # t"
    "length r \<le> length t" for v r1 c t
    using 4(1) [OF that(1)] skip_ws_Cons [OF that(2)] that(3) by simp
  show ?case
    using 4(2,3) tail by (auto split: list.splits if_splits option.splits simp: less_imp_le)
next
  case (6 n d s)
  from 6(3) obtain t k r1 u v r2 e w where chain: "skip_ws s = quote # t" "string_body t = Some (k, r1)"
      "skip_ws r1 = CHR '':'' # u" "parse_value n d u = Some (v, r2)" "skip_ws r2 = e # w"
    and last: "r = w \<or> e \<noteq> CHR ''}'' \<and> e = CHR '','' \<and> (\<exists>ms'. parse_members n d w = Some (ms', r))"
    by (auto split: list.splits if_splits option.splits)
  have "length r \<le> length w"
    using last 6(2) [OF chain(1) _ chain(2) refl chain(3) _ chain(4) refl chain(5)] by (auto simp: less_imp_le)
  then show ?case
    using chain(1,3,5) [THEN skip_ws_Cons] string_body_shorter [OF chain(2)]
      6(1) [OF chain(1) _ chain(2) refl chain(3) _ chain(4)] by auto
qed simp_all

text \<open>More than twice the length of the input changes nothing.\<close>

lemma parse_fuel_Suc:
  "2 * length s < n \<Longrightarrow> parse_value (Suc n) d s = parse_value n d s"
  "2 * length s + 1 < n \<Longrightarrow> parse_elems (Suc n) d s = parse_elems n d s"
  "2 * length s < n \<Longrightarrow> parse_members (Suc n) d s = parse_members n d s"
proof (induction n d s and n d s and n d s rule: parse_value_parse_elems_parse_members.induct)
  case (2 n d s)
  have elems: "parse_elems (Suc n) (d - 1) (k # u) = parse_elems n (d - 1) (k # u)"
    if "skip_ws s = c # t" "c \<noteq> CHR ''{''" "c = CHR ''[''" "d \<noteq> 0" "skip_ws t = k # u" "k \<noteq> CHR '']''" for c t k u
    using 2 that skip_ws_shorter [of t] skip_ws_Cons [OF that(1)] by auto
  have members: "parse_members (Suc n) (d - 1) (k # u) = parse_members n (d - 1) (k # u)"
    if "skip_ws s = c # t" "c = CHR ''{''" "d \<noteq> 0" "skip_ws t = k # u" "k \<noteq> CHR ''}''" for c t k u
    using 2 that skip_ws_shorter [of t] skip_ws_Cons [OF that(1)] by auto
  show ?case
    unfolding parse_value.simps(2) [of "Suc n"] parse_value.simps(2) [of n]
    using elems members by (simp split: list.split)
next
  case (4 n d s)
  have "parse_elems (Suc n) d t = parse_elems n d t"
    if "parse_value n d s = Some (v, r)" "skip_ws r = c # t" "c \<noteq> CHR '']''" "c = CHR '',''" for v r c t
    using 4(2) [OF that(1) refl that(2-4)] 4(3) parse_shorter(1) [OF that(1)] skip_ws_Cons [OF that(2)] by simp
  moreover have "parse_value (Suc n) d s = parse_value n d s" using 4(1,3) by simp
  ultimately show ?case
    unfolding parse_elems.simps(2) [of "Suc n"] parse_elems.simps(2) [of n]
    by (auto split: option.split list.split)
next
  case (6 n d s)
  have v: "parse_value (Suc n) d u = parse_value n d u"
    if "skip_ws s = c # t" "\<not> c \<noteq> quote" "string_body t = Some (k, r)" "skip_ws r = e # u" "\<not> e \<noteq> CHR '':''" for c t k r e u
    using 6(1) [OF that(1-3) refl that(4,5)] 6(3) skip_ws_Cons [OF that(1)] string_body_shorter [OF that(3)]
      skip_ws_Cons [OF that(4)] by simp
  have ms: "parse_members (Suc n) d w = parse_members n d w"
    if "skip_ws s = c # t" "\<not> c \<noteq> quote" "string_body t = Some (k, r)" "skip_ws r = e # u" "\<not> e \<noteq> CHR '':''"
      "parse_value n d u = Some (x, r2)" "skip_ws r2 = f # w" "f \<noteq> CHR ''}''" "f = CHR '',''" for c t k r e u x r2 f w
    using 6(2) [OF that(1-3) refl that(4,5,6) refl that(7-9)] 6(3) skip_ws_Cons [OF that(1)]
      string_body_shorter [OF that(3)] skip_ws_Cons [OF that(4)] parse_shorter(1) [OF that(6)]
      skip_ws_Cons [OF that(7)] by simp
  show ?case
    unfolding parse_members.simps(2) [of "Suc n"] parse_members.simps(2) [of n]
    using v ms by (auto split: option.split list.split)
qed simp_all

lemma parse_fuel:
  assumes "2 * length s < n"
  shows "parse_value n d s = parse_value (2 * length s + 1) d s"
  using assms
proof (induction n)
  case (Suc n)
  then show ?case using parse_fuel_Suc(1) [of s n d] by (cases "n = 2 * length s") auto
qed simp

section \<open>Filling a struct\<close>

text \<open>
  \<open>foldName\<close>: the smallest rune of the case orbit.  The only runes outside ASCII whose orbit
  has an ASCII letter are U+017F and U+212A; others never equal a field name, which is ASCII.
\<close>

function fold_name :: "nat list \<Rightarrow> nat list" where
  "fold_name s =
     (case s of
        [] \<Rightarrow> []
      | c # t \<Rightarrow>
          if c < 128 then (if 97 \<le> c \<and> c \<le> 122 then c - 32 else c) # fold_name t
          else if take 2 s = [197, 191] then 83 # fold_name (drop 2 s)
          else if take 3 s = [226, 132, 170] then 75 # fold_name (drop 3 s)
          else c # fold_name t)"
  by pat_completeness auto
termination
  by (relation "measure length") auto

declare fold_name.simps [simp del]

definition foldName :: "string \<Rightarrow> nat list" where
  "foldName s = fold_name (map ord s)"

text \<open>
  A field is its JSON name and what storing a value into it does to the struct; None is a type
  error, which \<open>Decode\<close> returns in the end.  A key selects the field of exactly that name, or
  else the first one that is equal up to case.
\<close>

type_synonym 'a field = "string \<times> (json \<Rightarrow> 'a \<Rightarrow> 'a option)"

definition select_field :: "'a field list \<Rightarrow> string \<Rightarrow> (json \<Rightarrow> 'a \<Rightarrow> 'a option) option" where
  "select_field fs key =
     (case map_of fs key of
        Some store \<Rightarrow> Some store
      | None \<Rightarrow> map_option snd (List.find (\<lambda>(name, _). foldName name = foldName key) fs))"

text \<open>\<open>strict\<close> is \<open>DisallowUnknownFields\<close>.\<close>

fun fill :: "bool \<Rightarrow> 'a field list \<Rightarrow> (string \<times> json) list \<Rightarrow> 'a \<Rightarrow> 'a option" where
  "fill strict fs [] r = Some r"
| "fill strict fs ((k, v) # ms) r =
     (case select_field fs k of
        None \<Rightarrow> if strict then None else fill strict fs ms r
      | Some store \<Rightarrow>
          (case store v r of
             None \<Rightarrow> None
           | Some r \<Rightarrow> fill strict fs ms r))"

definition decode_struct :: "bool \<Rightarrow> 'a field list \<Rightarrow> json \<Rightarrow> 'a \<Rightarrow> 'a option" where
  "decode_struct strict fs v r =
     (case v of JNull \<Rightarrow> Some r | JObj ms \<Rightarrow> fill strict fs ms r | _ \<Rightarrow> None)"

definition string_field :: "((string \<Rightarrow> string) \<Rightarrow> 'a \<Rightarrow> 'a) \<Rightarrow> json \<Rightarrow> 'a \<Rightarrow> 'a option" where
  "string_field upd v r =
     (case v of JNull \<Rightarrow> Some r | JStr x \<Rightarrow> Some (upd (\<lambda>_. x) r) | _ \<Rightarrow> None)"

definition int_field :: "((int \<Rightarrow> int) \<Rightarrow> 'a \<Rightarrow> 'a) \<Rightarrow> json \<Rightarrow> 'a \<Rightarrow> 'a option" where
  "int_field upd v r =
     (case v of
        JNull \<Rightarrow> Some r
      | JNum x \<Rightarrow> (case ParseInt x of None \<Rightarrow> None | Some n \<Rightarrow> Some (upd (\<lambda>_. n) r))
      | _ \<Rightarrow> None)"

text \<open>A pointer to a bool, and one to a struct whose zero value is the first argument.\<close>

definition bool_ptr_field ::
  "((bool option \<Rightarrow> bool option) \<Rightarrow> 'a \<Rightarrow> 'a) \<Rightarrow> json \<Rightarrow> 'a \<Rightarrow> 'a option" where
  "bool_ptr_field upd v r =
     (case v of
        JNull \<Rightarrow> Some (upd (\<lambda>_. None) r)
      | JBool b \<Rightarrow> Some (upd (\<lambda>_. Some b) r)
      | _ \<Rightarrow> None)"

definition struct_ptr_field ::
  "'b \<Rightarrow> bool \<Rightarrow> 'b field list \<Rightarrow> ('a \<Rightarrow> 'b option) \<Rightarrow> (('b option \<Rightarrow> 'b option) \<Rightarrow> 'a \<Rightarrow> 'a)
     \<Rightarrow> json \<Rightarrow> 'a \<Rightarrow> 'a option" where
  "struct_ptr_field zero strict fs get upd v r =
     (case v of
        JNull \<Rightarrow> Some (upd (\<lambda>_. None) r)
      | _ \<Rightarrow>
          (case decode_struct strict fs v (case get r of None \<Rightarrow> zero | Some x \<Rightarrow> x) of
             None \<Rightarrow> None
           | Some x \<Rightarrow> Some (upd (\<lambda>_. Some x) r)))"

definition struct_field ::
  "bool \<Rightarrow> 'b field list \<Rightarrow> ('a \<Rightarrow> 'b) \<Rightarrow> (('b \<Rightarrow> 'b) \<Rightarrow> 'a \<Rightarrow> 'a) \<Rightarrow> json \<Rightarrow> 'a \<Rightarrow> 'a option" where
  "struct_field strict fs get upd v r =
     map_option (\<lambda>x. upd (\<lambda>_. x) r) (decode_struct strict fs v (get r))"

end
