(* ===== verification/GoTime.thy ===== *)
theory GoTime
  imports GoStd "HOL-Library.Monad_Syntax"
begin

text \<open>
  \<open>time.Parse(time.RFC3339, s)\<close>: the proleptic Gregorian calendar and the fields of the layout,
  with what Go tolerates (an hour of one digit, a fraction of a second behind a dot or a comma,
  offsets up to 24:60).  A time is the number of nanoseconds since the Unix epoch.
\<close>

section \<open>The calendar\<close>

definition is_leap :: "int \<Rightarrow> bool" where
  "is_leap y \<longleftrightarrow> y mod 4 = 0 \<and> (y mod 100 \<noteq> 0 \<or> y mod 400 = 0)"

definition days_in :: "int \<Rightarrow> int \<Rightarrow> int" where
  "days_in m y = (if m = 2 then (if is_leap y then 29 else 28) else if m \<in> {4, 6, 9, 11} then 30 else 31)"

definition days_before_year :: "int \<Rightarrow> int" where
  "days_before_year y = 365 * (y - 1) + (y - 1) div 4 - (y - 1) div 100 + (y - 1) div 400"

definition days_before_month :: "int \<Rightarrow> int \<Rightarrow> int" where
  "days_before_month m y = sum_list (map (\<lambda>k. days_in k y) [1..m - 1])"

text \<open>Days since 1 January 1970.\<close>

definition day_number :: "int \<Rightarrow> int \<Rightarrow> int \<Rightarrow> int" where
  "day_number y m d = days_before_year y + days_before_month m y + (d - 1) - 719162"

section \<open>The layout\<close>

definition getnum :: "bool \<Rightarrow> string \<Rightarrow> (int \<times> string) option" where
  "getnum fixed s =
     (if s = [] \<or> \<not> is_digit (hd s) then None
      else if 2 \<le> length s \<and> is_digit (s ! 1)
      then Some (int (10 * digit_val (hd s) + digit_val (s ! 1)), drop 2 s)
      else if fixed then None else Some (int (digit_val (hd s)), tl s))"

definition literal :: "char \<Rightarrow> string \<Rightarrow> string option" where
  "literal c s = (if s \<noteq> [] \<and> hd s = c then Some (tl s) else None)"

definition long_year :: "string \<Rightarrow> (int \<times> string) option" where
  "long_year s =
     (if length s < 4 \<or> \<not> list_all is_digit (take 4 s) then None
      else Some (int (dec_val (take 4 s)), drop 4 s))"

definition ranged :: "bool \<Rightarrow> int \<Rightarrow> int \<Rightarrow> string \<Rightarrow> (int \<times> string) option" where
  "ranged fixed lo hi s =
     (case getnum fixed s of
        Some (n, t) \<Rightarrow> if lo \<le> n \<and> n \<le> hi then Some (n, t) else None
      | None \<Rightarrow> None)"

text \<open>At most nine digits of the fraction count.\<close>

definition fraction :: "string \<Rightarrow> int \<times> string" where
  "fraction s =
     (if 2 \<le> length s \<and> (hd s = CHR ''.'' \<or> hd s = CHR '','') \<and> is_digit (s ! 1) then
        (let ds = takeWhile is_digit (tl s); k = take 9 ds in
         (int (dec_val k * 10 ^ (9 - length k)), drop (1 + length ds) s))
      else (0, s))"

text \<open>Seconds east of UTC.\<close>

definition offset :: "string \<Rightarrow> int option" where
  "offset s =
     (if s = ''Z'' then Some 0
      else if length s = 6 \<and> s ! 3 = CHR '':'' \<and> (hd s = CHR ''+'' \<or> hd s = CHR ''-'') then
        (case (ranged True 0 24 (take 2 (drop 1 s)), ranged True 0 60 (drop 4 s)) of
           (Some (h, _), Some (m, _)) \<Rightarrow>
             Some ((if hd s = CHR ''-'' then - 1 else 1) * (h * 3600 + m * 60))
         | _ \<Rightarrow> None)
      else None)"

definition ParseRFC3339 :: "string \<Rightarrow> time option" where
  "ParseRFC3339 s = do {
     (y, s) \<leftarrow> long_year s;
     s \<leftarrow> literal (CHR ''-'') s;
     (m, s) \<leftarrow> ranged True 1 12 s;
     s \<leftarrow> literal (CHR ''-'') s;
     (d, s) \<leftarrow> getnum True s;
     s \<leftarrow> literal (CHR ''T'') s;
     (hh, s) \<leftarrow> ranged False 0 23 s;
     s \<leftarrow> literal (CHR '':'') s;
     (mm, s) \<leftarrow> ranged True 0 59 s;
     s \<leftarrow> literal (CHR '':'') s;
     (ss, s) \<leftarrow> ranged True 0 59 s;
     let (ns, s) = fraction s;
     off \<leftarrow> offset s;
     if 1 \<le> d \<and> d \<le> days_in m y
     then Some (seconds (day_number y m d * 86400 + hh * 3600 + mm * 60 + ss - off) + ns)
     else None
   }"

lemmas rfc3339_defs = ParseRFC3339_def long_year_def literal_def ranged_def getnum_def fraction_def
  offset_def day_number_def days_before_year_def days_before_month_def days_in_def is_leap_def

lemma digit_literals [simp]:
  "is_digit (CHR ''0'')" "is_digit (CHR ''1'')" "is_digit (CHR ''2'')" "is_digit (CHR ''3'')"
  "is_digit (CHR ''4'')" "is_digit (CHR ''5'')" "is_digit (CHR ''6'')" "is_digit (CHR ''7'')"
  "is_digit (CHR ''8'')" "is_digit (CHR ''9'')" "\<not> is_digit (CHR ''-'')" "\<not> is_digit (CHR '':'')"
  "\<not> is_digit (CHR ''T'')" "\<not> is_digit (CHR ''Z'')" "\<not> is_digit (CHR ''+'')" "\<not> is_digit (CHR ''.'')"
  by code_simp+

lemma digit_val_literals [simp]:
  "digit_val (CHR ''0'') = 0" "digit_val (CHR ''1'') = 1" "digit_val (CHR ''2'') = 2"
  "digit_val (CHR ''3'') = 3" "digit_val (CHR ''4'') = 4" "digit_val (CHR ''5'') = 5"
  "digit_val (CHR ''6'') = 6" "digit_val (CHR ''7'') = 7" "digit_val (CHR ''8'') = 8"
  "digit_val (CHR ''9'') = 9"
  by code_simp+

lemma ParseRFC3339_samples:
  "ParseRFC3339 ''1970-01-01T00:00:00Z'' = Some 0"
  "ParseRFC3339 ''2024-02-29T12:30:00.5+02:00'' = Some 1709202600500000000"
  "ParseRFC3339 ''2023-02-29T00:00:00Z'' = None"
  by (simp_all add: rfc3339_defs dec_val_def upto.simps seconds_def Let_def)

end
