(* ===== verification/Apperr.thy ===== *)
theory Apperr
  imports Prelude
begin

text \<open>
  Package \<open>apperr\<close> (server/internal/apperr/apperr.go): the error codes of the protocol and the
  error value a handler turns into a response.  The human-readable \<open>Message\<close> is not kept: no
  code inspects it.  \<open>failure\<close> is what a store operation can return as its Go error: an
  application error, an error the database reports, or another error of the standard library.
\<close>

datatype Code =
    InvalidRequest | UnsupportedFormat | Unauthenticated | TokenExpired | DeviceRevoked
  | RegistrationDisabled | NotFound | VaultNotInitialized | IdempotencyConflict
  | SyncResetRequired | QuotaExceeded | ClipPurged | TrashExpired | CursorExpired
  | SnapshotExpired | VersionConflict | VaultExists | PayloadTooLarge | PreconditionRequired
  | RateLimited | NotReady | TemporarilyUnavailable

datatype detail = DStr string | DInt int | DTime "time option"

record Error =
  err_Status :: int
  err_Code :: Code
  err_Details :: "(string \<times> detail) list option"

definition New :: "int \<Rightarrow> Code \<Rightarrow> Error" where
  "New status code = \<lparr>err_Status = status, err_Code = code, err_Details = None\<rparr>"

definition WithDetails :: "int \<Rightarrow> Code \<Rightarrow> (string \<times> detail) list \<Rightarrow> Error" where
  "WithDetails status code details =
     \<lparr>err_Status = status, err_Code = code, err_Details = Some details\<rparr>"

datatype db_error =
    UniqueViolation | CheckViolation | ForeignKeyViolation | OutOfRange | NoRows | TxAborted

datatype failure = App Error | Db db_error | Other

text \<open>\<open>apperr.Is\<close>: the Go error is nil (None) or a failure.\<close>

fun Is :: "failure option \<Rightarrow> Code \<Rightarrow> bool" where
  "Is (Some (App e)) code \<longleftrightarrow> err_Code e = code"
| "Is _ code \<longleftrightarrow> False"

text \<open>\<open>writeErr\<close> of the HTTP layer: what status and code a failure becomes.\<close>

fun writeErr :: "failure \<Rightarrow> Error" where
  "writeErr (App e) = e"
| "writeErr _ = New 503 TemporarilyUnavailable"

lemma Error_sel [simp]:
  "err_Status (New s c) = s" "err_Code (New s c) = c" "err_Details (New s c) = None"
  "err_Status (WithDetails s c ds) = s" "err_Code (WithDetails s c ds) = c"
  "err_Details (WithDetails s c ds) = Some ds"
  by (simp_all add: New_def WithDetails_def)

lemma New_eq_iff [simp]: "New s c = New s' c' \<longleftrightarrow> s = s' \<and> c = c'"
  by (simp add: New_def)

lemma New_neq_WithDetails [simp]: "New s c \<noteq> WithDetails s' c' ds" "WithDetails s' c' ds \<noteq> New s c"
  by (simp_all add: New_def WithDetails_def)

end
