(* ===== verification/Base64.thy ===== *)
theory Base64
  imports GoStd
begin

text \<open>
  \<open>encoding/base64\<close> without padding, in the URL alphabet (tokens, envelopes) and the
  standard alphabet (password hashes), with Go's non-strict decoder: line breaks are skipped
  and unused trailing bits are ignored, so decoding alone is not injective.  The locales
  \<open>encoder\<close> and \<open>codec\<close> are the contracts the callers rely on: what an encoding promises, and
  what a decoder that accepts canonical strings only promises on top.
\<close>

section \<open>Contracts of an encoding\<close>

locale encoder =
  fixes enc :: "'a \<Rightarrow> string"
    and dec :: "string \<Rightarrow> 'a option"
    and good :: "'a \<Rightarrow> bool"
  assumes dec_enc: "good x \<Longrightarrow> dec (enc x) = Some x"
begin

lemma enc_inj: "good x \<Longrightarrow> good y \<Longrightarrow> enc x = enc y \<Longrightarrow> x = y"
  by (metis dec_enc option.inject)

end

locale codec = encoder enc dec good
  for enc :: "'a \<Rightarrow> string" and dec and good +
  assumes dec_canonical: "dec s = Some x \<Longrightarrow> good x \<and> enc x = s"
begin

lemma dec_iff: "dec s = Some x \<longleftrightarrow> good x \<and> s = enc x"
  using dec_enc dec_canonical by blast

lemma dec_unique: "dec s = Some x \<Longrightarrow> dec t = Some x \<Longrightarrow> s = t"
  by (auto simp: dec_iff)

lemma dec_None_iff: "dec s = None \<longleftrightarrow> (\<forall>x. good x \<longrightarrow> s \<noteq> enc x)"
  using dec_iff by (metis not_None_eq option.discI)

end

section \<open>Sextets\<close>

fun enc6 :: "nat list \<Rightarrow> nat list" where
  "enc6 [] = []"
| "enc6 [a] = [a div 4, (a mod 4) * 16]"
| "enc6 [a, b] = [a div 4, (a mod 4) * 16 + b div 16, (b mod 16) * 4]"
| "enc6 (a # b # c # r) =
     a div 4 # ((a mod 4) * 16 + b div 16) # ((b mod 16) * 4 + c div 64) # c mod 64 # enc6 r"

fun dec6 :: "nat list \<Rightarrow> nat list option" where
  "dec6 [] = Some []"
| "dec6 [x] = None"
| "dec6 [x, y] = Some [x * 4 + y div 16]"
| "dec6 [x, y, z] = Some [x * 4 + y div 16, (y mod 16) * 16 + z div 4]"
| "dec6 (x # y # z # w # r) =
     map_option (\<lambda>t. (x * 4 + y div 16) # ((y mod 16) * 16 + z div 4) # ((z mod 4) * 64 + w) # t)
       (dec6 r)"

lemma enc6_range: "\<forall>a\<in>set s. a < 256 \<Longrightarrow> x \<in> set (enc6 s) \<Longrightarrow> x < 64"
  by (induction s rule: enc6.induct) auto

lemma dec6_range: "\<forall>a\<in>set s. a < 64 \<Longrightarrow> dec6 s = Some t \<Longrightarrow> x \<in> set t \<Longrightarrow> x < 256"
proof (induction s arbitrary: t rule: dec6.induct)
  case (5 a b c d r)
  then show ?case by auto
qed auto

lemma dec6_enc6: "\<forall>a\<in>set s. a < 256 \<Longrightarrow> dec6 (enc6 s) = Some s"
proof (induction s rule: enc6.induct)
  case (4 a b c r)
  have "a div 4 * 4 + (a mod 4 * 16 + b div 16) div 16 = a"
    and "(a mod 4 * 16 + b div 16) mod 16 * 16 + (b mod 16 * 4 + c div 64) div 4 = b"
    and "(b mod 16 * 4 + c div 64) mod 4 * 64 + c mod 64 = c"
    using 4(2) by auto
  with 4 show ?case by simp
next
  case (3 a b)
  then have "a div 4 * 4 + (a mod 4 * 16 + b div 16) div 16 = a"
    and "(a mod 4 * 16 + b div 16) mod 16 * 16 + (b mod 16 * 4) div 4 = b"
    by auto
  then show ?case by simp
next
  case (2 a)
  have "a div 4 * 4 + a mod 4 = a" by simp
  then show ?case by simp
qed simp

lemma length_dec6: "dec6 s = Some t \<Longrightarrow> length t = length s * 3 div 4"
  by (induction s arbitrary: t rule: dec6.induct) auto

section \<open>Alphabets\<close>

text \<open>The first argument selects the URL alphabet (True) or the standard one (False).\<close>

definition b64_char :: "bool \<Rightarrow> nat \<Rightarrow> char" where
  "b64_char url n =
     (if n < 26 then chr (n + 65)
      else if n < 52 then chr (n + 71)
      else if n < 62 then chr (n - 4)
      else if n = 62 then (if url then CHR ''-'' else CHR ''+'')
      else (if url then CHR ''_'' else CHR ''/''))"

definition sextet :: "bool \<Rightarrow> char \<Rightarrow> nat option" where
  "sextet url c =
     (let k = ord c in
      if 65 \<le> k \<and> k \<le> 90 then Some (k - 65)
      else if 97 \<le> k \<and> k \<le> 122 then Some (k - 71)
      else if 48 \<le> k \<and> k \<le> 57 then Some (k + 4)
      else if c = (if url then CHR ''-'' else CHR ''+'') then Some 62
      else if c = (if url then CHR ''_'' else CHR ''/'') then Some 63
      else None)"

definition line_break :: "char \<Rightarrow> bool" where
  "line_break c \<longleftrightarrow> ord c = 10 \<or> ord c = 13"

lemma ord_literals [simp]:
  "ord CHR ''-'' = 45" "ord CHR ''+'' = 43" "ord CHR ''_'' = 95" "ord CHR ''/'' = 47"
  by (simp_all add: ord_def)

lemma ord_b64_char:
  "n < 64 \<Longrightarrow> ord (b64_char url n) =
     (if n < 26 then n + 65 else if n < 52 then n + 71 else if n < 62 then n - 4
      else if n = 62 then (if url then 45 else 43) else (if url then 95 else 47))"
  by (simp add: b64_char_def)

lemma sextet_b64_char [simp]:
  assumes "n < 64"
  shows "sextet url (b64_char url n) = Some n"
proof -
  consider "n < 26" | "26 \<le> n" "n < 52" | "52 \<le> n" "n < 62" | "n = 62" | "n = 63"
    using assms by linarith
  then show ?thesis
    by cases (auto simp: sextet_def Let_def ord_b64_char b64_char_def)
qed

lemma not_line_break_b64_char [simp]: "n < 64 \<Longrightarrow> \<not> line_break (b64_char url n)"
  by (auto simp: line_break_def ord_b64_char)

lemma sextet_Some_less: "sextet url c = Some n \<Longrightarrow> n < 64"
  by (auto simp: sextet_def Let_def split: if_splits)

definition b64_encode :: "bool \<Rightarrow> bytes \<Rightarrow> string" where
  "b64_encode url b = map (b64_char url) (enc6 (map unat b))"

definition b64_decode :: "bool \<Rightarrow> string \<Rightarrow> bytes option" where
  "b64_decode url s =
     (let t = filter (\<lambda>c. \<not> line_break c) s in
      if list_all (\<lambda>c. sextet url c \<noteq> None) t
      then map_option (map word_of_nat) (dec6 (map (\<lambda>c. the (sextet url c)) t))
      else None)"

lemma b64_encode_alphabet: "c \<in> set (b64_encode url b) \<Longrightarrow> \<exists>n<64. c = b64_char url n"
  using enc6_range [of "map unat b"] by (fastforce simp: b64_encode_def)

lemma b64_decode_encode: "b64_decode url (b64_encode url b) = Some b"
proof -
  let ?s = "enc6 (map unat b)"
  have r: "n < 64" if "n \<in> set ?s" for n
    using enc6_range [OF _ that] by fastforce
  have f: "filter (\<lambda>c. \<not> line_break c) (map (b64_char url) ?s) = map (b64_char url) ?s"
    using r by (fastforce simp: filter_id_conv)
  have l: "list_all (\<lambda>c. sextet url c \<noteq> None) (map (b64_char url) ?s)"
    using r by (auto simp: list_all_iff)
  have m: "map (\<lambda>c. the (sextet url c)) (map (b64_char url) ?s) = ?s"
    using r by (auto intro: map_idI)
  have "dec6 ?s = Some (map unat b)"
    by (rule dec6_enc6) auto
  moreover have "map word_of_nat (map unat b) = b"
    by (simp add: comp_def)
  ultimately show ?thesis using f l m
    by (simp add: b64_decode_def b64_encode_def Let_def comp_def del: map_map)
qed

lemma b64_encode_inj: "b64_encode url a = b64_encode url b \<longleftrightarrow> a = b"
  by (metis b64_decode_encode option.inject)

lemma enc6_eq_Nil [simp]: "enc6 s = [] \<longleftrightarrow> s = []"
  by (cases s rule: enc6.cases) simp_all

lemma length_enc6: "length (enc6 s) = (length s * 4 + 2) div 3"
  by (induction s rule: enc6.induct) auto

lemma length_b64_encode: "length (b64_encode url b) = (length b * 4 + 2) div 3"
  by (simp add: b64_encode_def length_enc6)

end
