(* ===== verification/Sha256.thy ===== *)
theory Sha256
  imports GoStd
begin

text \<open>
  \<open>crypto/sha256.Sum256\<close> (FIPS 180-4) on byte strings, and the big-endian encoders of
  \<open>encoding/binary\<close> it and the canonical request hashes share.  The server uses the digest as
  an opaque 32-byte key; the length is proved, and nothing here assumes anything about
  collisions.
\<close>

unbundle bit_operations_syntax

section \<open>Big-endian encoders\<close>

text \<open>\<open>PutUint32\<close> and \<open>PutUint64\<close> of a value that has been converted to the type.\<close>

definition be_word32 :: "32 word \<Rightarrow> bytes" where
  "be_word32 w = map (\<lambda>k. ucast (drop_bit k w)) [24, 16, 8, 0]"

definition be32 :: "nat \<Rightarrow> bytes" where
  "be32 n = be_word32 (word_of_nat n)"

definition be_word64 :: "64 word \<Rightarrow> bytes" where
  "be_word64 w = map (\<lambda>k. ucast (drop_bit k w)) [56, 48, 40, 32, 24, 16, 8, 0]"

definition be64 :: "nat \<Rightarrow> bytes" where
  "be64 n = be_word64 (word_of_nat n)"

lemma length_be [simp]: "length (be32 n) = 4" "length (be64 n) = 8"
  by (simp_all add: be32_def be64_def be_word32_def be_word64_def)

lemma be32_bytes:
  assumes "n < 2 ^ 32"
  shows "map unat (be32 n) = [n div 16777216 mod 256, n div 65536 mod 256, n div 256 mod 256, n mod 256]"
  using assms
  by (simp add: be32_def be_word32_def unsigned_ucast_eq unsigned_drop_bit_eq unat_of_nat
      take_bit_eq_mod drop_bit_eq_div unat_div_distrib)

lemma be32_inj: "m < 2 ^ 32 \<Longrightarrow> n < 2 ^ 32 \<Longrightarrow> be32 m = be32 n \<Longrightarrow> m = n"
proof -
  assume m: "m < 2 ^ 32" and n: "n < 2 ^ 32" and eq: "be32 m = be32 n"
  have d: "x = x div 16777216 mod 256 * 16777216 + x div 65536 mod 256 * 65536
      + x div 256 mod 256 * 256 + x mod 256" if "x < 4294967296" for x :: nat
  proof -
    define y z w where "y = x div 256" and "z = y div 256" and "w = z div 256"
    have q: "x div 65536 = z" "x div 16777216 = w" "x div 256 = y"
      by (simp_all add: y_def z_def w_def div_mult2_eq [symmetric])
    have "w < 256"
      using that by (simp add: q(2) [symmetric])
    moreover have "x = 256 * y + x mod 256" "y = 256 * z + y mod 256" "z = 256 * w + z mod 256"
      by (simp_all add: y_def z_def w_def)
    ultimately show ?thesis
      unfolding q by simp
  qed
  from eq m n have "m div 16777216 mod 256 = n div 16777216 mod 256"
    "m div 65536 mod 256 = n div 65536 mod 256" "m div 256 mod 256 = n div 256 mod 256"
    "m mod 256 = n mod 256"
    using be32_bytes [OF m] be32_bytes [OF n] by simp_all
  with d [of m] d [of n] m n show "m = n" by simp
qed

section \<open>The compression function\<close>

type_synonym word32 = "32 word"

text \<open>The constants of the standard, as unsigned 32-bit numbers in decimal.\<close>

definition sha_k :: "word32 list" where
  "sha_k =
    [1116352408, 1899447441, 3049323471, 3921009573, 961987163, 1508970993, 2453635748,
     2870763221, 3624381080, 310598401, 607225278, 1426881987, 1925078388, 2162078206,
     2614888103, 3248222580, 3835390401, 4022224774, 264347078, 604807628, 770255983,
     1249150122, 1555081692, 1996064986, 2554220882, 2821834349, 2952996808, 3210313671,
     3336571891, 3584528711, 113926993, 338241895, 666307205, 773529912, 1294757372,
     1396182291, 1695183700, 1986661051, 2177026350, 2456956037, 2730485921, 2820302411,
     3259730800, 3345764771, 3516065817, 3600352804, 4094571909, 275423344, 430227734,
     506948616, 659060556, 883997877, 958139571, 1322822218, 1537002063, 1747873779,
     1955562222, 2024104815, 2227730452, 2361852424, 2428436474, 2756734187, 3204031479,
     3329325298]"

definition sha_h0 :: "word32 list" where
  "sha_h0 =
    [1779033703, 3144134277, 1013904242, 2773480762, 1359893119, 2600822924, 528734635,
     1541459225]"

definition ror :: "nat \<Rightarrow> word32 \<Rightarrow> word32" where
  "ror n x = drop_bit n x OR push_bit (32 - n) x"

definition sha_pad :: "bytes \<Rightarrow> bytes" where
  "sha_pad m = m @ [0x80] @ replicate ((119 - length m mod 64) mod 64) 0 @ be64 (8 * length m)"

definition word_be :: "bytes \<Rightarrow> word32" where
  "word_be b = foldl (\<lambda>n w. push_bit 8 n OR ucast w) 0 b"

fun chunks :: "nat \<Rightarrow> nat \<Rightarrow> 'a list \<Rightarrow> 'a list list" where
  "chunks n 0 xs = []"
| "chunks n (Suc k) xs = take n xs # chunks n k (drop n xs)"

text \<open>The message schedule, kept in reverse: the latest word first.\<close>

fun schedule :: "nat \<Rightarrow> word32 list \<Rightarrow> word32 list" where
  "schedule 0 w = w"
| "schedule (Suc n) w =
     (let w2 = w ! 1; w7 = w ! 6; w15 = w ! 14; w16 = w ! 15;
          s0 = ror 7 w15 XOR ror 18 w15 XOR drop_bit 3 w15;
          s1 = ror 17 w2 XOR ror 19 w2 XOR drop_bit 10 w2
      in schedule n ((w16 + s0 + w7 + s1) # w))"

fun sha_round :: "word32 list \<Rightarrow> word32 \<times> word32 \<Rightarrow> word32 list" where
  "sha_round [a, b, c, d, e, f, g, h] (k, w) =
     (let s1 = ror 6 e XOR ror 11 e XOR ror 25 e;
          ch = (e AND f) XOR (NOT e AND g);
          t1 = h + s1 + ch + k + w;
          s0 = ror 2 a XOR ror 13 a XOR ror 22 a;
          maj = (a AND b) XOR (a AND c) XOR (b AND c);
          t2 = s0 + maj
      in [t1 + t2, a, b, c, d + t1, e, f, g])"
| "sha_round s _ = s"

definition sha_block :: "word32 list \<Rightarrow> bytes \<Rightarrow> word32 list" where
  "sha_block h b =
     (let w = rev (schedule 48 (rev (map word_be (chunks 4 16 b))));
          s = foldl sha_round h (zip sha_k w)
      in map2 (+) h s)"

definition sha256 :: "bytes \<Rightarrow> bytes" where
  "sha256 m =
     (let p = sha_pad m; h = foldl sha_block sha_h0 (chunks 64 (length p div 64) p)
      in concat (map be_word32 h))"

lemma length_sha_round [simp]: "length (sha_round s kw) = length s"
  by (induction s kw rule: sha_round.induct) (auto simp: Let_def)

lemma length_fold_round [simp]: "length (foldl sha_round s kws) = length s"
  by (induction kws arbitrary: s) simp_all

lemma length_sha_block [simp]: "length (sha_block h b) = length h"
  by (simp add: sha_block_def Let_def)

lemma length_fold_block [simp]: "length (foldl sha_block h bs) = length h"
  by (induction bs arbitrary: h) simp_all

lemma length_concat_be: "length (concat (map be_word32 xs)) = 4 * length xs"
  by (induction xs) (simp_all add: be_word32_def)

lemma length_sha256 [simp]: "length (sha256 m) = 32"
  by (simp add: sha256_def Let_def length_concat_be sha_h0_def)

end
