(* ===== verification/Canon.thy ===== *)
theory Canon
  imports Base64 Sha256
begin

text \<open>
  Package \<open>canon\<close> (server/internal/canon/canon.go): the canonical forms of identifiers,
  tokens, sequence numbers and preconditions, and the request hashes built from them.  A
  validator that returns a Go error is a predicate (True for nil); one that returns a value
  and an error is an option.  The codec contract of theory Base64 is interpreted for the
  binary fields and the sequence numbers.
\<close>

section \<open>Regular expressions\<close>

definition lower_hex :: "char \<Rightarrow> bool" where
  "lower_hex c \<longleftrightarrow> is_digit c \<or> 97 \<le> ord c \<and> ord c \<le> 102"

definition lower_alpha :: "char \<Rightarrow> bool" where
  "lower_alpha c \<longleftrightarrow> 97 \<le> ord c \<and> ord c \<le> 122"

definition uuidRE :: "string \<Rightarrow> bool" where
  "uuidRE s \<longleftrightarrow> length s = 36 \<and>
     list_all (\<lambda>i. if i \<in> {8, 13, 18, 23} then s ! i = CHR ''-'' else lower_hex (s ! i)) [0..<36]"

definition user_char :: "char \<Rightarrow> bool" where
  "user_char c \<longleftrightarrow> lower_alpha c \<or> is_digit c \<or> c = CHR ''_''"

definition usernameRE :: "string \<Rightarrow> bool" where
  "usernameRE s \<longleftrightarrow> 3 \<le> length s \<and> length s \<le> 32 \<and> list_all user_char s"

definition local_char :: "char \<Rightarrow> bool" where
  "local_char c \<longleftrightarrow> lower_alpha c \<or> is_digit c \<or> c \<in> set ''._%+-''"

definition domain_char :: "char \<Rightarrow> bool" where
  "domain_char c \<longleftrightarrow> lower_alpha c \<or> is_digit c \<or> c \<in> set ''.-''"

text \<open>The local part ends at the first at-sign, the top-level domain starts at the last dot.\<close>

definition emailRE :: "string \<Rightarrow> bool" where
  "emailRE s \<longleftrightarrow>
     (let l = takeWhile (\<lambda>c. c \<noteq> CHR ''@'') s; r = drop (Suc (length l)) s;
          tld = rev (takeWhile (\<lambda>c. c \<noteq> CHR ''.'') (rev r));
          d = take (length r - length tld - 1) r
      in l \<noteq> [] \<and> list_all local_char l \<and> length l < length s
         \<and> d \<noteq> [] \<and> list_all domain_char d \<and> length tld < length r
         \<and> 2 \<le> length tld \<and> list_all lower_alpha tld)"

definition seqRE :: "string \<Rightarrow> bool" where
  "seqRE s \<longleftrightarrow> s = ''0'' \<or> (s \<noteq> [] \<and> hd s \<noteq> CHR ''0'' \<and> list_all is_digit s)"

definition b64urlRE :: "string \<Rightarrow> bool" where
  "b64urlRE s \<longleftrightarrow> s \<noteq> [] \<and> list_all (\<lambda>c. sextet True c \<noteq> None) s"

section \<open>Binary fields and tokens\<close>

definition TokenBytes :: nat where
  "TokenBytes = 32"

definition Encode :: "bytes \<Rightarrow> string" where
  "Encode raw = b64_encode True raw"

definition Decode :: "string \<Rightarrow> int \<Rightarrow> bytes option" where
  "Decode value expectedLen =
     (if \<not> b64urlRE value then None
      else case b64_decode True value of
        None \<Rightarrow> None
      | Some raw \<Rightarrow>
          if Encode raw \<noteq> value then None
          else if 0 \<le> expectedLen \<and> int (length raw) \<noteq> expectedLen then None
          else Some raw)"

definition HashToken :: "string \<Rightarrow> bytes" where
  "HashToken plain = sha256 (bytes_of plain)"

text \<open>The argument is what \<open>rand.Read\<close> wrote into the buffer of \<open>TokenBytes\<close> bytes.\<close>

definition RandomToken :: "bytes \<Rightarrow> string \<times> bytes" where
  "RandomToken raw = (let plain = Encode raw in (plain, sha256 (bytes_of plain)))"

definition Token :: "string \<Rightarrow> bool" where
  "Token value \<longleftrightarrow> length value = 43 \<and> Decode value (int TokenBytes) \<noteq> None"

section \<open>Identifiers, credentials, preconditions\<close>

definition UUID :: "string \<Rightarrow> bool" where
  "UUID value \<longleftrightarrow> uuidRE value"

definition Username :: "string \<Rightarrow> bool" where
  "Username value \<longleftrightarrow> usernameRE value"

definition Email :: "(nat \<Rightarrow> nat) \<Rightarrow> string \<Rightarrow> string option" where
  "Email tbl value =
     (let v = ToLower tbl (TrimSpace value) in
      if \<not> ValidString v \<or> length v < 5 \<or> length v > 190 \<or> \<not> emailRE v then None else Some v)"

definition LoginIdentifier :: "string \<Rightarrow> bool" where
  "LoginIdentifier value \<longleftrightarrow>
     (let v = TrimSpace value in
      \<not> (\<not> ValidString v \<or> v = [] \<or> RuneCountInString v > 190 \<or> length v > 190))"

definition Password :: "string \<Rightarrow> bool" where
  "Password value \<longleftrightarrow>
     ValidString value \<and>
     (let n = RuneCountInString value in \<not> (n < 12 \<or> n > 128 \<or> length value > 512))"

definition LoginSecret :: "string \<Rightarrow> bool" where
  "LoginSecret value \<longleftrightarrow>
     ValidString value \<and>
     (let n = RuneCountInString value in \<not> (n < 1 \<or> n > 128 \<or> length value > 512))"

definition EmailCode :: "string \<Rightarrow> bool" where
  "EmailCode value \<longleftrightarrow> length value = 6 \<and> list_all is_digit value"

definition Seq :: "string \<Rightarrow> int option" where
  "Seq value = (if \<not> seqRE value then None else ParseInt value)"

definition FormatSeq :: "int \<Rightarrow> string" where
  "FormatSeq n = FormatInt n"

definition ParseIfMatch :: "string \<Rightarrow> int option" where
  "ParseIfMatch value =
     (if length value < 3 \<or> value ! 0 \<noteq> CHR 0x22 \<or> value ! (length value - 1) \<noteq> CHR 0x22 then None
      else let inner = take (length value - 2) (drop 1 value) in
        if HasPrefix inner ''0'' \<or> inner = [] then None
        else case Atoi inner of None \<Rightarrow> None | Some n \<Rightarrow> if n < 1 then None else Some n)"

definition DeviceName :: "string \<Rightarrow> bool" where
  "DeviceName value \<longleftrightarrow>
     (let n = RuneCountInString value in \<not> (n < 1 \<or> n > 64 \<or> \<not> ValidString value))"

definition Platform :: "string \<Rightarrow> bool" where
  "Platform value \<longleftrightarrow> \<not> (value \<noteq> ''windows'' \<and> value \<noteq> ''android'')"

section \<open>Request hashes\<close>

definition AppendLenPrefixed :: "bytes \<Rightarrow> bytes \<Rightarrow> bytes" where
  "AppendLenPrefixed dst field = (dst @ be32 (length field)) @ field"

definition hash_input :: "bytes list \<Rightarrow> bytes" where
  "hash_input fields = foldl AppendLenPrefixed [] fields"

definition HashFields :: "bytes list \<Rightarrow> bytes" where
  "HashFields fields = sha256 (hash_input fields)"

definition CreateRequestHash ::
  "string \<Rightarrow> string \<Rightarrow> string \<Rightarrow> int \<Rightarrow> int \<Rightarrow> string \<Rightarrow> bytes \<Rightarrow> bytes \<Rightarrow> string \<Rightarrow> bytes" where
  "CreateRequestHash clipID vaultID sourceDeviceID formatVersion keyEpoch contentType nonce ciphertext
     deliveryIntent =
   HashFields
     [bytes_of clipID, bytes_of vaultID, bytes_of sourceDeviceID, bytes_of (FormatInt formatVersion),
      bytes_of (FormatInt keyEpoch), bytes_of contentType, nonce, ciphertext,
      bytes_of deliveryIntent]"

definition OperationRequestHash :: "string \<Rightarrow> string \<Rightarrow> int \<Rightarrow> bytes" where
  "OperationRequestHash kind clipID expectedVersion =
     HashFields [bytes_of kind, bytes_of clipID, bytes_of (FormatInt expectedVersion)]"

definition EmailCodeHash :: "string \<Rightarrow> string \<Rightarrow> string \<Rightarrow> bytes" where
  "EmailCodeHash email purpose code =
     sha256 (bytes_of (purpose @ ''|'' @ email @ ''|'' @ code))"

section \<open>The codecs\<close>

lemma b64urlRE_Encode: "b64urlRE (Encode b) \<longleftrightarrow> b \<noteq> []"
proof -
  have "list_all (\<lambda>c. sextet True c \<noteq> None) (Encode b)"
    using b64_encode_alphabet [of _ True b] by (force simp: list_all_iff Encode_def)
  moreover have "Encode b = [] \<longleftrightarrow> b = []"
    by (simp add: Encode_def b64_encode_def)
  ultimately show ?thesis by (simp add: b64urlRE_def)
qed

lemma Decode_Encode:
  "b \<noteq> [] \<Longrightarrow> n < 0 \<or> n = int (length b) \<Longrightarrow> Decode (Encode b) n = Some b"
  using b64_decode_encode [of True b, folded Encode_def] by (auto simp: Decode_def b64urlRE_Encode)

lemma Decode_canonical:
  "Decode s n = Some b \<Longrightarrow> Encode b = s \<and> b \<noteq> [] \<and> (n < 0 \<or> int (length b) = n)"
  by (auto simp: Decode_def b64urlRE_Encode split: if_splits option.splits)

text \<open>A binary field whose length the caller does not fix (expectedLen = -1).\<close>

interpretation b64_any: codec Encode "\<lambda>s. Decode s (- 1)" "\<lambda>b. b \<noteq> []"
  by unfold_locales (auto simp: Decode_Encode dest: Decode_canonical)

text \<open>A 32-byte token, and a field of the length the caller asks for.\<close>

definition sized :: "nat \<Rightarrow> bytes \<Rightarrow> bool" where
  "sized n b \<longleftrightarrow> b \<noteq> [] \<and> length b = n"

lemma Decode_sized_iff: "Decode s (int n) = Some b \<longleftrightarrow> sized n b \<and> s = Encode b"
  using Decode_Encode [of b "int n"] Decode_canonical [of s "int n" b] by (auto simp: sized_def)

interpretation b64_token: codec Encode "\<lambda>s. Decode s (int TokenBytes)" "sized TokenBytes"
  by unfold_locales (auto simp: Decode_sized_iff)

lemma digit_zero_iff: "k < 10 \<Longrightarrow> digit k = CHR ''0'' \<longleftrightarrow> k = 0"
  using ord_eq_iff [of "digit k" "CHR ''0''"] by (simp add: digit_def) (simp add: ord_def)

lemma show_nat_zero: "show_nat 0 = ''0''"
  using digit_zero_iff [of 0] by (subst show_nat.simps) simp

lemma dec_val_zero: "dec_val ''0'' = 0 \<and> is_digit CHR ''0''"
  by (simp add: dec_val_def digit_val_def is_digit_def ord_def)

lemma seqRE_show_nat: "seqRE (show_nat n)"
proof -
  have "hd (show_nat n) \<noteq> CHR ''0'' \<or> n = 0"
  proof (induction n rule: show_nat.induct)
    case (1 n)
    note z = digit_zero_iff
    show ?case
    proof (cases "n < 10")
      case True
      with z show ?thesis by (subst show_nat.simps) auto
    next
      case False
      then have "n div 10 \<noteq> 0" by simp
      with 1 False show ?thesis by (subst show_nat.simps) simp
    qed
  qed
  with show_nat_zero show ?thesis
    using show_nat_digits [of n] by (auto simp: seqRE_def)
qed

lemma show_nat_dec_val:
  "s \<noteq> [] \<Longrightarrow> hd s \<noteq> CHR ''0'' \<Longrightarrow> list_all is_digit s \<Longrightarrow> show_nat (dec_val s) = s \<and> 0 < dec_val s"
proof (induction s rule: rev_induct)
  case (snoc c s)
  show ?case
  proof (cases "s = []")
    case True
    with snoc.prems have c: "is_digit c" and "c \<noteq> CHR ''0''" by simp_all
    then have "digit_val c \<noteq> 0"
      using digit_zero_iff [of "digit_val c"] by simp
    with True c show ?thesis by (simp add: show_nat.simps dec_val_def)
  next
    case False
    with snoc have "show_nat (dec_val s) = s" "0 < dec_val s" "is_digit c" by simp_all
    then show ?thesis by (subst show_nat.simps) simp
  qed
qed simp

lemma Seq_Some_iff: "Seq s = Some n \<longleftrightarrow> (0 \<le> n \<and> n < 2 ^ 63) \<and> FormatSeq n = s"
proof
  assume s: "Seq s = Some n"
  then have re: "seqRE s" and p: "ParseInt s = Some n"
    by (auto simp: Seq_def split: if_splits)
  have "show_nat (dec_val s) = s \<and> list_all is_digit s \<and> s \<noteq> []"
    using re show_nat_dec_val [of s] show_nat_zero by (auto simp: seqRE_def dec_val_zero)
  moreover from this p have "n = int (dec_val s) \<and> n < 2 ^ 63"
    by (cases s) (auto simp: ParseInt_def in_int8_def Let_def dest: is_digit_not_sign split: if_splits)
  ultimately show "(0 \<le> n \<and> n < 2 ^ 63) \<and> FormatSeq n = s"
    by (simp add: FormatSeq_def FormatInt_def)
next
  assume a: "(0 \<le> n \<and> n < 2 ^ 63) \<and> FormatSeq n = s"
  then have "s = show_nat (nat n)" by (auto simp: FormatSeq_def FormatInt_def)
  with a show "Seq s = Some n"
    using seqRE_show_nat [of "nat n"] ParseInt_FormatInt [of n]
    by (simp add: Seq_def FormatSeq_def in_int8_def)
qed

interpretation seq: codec FormatSeq Seq "\<lambda>n. 0 \<le> n \<and> n < 2 ^ 63"
  by unfold_locales (auto simp: Seq_Some_iff)

section \<open>The hash input determines the fields\<close>

definition fits :: "bytes list \<Rightarrow> bool" where
  "fits fields \<longleftrightarrow> (\<forall>f\<in>set fields. length f < 2 ^ 32)"

lemma hash_input_append: "foldl AppendLenPrefixed b fs = b @ foldl AppendLenPrefixed [] fs"
proof (induction fs arbitrary: b)
  case (Cons f fs)
  show ?case
    unfolding foldl_Cons Cons [of "AppendLenPrefixed b f"] Cons [of "AppendLenPrefixed [] f"]
    by (simp add: AppendLenPrefixed_def)
qed simp

lemma hash_input_simps [simp]:
  "hash_input [] = []"
  "hash_input (f # fs) = be32 (length f) @ f @ hash_input fs"
  using hash_input_append [of "AppendLenPrefixed [] f" fs]
  by (simp_all only: hash_input_def foldl_Nil foldl_Cons)
    (simp add: AppendLenPrefixed_def)

lemma hash_input_inj: "fits fs \<Longrightarrow> fits gs \<Longrightarrow> hash_input fs = hash_input gs \<Longrightarrow> fs = gs"
proof (induction fs arbitrary: gs)
  case Nil
  then show ?case by (cases gs) (simp_all add: be32_def be_word32_def)
next
  case (Cons f fs)
  then obtain g gs' where gs: "gs = g # gs'"
    by (cases gs) (simp_all add: be32_def be_word32_def)
  with Cons.prems have eq: "be32 (length f) @ f @ hash_input fs = be32 (length g) @ g @ hash_input gs'"
    by simp
  then have "be32 (length f) = be32 (length g)" and r: "f @ hash_input fs = g @ hash_input gs'"
    by (simp_all add: append_eq_append_conv)
  then have "length f = length g"
    using Cons.prems gs by (auto simp: fits_def intro: be32_inj)
  with r have "f = g" and "hash_input fs = hash_input gs'"
    by simp_all
  with Cons gs show ?case by (simp add: fits_def)
qed

end
