(* ===== verification/Schema.thy ===== *)
theory Schema
  imports Apperr Canon
begin

text \<open>
  The database the server works on (server/migrations/000001_initial.sql and
  000002_auth_vault_v2.sql) and the records of server/internal/store/models.go.  Each table
  is a finite map from its primary key to a row; each SQL statement of the store is a
  function that enforces the table's constraints: CHECK, primary key and unique indexes,
  foreign keys, in the order PostgreSQL reports them, and the range of the integer columns.
  A statement that violates one is an error of the statement, and its transaction is rolled
  back.
\<close>

section \<open>Rows\<close>

record user_row =
  u_username :: string
  u_password_hash :: string
  u_status :: string
  u_created_at :: time
  u_email :: "string option"
  u_email_verified_at :: "time option"
  u_auth_provider :: string
  u_external_subject :: "string option"

record device_row =
  d_name :: string
  d_platform :: string
  d_created_at :: time
  d_last_seen_at :: "time option"
  d_revoked_at :: "time option"

record session_row =
  s_user_id :: uuid
  s_device_id :: uuid
  s_family_id :: uuid
  s_access_hash :: bytes
  s_refresh_hash :: bytes
  s_expires_at :: time
  s_refresh_expires_at :: time
  s_revoked_at :: "time option"

record used_refresh_row =
  t_family_id :: uuid
  t_expires_at :: time

record invite_row =
  i_expires_at :: time
  i_consumed_at :: "time option"

record PasswordWrapRaw =
  pw_KDF :: string
  pw_Time :: int
  pw_Memory :: int
  pw_Parallelism :: int
  pw_KDFSalt :: bytes
  pw_WrapSalt :: bytes
  pw_WrapNonce :: bytes
  pw_WrappedKey :: bytes

text \<open>The eight nullable password columns are all null or all set (a CHECK of the schema).\<close>

record vault_row =
  v_id :: uuid
  v_format_version :: int
  v_key_epoch :: int
  v_wrap_salt :: bytes
  v_wrap_nonce :: bytes
  v_wrapped_key :: bytes
  v_password :: "PasswordWrapRaw option"

record sync_row =
  next_seq :: int
  min_available_seq :: int
  ciphertext_bytes :: int
  item_count :: int

record clip_id_row =
  ci_request_hash :: bytes
  ci_created_seq :: int
  ci_created_at :: time
  ci_final_version :: "int option"
  ci_final_seq :: "int option"
  ci_purged_at :: "time option"

record clip_row =
  c_source_device_id :: uuid
  c_vault_id :: uuid
  c_key_epoch :: int
  c_format_version :: int
  c_content_type :: string
  c_nonce :: bytes
  c_ciphertext :: bytes
  c_delivery_intent :: string
  c_status :: string
  c_version :: int
  c_created_seq :: int
  c_last_seq :: int
  c_created_at :: time
  c_deleted_at :: "time option"
  c_expires_at :: "time option"

record event_row =
  e_clip_id :: uuid
  e_kind :: string
  e_version :: int
  e_occurred_at :: time

record MutationReceipt =
  mr_ID :: string
  mr_Status :: string
  mr_Version :: int
  mr_Seq :: string
  mr_CreatedAt :: "time option"
  mr_DeletedAt :: "time option"
  mr_ExpiresAt :: "time option"

text \<open>\<open>response_body\<close> holds the JSON of a receipt; the model keeps the receipt itself.\<close>

record receipt_row =
  r_request_hash :: bytes
  r_response_status :: int
  r_response_body :: MutationReceipt
  r_expires_at :: time

record snapshot_row =
  n_user_id :: uuid
  n_device_id :: uuid
  n_base_seq :: int
  n_sync_epoch :: uuid
  n_expires_at :: time

record server_row =
  server_id :: uuid
  sync_epoch :: uuid

record email_code_row =
  ec_purpose :: string
  ec_code_hash :: bytes
  ec_attempts :: int
  ec_sent_at :: time
  ec_expires_at :: time

record DB =
  users :: "(uuid, user_row) table"
  devices :: "(uuid \<times> uuid, device_row) table"
  sessions :: "(uuid, session_row) table"
  used_refresh_tokens :: "(bytes, used_refresh_row) table"
  registration_invites :: "(bytes, invite_row) table"
  vaults :: "(uuid, vault_row) table"
  user_sync_state :: "(uuid, sync_row) table"
  clip_ids :: "(uuid \<times> uuid, clip_id_row) table"
  clips :: "(uuid \<times> uuid, clip_row) table"
  sync_events :: "(uuid \<times> int, event_row) table"
  operation_receipts :: "(uuid \<times> uuid, receipt_row) table"
  snapshot_sessions :: "(bytes, snapshot_row) table"
  server_state :: "server_row option"
  email_codes :: "(string, email_code_row) table"

definition empty_db :: DB where
  "empty_db =
     \<lparr>users = fmempty, devices = fmempty, sessions = fmempty, used_refresh_tokens = fmempty,
      registration_invites = fmempty, vaults = fmempty, user_sync_state = fmempty,
      clip_ids = fmempty, clips = fmempty, sync_events = fmempty, operation_receipts = fmempty,
      snapshot_sessions = fmempty, server_state = None, email_codes = fmempty\<rparr>"

section \<open>Statements on user\_sync\_state\<close>

definition sync_in_range :: "sync_row \<Rightarrow> bool" where
  "sync_in_range r \<longleftrightarrow> in_int8 (next_seq r) \<and> in_int8 (min_available_seq r)
     \<and> in_int8 (ciphertext_bytes r) \<and> in_int4 (item_count r) \<and> in_int8 (next_seq r + 1)"

definition check_sync :: "sync_row \<Rightarrow> bool" where
  "check_sync r \<longleftrightarrow> 0 \<le> next_seq r \<and> 1 \<le> min_available_seq r \<and> 0 \<le> ciphertext_bytes r
     \<and> 0 \<le> item_count r \<and> min_available_seq r \<le> next_seq r + 1"

text \<open>\<open>UPDATE user_sync_state SET ... WHERE user_id=$1 RETURNING next_seq\<close>, scanned.\<close>

definition update_sync :: "uuid \<Rightarrow> (sync_row \<Rightarrow> sync_row) \<Rightarrow> DB \<Rightarrow> failure + (int \<times> DB)" where
  "update_sync u f db =
     (case fmlookup (user_sync_state db) u of
        None \<Rightarrow> Inl (Db NoRows)
      | Some r \<Rightarrow>
          let r' = f r in
          if \<not> sync_in_range r' then Inl (Db OutOfRange)
          else if \<not> check_sync r' then Inl (Db CheckViolation)
          else Inr (next_seq r', db\<lparr>user_sync_state := fmupd u r' (user_sync_state db)\<rparr>))"

section \<open>Statements on clip\_ids, clips and sync\_events\<close>

definition check_clip_id :: "clip_id_row \<Rightarrow> bool" where
  "check_clip_id r \<longleftrightarrow> length (ci_request_hash r) = 32 \<and> 0 < ci_created_seq r
     \<and> (\<forall>v. ci_final_version r = Some v \<longrightarrow> 0 < v) \<and> (\<forall>q. ci_final_seq r = Some q \<longrightarrow> 0 < q)
     \<and> ((ci_purged_at r = None \<and> ci_final_version r = None \<and> ci_final_seq r = None)
        \<or> (ci_purged_at r \<noteq> None \<and> ci_final_version r \<noteq> None \<and> ci_final_seq r \<noteq> None))"

definition insert_clip_id :: "uuid \<Rightarrow> uuid \<Rightarrow> clip_id_row \<Rightarrow> DB \<Rightarrow> failure + DB" where
  "insert_clip_id u c r db =
     (if \<not> in_int8 (ci_created_seq r) then Inl (Db OutOfRange)
      else if \<not> check_clip_id r then Inl (Db CheckViolation)
      else if has_row (clip_ids db) (u, c) then Inl (Db UniqueViolation)
      else if \<not> has_row (users db) u then Inl (Db ForeignKeyViolation)
      else Inr (db\<lparr>clip_ids := fmupd (u, c) r (clip_ids db)\<rparr>))"

text \<open>\<open>UPDATE clip_ids SET ... WHERE user_id=$1 AND id=$2\<close>; no row is no error.\<close>

definition update_clip_id :: "uuid \<Rightarrow> uuid \<Rightarrow> (clip_id_row \<Rightarrow> clip_id_row) \<Rightarrow> DB \<Rightarrow> failure + DB" where
  "update_clip_id u c f db =
     (case fmlookup (clip_ids db) (u, c) of
        None \<Rightarrow> Inr db
      | Some r \<Rightarrow>
          let r' = f r in
          if \<not> (\<forall>v. ci_final_version r' = Some v \<longrightarrow> in_int4 v)
             \<or> \<not> (\<forall>q. ci_final_seq r' = Some q \<longrightarrow> in_int8 q) then Inl (Db OutOfRange)
          else if \<not> check_clip_id r' then Inl (Db CheckViolation)
          else Inr (db\<lparr>clip_ids := fmupd (u, c) r' (clip_ids db)\<rparr>))"

definition check_clip :: "clip_row \<Rightarrow> bool" where
  "check_clip r \<longleftrightarrow> c_key_epoch r = 1 \<and> c_format_version r = 1 \<and> c_content_type r = ''text/plain''
     \<and> length (c_nonce r) = 12 \<and> 17 \<le> length (c_ciphertext r) \<and> length (c_ciphertext r) \<le> 65552
     \<and> c_delivery_intent r \<in> {''live'', ''history_only''} \<and> c_status r \<in> {''active'', ''trash''}
     \<and> 0 < c_version r \<and> 0 < c_created_seq r \<and> c_created_seq r \<le> c_last_seq r
     \<and> ((c_status r = ''active'' \<and> c_deleted_at r = None \<and> c_expires_at r = None)
        \<or> (c_status r = ''trash'' \<and> c_deleted_at r \<noteq> None \<and> c_expires_at r \<noteq> None
           \<and> the (c_expires_at r) = the (c_deleted_at r) + hours 168))"

definition clip_in_range :: "clip_row \<Rightarrow> bool" where
  "clip_in_range r \<longleftrightarrow> in_int4 (c_version r) \<and> in_int8 (c_created_seq r) \<and> in_int8 (c_last_seq r)"

definition clip_fk :: "uuid \<Rightarrow> uuid \<Rightarrow> clip_row \<Rightarrow> DB \<Rightarrow> bool" where
  "clip_fk u c r db \<longleftrightarrow> has_row (clip_ids db) (u, c) \<and> has_row (devices db) (u, c_source_device_id r)
     \<and> (case fmlookup (vaults db) u of
          None \<Rightarrow> False
        | Some v \<Rightarrow> v_id v = c_vault_id r \<and> v_key_epoch v = c_key_epoch r)"

definition insert_clip :: "uuid \<Rightarrow> uuid \<Rightarrow> clip_row \<Rightarrow> DB \<Rightarrow> failure + DB" where
  "insert_clip u c r db =
     (if \<not> clip_in_range r then Inl (Db OutOfRange)
      else if \<not> check_clip r then Inl (Db CheckViolation)
      else if has_row (clips db) (u, c) then Inl (Db UniqueViolation)
      else if \<not> clip_fk u c r db then Inl (Db ForeignKeyViolation)
      else Inr (db\<lparr>clips := fmupd (u, c) r (clips db)\<rparr>))"

text \<open>\<open>UPDATE clips SET ... WHERE user_id=$1 AND id=$2\<close>, without and with RETURNING.\<close>

definition update_clip :: "uuid \<Rightarrow> uuid \<Rightarrow> (clip_row \<Rightarrow> clip_row) \<Rightarrow> DB \<Rightarrow> failure + DB" where
  "update_clip u c f db =
     (case fmlookup (clips db) (u, c) of
        None \<Rightarrow> Inr db
      | Some r \<Rightarrow>
          let r' = f r in
          if \<not> clip_in_range r' then Inl (Db OutOfRange)
          else if \<not> check_clip r' then Inl (Db CheckViolation)
          else Inr (db\<lparr>clips := fmupd (u, c) r' (clips db)\<rparr>))"

definition update_clip_returning ::
  "uuid \<Rightarrow> uuid \<Rightarrow> (clip_row \<Rightarrow> clip_row) \<Rightarrow> DB \<Rightarrow> failure + (clip_row \<times> DB)" where
  "update_clip_returning u c f db =
     (case fmlookup (clips db) (u, c) of
        None \<Rightarrow> Inl (Db NoRows)
      | Some r \<Rightarrow> bind_res (update_clip u c f db) (\<lambda>db. Inr (f r, db)))"

definition delete_clip :: "uuid \<Rightarrow> uuid \<Rightarrow> DB \<Rightarrow> DB" where
  "delete_clip u c db = db\<lparr>clips := fmdrop (u, c) (clips db)\<rparr>"

definition check_event :: "int \<Rightarrow> event_row \<Rightarrow> bool" where
  "check_event seq r \<longleftrightarrow> 0 < seq \<and> 0 < e_version r
     \<and> e_kind r \<in> {''clip.created'', ''clip.trashed'', ''clip.restored'', ''clip.purged''}"

definition insert_event :: "uuid \<Rightarrow> int \<Rightarrow> event_row \<Rightarrow> DB \<Rightarrow> failure + DB" where
  "insert_event u seq r db =
     (if \<not> in_int8 seq \<or> \<not> in_int4 (e_version r) then Inl (Db OutOfRange)
      else if \<not> check_event seq r then Inl (Db CheckViolation)
      else if has_row (sync_events db) (u, seq) then Inl (Db UniqueViolation)
      else if \<not> has_row (users db) u \<or> \<not> has_row (clip_ids db) (u, e_clip_id r)
      then Inl (Db ForeignKeyViolation)
      else Inr (db\<lparr>sync_events := fmupd (u, seq) r (sync_events db)\<rparr>))"

section \<open>Statements on operation\_receipts and snapshot\_sessions\<close>

definition check_receipt :: "receipt_row \<Rightarrow> bool" where
  "check_receipt r \<longleftrightarrow> length (r_request_hash r) = 32
     \<and> 200 \<le> r_response_status r \<and> r_response_status r \<le> 599"

definition insert_receipt :: "uuid \<Rightarrow> uuid \<Rightarrow> receipt_row \<Rightarrow> DB \<Rightarrow> failure + DB" where
  "insert_receipt u op r db =
     (if \<not> check_receipt r then Inl (Db CheckViolation)
      else if has_row (operation_receipts db) (u, op) then Inl (Db UniqueViolation)
      else if \<not> has_row (users db) u then Inl (Db ForeignKeyViolation)
      else Inr (db\<lparr>operation_receipts := fmupd (u, op) r (operation_receipts db)\<rparr>))"

definition insert_snapshot :: "bytes \<Rightarrow> snapshot_row \<Rightarrow> DB \<Rightarrow> failure + DB" where
  "insert_snapshot h r db =
     (if length h \<noteq> 32 \<or> n_base_seq r < 0 then Inl (Db CheckViolation)
      else if has_row (snapshot_sessions db) h then Inl (Db UniqueViolation)
      else if \<not> has_row (devices db) (n_user_id r, n_device_id r) then Inl (Db ForeignKeyViolation)
      else Inr (db\<lparr>snapshot_sessions := fmupd h r (snapshot_sessions db)\<rparr>))"

section \<open>What a successful statement has checked and done\<close>

lemma update_sync_Inr [res]:
  "update_sync u f db = Inr (q, db') \<longleftrightarrow>
     (\<exists>r. fmlookup (user_sync_state db) u = Some r \<and> sync_in_range (f r) \<and> check_sync (f r)
        \<and> q = next_seq (f r) \<and> db' = db\<lparr>user_sync_state := fmupd u (f r) (user_sync_state db)\<rparr>)"
  by (auto simp: update_sync_def Let_def split: option.splits if_splits)

lemma insert_clip_id_Inr [res]:
  "insert_clip_id u c r db = Inr db' \<longleftrightarrow>
     in_int8 (ci_created_seq r) \<and> check_clip_id r \<and> \<not> has_row (clip_ids db) (u, c)
     \<and> has_row (users db) u \<and> db' = db\<lparr>clip_ids := fmupd (u, c) r (clip_ids db)\<rparr>"
  by (auto simp: insert_clip_id_def)

lemma update_clip_id_Inr [res]:
  "update_clip_id u c f db = Inr db' \<longleftrightarrow>
     (fmlookup (clip_ids db) (u, c) = None \<and> db' = db)
     \<or> (\<exists>r. fmlookup (clip_ids db) (u, c) = Some r \<and> check_clip_id (f r)
          \<and> (\<forall>v. ci_final_version (f r) = Some v \<longrightarrow> in_int4 v)
          \<and> (\<forall>q. ci_final_seq (f r) = Some q \<longrightarrow> in_int8 q)
          \<and> db' = db\<lparr>clip_ids := fmupd (u, c) (f r) (clip_ids db)\<rparr>)"
  by (auto simp: update_clip_id_def Let_def split: option.splits)

lemma insert_clip_Inr [res]:
  "insert_clip u c r db = Inr db' \<longleftrightarrow>
     clip_in_range r \<and> check_clip r \<and> \<not> has_row (clips db) (u, c) \<and> clip_fk u c r db
     \<and> db' = db\<lparr>clips := fmupd (u, c) r (clips db)\<rparr>"
  by (auto simp: insert_clip_def)

lemma update_clip_Inr [res]:
  "update_clip u c f db = Inr db' \<longleftrightarrow>
     (fmlookup (clips db) (u, c) = None \<and> db' = db)
     \<or> (\<exists>r. fmlookup (clips db) (u, c) = Some r \<and> clip_in_range (f r) \<and> check_clip (f r)
          \<and> db' = db\<lparr>clips := fmupd (u, c) (f r) (clips db)\<rparr>)"
  by (auto simp: update_clip_def Let_def split: option.splits)

lemma update_clip_returning_Inr [res]:
  "update_clip_returning u c f db = Inr (x, db') \<longleftrightarrow>
     (\<exists>r. fmlookup (clips db) (u, c) = Some r \<and> clip_in_range (f r) \<and> check_clip (f r) \<and> x = f r
        \<and> db' = db\<lparr>clips := fmupd (u, c) (f r) (clips db)\<rparr>)"
  by (auto simp: update_clip_returning_def update_clip_def Let_def split: option.splits if_splits)

lemma insert_event_Inr [res]:
  "insert_event u q r db = Inr db' \<longleftrightarrow>
     in_int8 q \<and> in_int4 (e_version r) \<and> check_event q r \<and> \<not> has_row (sync_events db) (u, q)
     \<and> has_row (users db) u \<and> has_row (clip_ids db) (u, e_clip_id r)
     \<and> db' = db\<lparr>sync_events := fmupd (u, q) r (sync_events db)\<rparr>"
  by (auto simp: insert_event_def)

lemma insert_receipt_Inr [res]:
  "insert_receipt u op r db = Inr db' \<longleftrightarrow>
     check_receipt r \<and> \<not> has_row (operation_receipts db) (u, op) \<and> has_row (users db) u
     \<and> db' = db\<lparr>operation_receipts := fmupd (u, op) r (operation_receipts db)\<rparr>"
  by (auto simp: insert_receipt_def)

lemma insert_snapshot_Inr [res]:
  "insert_snapshot h r db = Inr db' \<longleftrightarrow>
     length h = 32 \<and> 0 \<le> n_base_seq r \<and> \<not> has_row (snapshot_sessions db) h
     \<and> has_row (devices db) (n_user_id r, n_device_id r)
     \<and> db' = db\<lparr>snapshot_sessions := fmupd h r (snapshot_sessions db)\<rparr>"
  by (auto simp: insert_snapshot_def not_less)

end
