(* ===== verification/Config.thy ===== *)
theory Config
  imports GoStd
begin

text \<open>
  Package \<open>config\<close> (server/internal/config/config.go): the configuration record and the
  predicates the other components read from it.
\<close>

record Config =
  HTTPAddr :: string
  PublicOrigin :: string
  DatabaseURL :: string
  RegistrationMode :: string
  ExternalAuthURL :: string
  ExternalRegisterURL :: string
  EmailBackend :: string
  SMTPHost :: string
  SMTPPort :: int
  SMTPUsername :: string
  SMTPPassword :: string
  SMTPFrom :: string
  SMTPSecure :: bool
  MaxTextBytes :: int
  MaxRequestBytes :: int
  MaxItems :: int
  MaxCiphertextBytes :: int
  TrashRetentionSeconds :: int
  EventRetentionDays :: int
  LogLevel :: string

definition CanRegister :: "Config \<Rightarrow> bool" where
  "CanRegister c \<longleftrightarrow> RegistrationMode c \<in> {''invite'', ''open'', ''email''}"

definition InviteRequired :: "Config \<Rightarrow> bool" where
  "InviteRequired c \<longleftrightarrow> RegistrationMode c = ''invite''"

definition EmailVerification :: "Config \<Rightarrow> bool" where
  "EmailVerification c \<longleftrightarrow> RegistrationMode c = ''email''"

definition MinPasswordChars :: "Config \<Rightarrow> int" where
  "MinPasswordChars c = (if RegistrationMode c = ''external'' then 1 else 12)"

end
