(* ===== verification/Hub.thy ===== *)
theory Hub
  imports Prelude
begin

text \<open>
  Package \<open>notify\<close> (server/internal/notify/hub.go): the live WebSocket connections of every
  user.  A connection is a pointer in Go; its identity is the field \<open>WS\<close>.  The effects on the
  sockets (writes and closes) are appended to \<open>ws_log\<close>.  The Go map from a user to a set of
  connections is a finite map to a duplicate-free list: the order in which Go ranges over
  the set is the order of the list, and no lemma depends on it.
\<close>

record Hint =
  hint_Type :: string
  hint_SyncEpoch :: string
  hint_HighWatermark :: string

record Conn =
  WS :: nat
  conn_UserID :: uuid
  conn_DeviceID :: uuid
  conn_SessionID :: uuid

datatype ws_event = WsWrite Conn Hint | WsClose Conn string

record Hub =
  conns :: "(uuid, Conn list) fmap"
  ws_log :: "ws_event list"

definition conns_of :: "Hub \<Rightarrow> uuid \<Rightarrow> Conn list" where
  "conns_of h userID = (case fmlookup (conns h) userID of None \<Rightarrow> [] | Some cs \<Rightarrow> cs)"

section \<open>Operations\<close>

definition hub_New :: Hub where
  "hub_New = \<lparr>conns = fmempty, ws_log = []\<rparr>"

definition Add :: "Conn \<Rightarrow> Hub \<Rightarrow> Hub" where
  "Add c h = h\<lparr>conns := fmupd (conn_UserID c) (List.insert c (conns_of h (conn_UserID c))) (conns h)\<rparr>"

definition Remove :: "Conn \<Rightarrow> Hub \<Rightarrow> Hub" where
  "Remove c h =
     (case fmlookup (conns h) (conn_UserID c) of
        None \<Rightarrow> h
      | Some cs \<Rightarrow>
          let rest = removeAll c cs in
          if rest = [] then h\<lparr>conns := fmdrop (conn_UserID c) (conns h)\<rparr>
          else h\<lparr>conns := fmupd (conn_UserID c) rest (conns h)\<rparr>)"

definition CloseUser :: "uuid \<Rightarrow> Hub \<Rightarrow> Hub" where
  "CloseUser userID h =
     h\<lparr>conns := fmdrop userID (conns h),
       ws_log := ws_log h @ map (\<lambda>c. WsClose c ''session ended'') (conns_of h userID)\<rparr>"

definition CloseDevice :: "uuid \<Rightarrow> uuid \<Rightarrow> Hub \<Rightarrow> Hub" where
  "CloseDevice userID deviceID h =
     (case fmlookup (conns h) userID of
        None \<Rightarrow> h
      | Some cs \<Rightarrow>
          h\<lparr>conns := fmupd userID (filter (\<lambda>c. conn_DeviceID c \<noteq> deviceID) cs) (conns h),
            ws_log := ws_log h @
              map (\<lambda>c. WsClose c ''device revoked'') (filter (\<lambda>c. conn_DeviceID c = deviceID) cs)\<rparr>)"

definition Broadcast :: "uuid \<Rightarrow> string \<Rightarrow> string \<Rightarrow> Hub \<Rightarrow> Hub" where
  "Broadcast userID epoch watermark h =
     h\<lparr>ws_log := ws_log h @
         map (\<lambda>c. WsWrite c \<lparr>hint_Type = ''changes_available'', hint_SyncEpoch = epoch,
                            hint_HighWatermark = watermark\<rparr>)
           (conns_of h userID)\<rparr>"

section \<open>Well-formedness\<close>

text \<open>Every registered connection is filed once, under its own user.\<close>

definition hub_ok :: "Hub \<Rightarrow> bool" where
  "hub_ok h \<longleftrightarrow>
     (\<forall>u cs. fmlookup (conns h) u = Some cs \<longrightarrow> distinct cs \<and> (\<forall>c\<in>set cs. conn_UserID c = u))"

lemma hub_okD: "hub_ok h \<Longrightarrow> distinct (conns_of h u) \<and> (\<forall>c\<in>set (conns_of h u). conn_UserID c = u)"
  by (auto simp: hub_ok_def conns_of_def split: option.splits)

lemma hub_ok_New: "hub_ok hub_New"
  by (simp add: hub_ok_def hub_New_def)

lemma hub_ok_Add: "hub_ok h \<Longrightarrow> hub_ok (Add c h)"
  using hub_okD [of h "conn_UserID c"] by (auto simp: hub_ok_def Add_def)

lemma hub_ok_Remove: "hub_ok h \<Longrightarrow> hub_ok (Remove c h)"
  by (auto simp: hub_ok_def Remove_def Let_def distinct_removeAll split: option.splits)

lemma hub_ok_CloseUser: "hub_ok h \<Longrightarrow> hub_ok (CloseUser u h)"
  by (auto simp: hub_ok_def CloseUser_def)

lemma hub_ok_CloseDevice: "hub_ok h \<Longrightarrow> hub_ok (CloseDevice u d h)"
  by (auto simp: hub_ok_def CloseDevice_def split: option.splits)

lemma hub_ok_Broadcast: "hub_ok h \<Longrightarrow> hub_ok (Broadcast u e w h)"
  by (auto simp: hub_ok_def Broadcast_def)

lemmas hub_ok_intros = hub_ok_New hub_ok_Add hub_ok_Remove hub_ok_CloseUser hub_ok_CloseDevice
  hub_ok_Broadcast

section \<open>Registered connections after each operation\<close>

named_theorems hub \<open>connections and socket effects after a hub operation\<close>

lemma conns_of_Add [hub]:
  "conns_of (Add c h) u =
     (if u = conn_UserID c then List.insert c (conns_of h u) else conns_of h u)"
  by (simp add: Add_def conns_of_def)

lemma conns_of_Remove [hub]:
  "conns_of (Remove c h) u =
     (if u = conn_UserID c then removeAll c (conns_of h u) else conns_of h u)"
  by (auto simp: Remove_def conns_of_def Let_def split: option.splits)

lemma conns_of_CloseUser [hub]:
  "conns_of (CloseUser v h) u = (if u = v then [] else conns_of h u)"
  by (simp add: CloseUser_def conns_of_def)

lemma conns_of_CloseDevice [hub]:
  "conns_of (CloseDevice v d h) u =
     (if u = v then filter (\<lambda>c. conn_DeviceID c \<noteq> d) (conns_of h u) else conns_of h u)"
  by (auto simp: CloseDevice_def conns_of_def split: option.splits)

lemma conns_of_Broadcast [hub]: "conns_of (Broadcast v e w h) u = conns_of h u"
  by (simp add: Broadcast_def conns_of_def)

lemma ws_log_CloseDevice [hub]:
  "ws_log (CloseDevice u d h) =
     ws_log h @ map (\<lambda>c. WsClose c ''device revoked'') (filter (\<lambda>c. conn_DeviceID c = d) (conns_of h u))"
  by (auto simp: CloseDevice_def conns_of_def split: option.splits)

end
