(* ===== verification/Store.thy ===== *)
theory Store
  imports Schema Config Hub
begin

text \<open>
  The parts of package \<open>store\<close> every component shares (server/internal/store/store.go and
  models.go): the store value, the records of the API, transactions, and the notification
  that follows a committed change.

  A transaction body maps the database to a failure or to a result and the new database;
  \<open>run_tx\<close> commits the latter and rolls the former back, which is what \<open>tx.Commit\<close> and the
  deferred \<open>tx.Rollback\<close> do.  An operation maps the store to a failure or a result and the new
  store.
\<close>

record Scope =
  sc_UserID :: uuid
  sc_DeviceID :: uuid
  sc_SessionID :: uuid
  sc_FamilyID :: uuid

record Envelope =
  env_ID :: string
  env_VaultID :: string
  env_SourceDeviceID :: string
  env_FormatVersion :: int
  env_KeyEpoch :: int
  env_ContentType :: string
  env_Nonce :: string
  env_Ciphertext :: string
  env_DeliveryIntent :: string

text \<open>Go embeds the envelope in the clip; the record extends it.\<close>

record Clip = Envelope +
  cl_Status :: string
  cl_Version :: int
  cl_CreatedSeq :: string
  cl_LastSeq :: string
  cl_CreatedAt :: time
  cl_DeletedAt :: "time option"
  cl_ExpiresAt :: "time option"

record Change =
  ch_Seq :: string
  ch_ClipID :: string
  ch_Kind :: string
  ch_Version :: int
  ch_OccurredAt :: time

record ChangePage =
  cp_SyncEpoch :: string
  cp_Events :: "Change list"
  cp_NextSeq :: string
  cp_HighWatermark :: string
  cp_HasMore :: bool
  cp_ServerTime :: time

record Snapshot =
  sn_Token :: string
  sn_BaseSeq :: string
  sn_SyncEpoch :: string
  sn_ExpiresAt :: time

record ClipPage =
  pg_Items :: "Clip list"
  pg_NextPageToken :: "string option"
  pg_ServerTime :: time

record Snapshot_page =
  sp_BaseSeq :: string
  sp_SyncEpoch :: string
  sp_Items :: "Clip list"
  sp_NextPageToken :: "string option"
  sp_ServerTime :: time

record ServerState =
  ss_ServerID :: string
  ss_SyncEpoch :: string

record Store =
  st_Pool :: DB
  st_Cfg :: Config
  st_Hub :: "Hub option"

definition store_New :: "DB \<Rightarrow> Config \<Rightarrow> Hub \<Rightarrow> Store" where
  [simp]: "store_New pool cfg hub = \<lparr>st_Pool = pool, st_Cfg = cfg, st_Hub = Some hub\<rparr>"

section \<open>Transactions\<close>

definition run_tx :: "(DB \<Rightarrow> failure + ('a \<times> DB)) \<Rightarrow> Store \<Rightarrow> (failure + 'a) \<times> Store" where
  "run_tx f st =
     (case f (st_Pool st) of
        Inl e \<Rightarrow> (Inl e, st)
      | Inr (x, db) \<Rightarrow> (Inr x, st\<lparr>st_Pool := db\<rparr>))"

lemma run_tx_Inl [simp]: "f (st_Pool st) = Inl e \<Longrightarrow> run_tx f st = (Inl e, st)"
  by (simp add: run_tx_def)

lemma run_tx_Inr [simp]: "f (st_Pool st) = Inr (x, db) \<Longrightarrow> run_tx f st = (Inr x, st\<lparr>st_Pool := db\<rparr>)"
  by (simp add: run_tx_def)

lemma run_tx_Inr_iff [res]:
  "run_tx f st = (Inr x, st') \<longleftrightarrow> (\<exists>db. f (st_Pool st) = Inr (x, db) \<and> st' = st\<lparr>st_Pool := db\<rparr>)"
  by (auto simp: run_tx_def split: sum.splits)

lemma run_tx_Inl_iff [res]: "run_tx f st = (Inl e, st') \<longleftrightarrow> f (st_Pool st) = Inl e \<and> st' = st"
  by (auto simp: run_tx_def split: sum.splits)

section \<open>Server state and notification\<close>

definition State :: "Store \<Rightarrow> failure + ServerState" where
  "State st =
     (case server_state (st_Pool st) of
        None \<Rightarrow> Inl (Db NoRows)
      | Some s \<Rightarrow> Inr \<lparr>ss_ServerID = server_id s, ss_SyncEpoch = sync_epoch s\<rparr>)"

text \<open>\<open>Store.notify\<close> ignores the error of its query and broadcasts what was scanned.\<close>

definition notify :: "uuid \<Rightarrow> Store \<Rightarrow> Store" where
  "notify userID st =
     (case st_Hub st of
        None \<Rightarrow> st
      | Some h \<Rightarrow>
          let (epoch, hw) =
            (case (server_state (st_Pool st), fmlookup (user_sync_state (st_Pool st)) userID) of
               (Some ss, Some s) \<Rightarrow> (sync_epoch ss, next_seq s)
             | _ \<Rightarrow> ([], 0))
          in st\<lparr>st_Hub := Some (Broadcast userID epoch (FormatSeq hw) h)\<rparr>)"

lemma notify_Pool [simp]: "st_Pool (notify u st) = st_Pool st"
  by (simp add: notify_def Let_def split: option.splits prod.splits)

lemma notify_Cfg [simp]: "st_Cfg (notify u st) = st_Cfg st"
  by (simp add: notify_def Let_def split: option.splits prod.splits)

lemma notify_hub_ok: "\<forall>h. st_Hub st = Some h \<longrightarrow> hub_ok h \<Longrightarrow> st_Hub (notify u st) = Some h \<Longrightarrow> hub_ok h"
  by (auto simp: notify_def Let_def hub_ok_Broadcast split: option.splits prod.splits)

end
