(* ===== verification/AuthSql.thy ===== *)
theory AuthSql
  imports Store
begin

text \<open>
  The SQL statements on accounts, devices, sessions, invites, vaults and email codes, with the
  constraints of both migrations.  \<open>lw\<close> is PostgreSQL's \<open>lower\<close>, whose effect beyond ASCII
  depends on the collation of the database; it is a parameter of the model.
\<close>

section \<open>Selecting a row\<close>

definition find_row :: "('k::linorder \<Rightarrow> 'v \<Rightarrow> bool) \<Rightarrow> ('k, 'v) table \<Rightarrow> ('k \<times> 'v) option" where
  "find_row P t = List.find (\<lambda>(k, v). P k v) (rows t)"

definition exists_row :: "('k::linorder \<Rightarrow> 'v \<Rightarrow> bool) \<Rightarrow> ('k, 'v) table \<Rightarrow> bool" where
  "exists_row P t = list_ex (\<lambda>(k, v). P k v) (rows t)"

lemma find_row_Some [tab]: "find_row P t = Some (k, v) \<Longrightarrow> fmlookup t k = Some v \<and> P k v"
  by (auto simp: find_row_def find_Some_iff) (metis in_rows_iff nth_mem)

lemma find_row_None [tab]: "find_row P t = None \<longleftrightarrow> (\<forall>k v. fmlookup t k = Some v \<longrightarrow> \<not> P k v)"
  by (auto simp: find_row_def find_None_iff)

lemma exists_row_iff [tab]: "exists_row P t \<longleftrightarrow> (\<exists>k v. fmlookup t k = Some v \<and> P k v)"
proof -
  have "exists_row P t \<longleftrightarrow> (\<exists>k v. (k, v) \<in> set (rows t) \<and> P k v)"
    unfolding exists_row_def list_ex_iff by blast
  then show ?thesis by simp
qed

lemma find_row_unique:
  assumes "fmlookup t k = Some v" and "P k v"
    and "\<And>k' v'. fmlookup t k' = Some v' \<Longrightarrow> P k' v' \<Longrightarrow> k' = k"
  shows "find_row P t = Some (k, v)"
proof (cases "find_row P t")
  case None
  with assms(1,2) show ?thesis unfolding find_row_None by blast
next
  case (Some kv)
  obtain k' v' where kv: "kv = (k', v')" by (cases kv)
  with find_row_Some [of P t k' v'] Some have k': "fmlookup t k' = Some v'" "P k' v'" by simp_all
  then have "k' = k" by (rule assms(3))
  with k' assms(1) Some kv show ?thesis by simp
qed

section \<open>users and devices\<close>

definition check_user :: "user_row \<Rightarrow> bool" where
  "check_user r \<longleftrightarrow> usernameRE (u_username r) \<and> u_status r \<in> {''active'', ''disabled''}
     \<and> u_auth_provider r \<in> {''local'', ''external''}"

text \<open>The unique indexes: user name, external subject and email per provider.\<close>

definition user_clash :: "(string \<Rightarrow> string) \<Rightarrow> user_row \<Rightarrow> user_row \<Rightarrow> bool" where
  "user_clash lw r r' \<longleftrightarrow>
     u_username r = u_username r'
     \<or> u_auth_provider r = u_auth_provider r'
       \<and> ((case (u_external_subject r, u_external_subject r') of (Some a, Some b) \<Rightarrow> a = b | _ \<Rightarrow> False)
          \<or> (case (u_email r, u_email r') of (Some a, Some b) \<Rightarrow> lw a = lw b | _ \<Rightarrow> False))"

definition insert_user :: "(string \<Rightarrow> string) \<Rightarrow> uuid \<Rightarrow> user_row \<Rightarrow> DB \<Rightarrow> failure + DB" where
  "insert_user lw u r db =
     (if \<not> check_user r then Inl (Db CheckViolation)
      else if has_row (users db) u \<or> exists_row (\<lambda>_. user_clash lw r) (users db)
      then Inl (Db UniqueViolation)
      else Inr (db\<lparr>users := fmupd u r (users db)\<rparr>))"

definition update_user :: "(string \<Rightarrow> string) \<Rightarrow> uuid \<Rightarrow> (user_row \<Rightarrow> user_row) \<Rightarrow> DB \<Rightarrow> failure + DB" where
  "update_user lw u f db =
     (case fmlookup (users db) u of
        None \<Rightarrow> Inr db
      | Some r \<Rightarrow>
          if \<not> check_user (f r) then Inl (Db CheckViolation)
          else if exists_row (\<lambda>v r'. v \<noteq> u \<and> user_clash lw (f r) r') (users db)
          then Inl (Db UniqueViolation)
          else Inr (db\<lparr>users := fmupd u (f r) (users db)\<rparr>))"

definition insert_sync :: "uuid \<Rightarrow> DB \<Rightarrow> failure + DB" where
  "insert_sync u db =
     (if has_row (user_sync_state db) u then Inl (Db UniqueViolation)
      else if \<not> has_row (users db) u then Inl (Db ForeignKeyViolation)
      else Inr (db\<lparr>user_sync_state := fmupd u
                    \<lparr>next_seq = 0, min_available_seq = 1, ciphertext_bytes = 0, item_count = 0\<rparr>
                    (user_sync_state db)\<rparr>))"

definition insert_device :: "uuid \<Rightarrow> uuid \<Rightarrow> device_row \<Rightarrow> DB \<Rightarrow> failure + DB" where
  "insert_device u d r db =
     (if \<not> (1 \<le> RuneCountInString (d_name r) \<and> RuneCountInString (d_name r) \<le> 64)
         \<or> d_platform r \<notin> {''windows'', ''android''} then Inl (Db CheckViolation)
      else if has_row (devices db) (u, d) then Inl (Db UniqueViolation)
      else if \<not> has_row (users db) u then Inl (Db ForeignKeyViolation)
      else Inr (db\<lparr>devices := fmupd (u, d) r (devices db)\<rparr>))"

definition touch_device :: "time \<Rightarrow> uuid \<Rightarrow> uuid \<Rightarrow> DB \<Rightarrow> DB" where
  "touch_device t u d db =
     db\<lparr>devices := update_where (\<lambda>k _. k = (u, d)) (\<lambda>r. r\<lparr>d_last_seen_at := Some t\<rparr>) (devices db)\<rparr>"

section \<open>sessions\<close>

definition check_session :: "session_row \<Rightarrow> bool" where
  "check_session r \<longleftrightarrow> length (s_access_hash r) = 32 \<and> length (s_refresh_hash r) = 32"

definition session_clash :: "session_row \<Rightarrow> session_row \<Rightarrow> bool" where
  "session_clash r r' \<longleftrightarrow> s_access_hash r = s_access_hash r' \<or> s_refresh_hash r = s_refresh_hash r'"

definition insert_session :: "uuid \<Rightarrow> session_row \<Rightarrow> DB \<Rightarrow> failure + DB" where
  "insert_session i r db =
     (if \<not> check_session r then Inl (Db CheckViolation)
      else if has_row (sessions db) i \<or> exists_row (\<lambda>_. session_clash r) (sessions db)
      then Inl (Db UniqueViolation)
      else if \<not> has_row (devices db) (s_user_id r, s_device_id r) then Inl (Db ForeignKeyViolation)
      else Inr (db\<lparr>sessions := fmupd i r (sessions db)\<rparr>))"

definition update_session_returning ::
  "uuid \<Rightarrow> (session_row \<Rightarrow> session_row) \<Rightarrow> DB \<Rightarrow> failure + (session_row \<times> DB)" where
  "update_session_returning i f db =
     (case fmlookup (sessions db) i of
        None \<Rightarrow> Inl (Db NoRows)
      | Some r \<Rightarrow>
          if \<not> check_session (f r) then Inl (Db CheckViolation)
          else if exists_row (\<lambda>j r'. j \<noteq> i \<and> session_clash (f r) r') (sessions db)
          then Inl (Db UniqueViolation)
          else Inr (f r, db\<lparr>sessions := fmupd i (f r) (sessions db)\<rparr>))"

text \<open>\<open>UPDATE sessions SET revoked_at=clock_timestamp() WHERE P AND revoked_at IS NULL\<close>.\<close>

definition revoke_sessions :: "time \<Rightarrow> (uuid \<Rightarrow> session_row \<Rightarrow> bool) \<Rightarrow> DB \<Rightarrow> DB" where
  "revoke_sessions t P db =
     db\<lparr>sessions := update_where (\<lambda>k s. P k s \<and> s_revoked_at s = None)
          (\<lambda>s. s\<lparr>s_revoked_at := Some t\<rparr>) (sessions db)\<rparr>"

definition insert_used_refresh :: "bytes \<Rightarrow> used_refresh_row \<Rightarrow> DB \<Rightarrow> failure + DB" where
  "insert_used_refresh h r db =
     (if length h \<noteq> 32 then Inl (Db CheckViolation)
      else if has_row (used_refresh_tokens db) h then Inl (Db UniqueViolation)
      else Inr (db\<lparr>used_refresh_tokens := fmupd h r (used_refresh_tokens db)\<rparr>))"

definition insert_invite :: "bytes \<Rightarrow> invite_row \<Rightarrow> DB \<Rightarrow> failure + DB" where
  "insert_invite h r db =
     (if length h \<noteq> 32 then Inl (Db CheckViolation)
      else if has_row (registration_invites db) h then Inl (Db UniqueViolation)
      else Inr (db\<lparr>registration_invites := fmupd h r (registration_invites db)\<rparr>))"

section \<open>vaults\<close>

definition check_wrap :: "PasswordWrapRaw \<Rightarrow> bool" where
  "check_wrap p \<longleftrightarrow> pw_KDF p = ''argon2id'' \<and> 1 \<le> pw_Time p \<and> pw_Time p \<le> 10
     \<and> 8192 \<le> pw_Memory p \<and> pw_Memory p \<le> 262144 \<and> 1 \<le> pw_Parallelism p \<and> pw_Parallelism p \<le> 4
     \<and> length (pw_KDFSalt p) = 16 \<and> length (pw_WrapSalt p) = 32 \<and> length (pw_WrapNonce p) = 12
     \<and> length (pw_WrappedKey p) = 48"

definition check_vault :: "vault_row \<Rightarrow> bool" where
  "check_vault v \<longleftrightarrow> v_format_version v = 1 \<and> v_key_epoch v = 1 \<and> length (v_wrap_salt v) = 32
     \<and> length (v_wrap_nonce v) = 12 \<and> length (v_wrapped_key v) = 48
     \<and> (case v_password v of None \<Rightarrow> True | Some p \<Rightarrow> check_wrap p)"

definition insert_vault :: "uuid \<Rightarrow> vault_row \<Rightarrow> DB \<Rightarrow> failure + DB" where
  "insert_vault u v db =
     (if \<not> check_vault v then Inl (Db CheckViolation)
      else if has_row (vaults db) u then Inl (Db UniqueViolation)
      else if \<not> has_row (users db) u then Inl (Db ForeignKeyViolation)
      else Inr (db\<lparr>vaults := fmupd u v (vaults db)\<rparr>))"

text \<open>The UPDATE of the password wrap, with the number of rows it affected.\<close>

definition update_vault_wrap :: "uuid \<Rightarrow> PasswordWrapRaw \<Rightarrow> DB \<Rightarrow> failure + (nat \<times> DB)" where
  "update_vault_wrap u p db =
     (case fmlookup (vaults db) u of
        None \<Rightarrow> Inr (0, db)
      | Some v \<Rightarrow>
          if \<not> check_vault (v\<lparr>v_password := Some p\<rparr>) then Inl (Db CheckViolation)
          else Inr (1, db\<lparr>vaults := fmupd u (v\<lparr>v_password := Some p\<rparr>) (vaults db)\<rparr>))"

section \<open>email\_codes\<close>

definition check_email_code :: "email_code_row \<Rightarrow> bool" where
  "check_email_code r \<longleftrightarrow> ec_purpose r = ''register'' \<and> length (ec_code_hash r) = 32
     \<and> 0 \<le> ec_attempts r \<and> ec_attempts r \<le> 10"

definition upsert_email_code :: "string \<Rightarrow> email_code_row \<Rightarrow> DB \<Rightarrow> failure + DB" where
  "upsert_email_code email r db =
     (if \<not> check_email_code r then Inl (Db CheckViolation)
      else Inr (db\<lparr>email_codes := fmupd email r (email_codes db)\<rparr>))"

section \<open>What a successful statement has checked and done\<close>

lemma insert_user_Inr [res]:
  "insert_user lw u r db = Inr db' \<longleftrightarrow> check_user r \<and> \<not> has_row (users db) u
     \<and> \<not> exists_row (\<lambda>_. user_clash lw r) (users db) \<and> db' = db\<lparr>users := fmupd u r (users db)\<rparr>"
  by (auto simp: insert_user_def)

lemma update_user_Inr [res]:
  "update_user lw u f db = Inr db' \<longleftrightarrow>
     (fmlookup (users db) u = None \<and> db' = db)
     \<or> (\<exists>r. fmlookup (users db) u = Some r \<and> check_user (f r)
          \<and> \<not> exists_row (\<lambda>v r'. v \<noteq> u \<and> user_clash lw (f r) r') (users db)
          \<and> db' = db\<lparr>users := fmupd u (f r) (users db)\<rparr>)"
  by (auto simp: update_user_def split: option.splits)

lemma insert_sync_Inr [res]:
  "insert_sync u db = Inr db' \<longleftrightarrow> \<not> has_row (user_sync_state db) u \<and> has_row (users db) u
     \<and> db' = db\<lparr>user_sync_state := fmupd u
          \<lparr>next_seq = 0, min_available_seq = 1, ciphertext_bytes = 0, item_count = 0\<rparr> (user_sync_state db)\<rparr>"
  by (auto simp: insert_sync_def)

lemma insert_device_Inr [res]:
  "insert_device u d r db = Inr db' \<longleftrightarrow>
     1 \<le> RuneCountInString (d_name r) \<and> RuneCountInString (d_name r) \<le> 64
     \<and> d_platform r \<in> {''windows'', ''android''} \<and> \<not> has_row (devices db) (u, d) \<and> has_row (users db) u
     \<and> db' = db\<lparr>devices := fmupd (u, d) r (devices db)\<rparr>"
  by (auto simp: insert_device_def)

lemma insert_session_Inr [res]:
  "insert_session i r db = Inr db' \<longleftrightarrow> check_session r \<and> \<not> has_row (sessions db) i
     \<and> \<not> exists_row (\<lambda>_. session_clash r) (sessions db)
     \<and> has_row (devices db) (s_user_id r, s_device_id r)
     \<and> db' = db\<lparr>sessions := fmupd i r (sessions db)\<rparr>"
  by (auto simp: insert_session_def)

lemma update_session_returning_Inr [res]:
  "update_session_returning i f db = Inr (x, db') \<longleftrightarrow>
     (\<exists>r. fmlookup (sessions db) i = Some r \<and> check_session (f r)
        \<and> \<not> exists_row (\<lambda>j r'. j \<noteq> i \<and> session_clash (f r) r') (sessions db)
        \<and> x = f r \<and> db' = db\<lparr>sessions := fmupd i (f r) (sessions db)\<rparr>)"
  by (auto simp: update_session_returning_def split: option.splits)

lemma insert_used_refresh_Inr [res]:
  "insert_used_refresh h r db = Inr db' \<longleftrightarrow> length h = 32 \<and> \<not> has_row (used_refresh_tokens db) h
     \<and> db' = db\<lparr>used_refresh_tokens := fmupd h r (used_refresh_tokens db)\<rparr>"
  by (auto simp: insert_used_refresh_def)

lemma insert_invite_Inr [res]:
  "insert_invite h r db = Inr db' \<longleftrightarrow> length h = 32 \<and> \<not> has_row (registration_invites db) h
     \<and> db' = db\<lparr>registration_invites := fmupd h r (registration_invites db)\<rparr>"
  by (auto simp: insert_invite_def)

lemma insert_vault_Inr [res]:
  "insert_vault u v db = Inr db' \<longleftrightarrow> check_vault v \<and> \<not> has_row (vaults db) u \<and> has_row (users db) u
     \<and> db' = db\<lparr>vaults := fmupd u v (vaults db)\<rparr>"
  by (auto simp: insert_vault_def)

lemma update_vault_wrap_Inr [res]:
  "update_vault_wrap u p db = Inr (n, db') \<longleftrightarrow>
     (fmlookup (vaults db) u = None \<and> n = 0 \<and> db' = db)
     \<or> (\<exists>v. fmlookup (vaults db) u = Some v \<and> check_vault (v\<lparr>v_password := Some p\<rparr>) \<and> n = 1
          \<and> db' = db\<lparr>vaults := fmupd u (v\<lparr>v_password := Some p\<rparr>) (vaults db)\<rparr>)"
  by (auto simp: update_vault_wrap_def split: option.splits)

lemma upsert_email_code_Inr [res]:
  "upsert_email_code email r db = Inr db' \<longleftrightarrow>
     check_email_code r \<and> db' = db\<lparr>email_codes := fmupd email r (email_codes db)\<rparr>"
  by (auto simp: upsert_email_code_def)

end
