(* ===== verification/Passwd.thy ===== *)
theory Passwd
  imports Canon
begin

text \<open>
  Package \<open>passwd\<close> (server/internal/passwd/passwd.go): the textual form of password hashes.
  The Argon2id function is a parameter of the model,
  \<open>idkey password salt time memory threads keyLen\<close>; all that is relied on is the length of its
  result.  It is total here: argon2 panics for zero rounds or threads, which \<open>Hash\<close> never writes.
  An error of \<open>Verify\<close> is None.
\<close>

type_synonym argon2 = "bytes \<Rightarrow> bytes \<Rightarrow> int \<Rightarrow> int \<Rightarrow> int \<Rightarrow> int \<Rightarrow> bytes"

section \<open>Splitting\<close>

text \<open>\<open>strings.Split\<close> and \<open>strings.Cut\<close> for a separator of one character.\<close>

primrec Split :: "char \<Rightarrow> string \<Rightarrow> string list" where
  "Split c [] = [[]]"
| "Split c (x # xs) =
     (if x = c then [] # Split c xs
      else case Split c xs of [] \<Rightarrow> [[x]] | y # ys \<Rightarrow> (x # y) # ys)"

definition Cut :: "string \<Rightarrow> char \<Rightarrow> (string \<times> string) option" where
  "Cut s c =
     (let k = takeWhile (\<lambda>x. x \<noteq> c) s in
      if length k = length s then None else Some (k, drop (Suc (length k)) s))"

lemma Split_not_Nil [simp]: "Split c s \<noteq> []"
  by (induction s) (auto split: list.splits)

lemma Split_none: "c \<notin> set a \<Longrightarrow> Split c a = [a]"
  by (induction a) auto

lemma Split_append: "c \<notin> set a \<Longrightarrow> Split c (a @ c # b) = a # Split c b"
  by (induction a) auto

lemma Cut_append: "c \<notin> set k \<Longrightarrow> Cut (k @ c # v) c = Some (k, v)"
proof -
  assume "c \<notin> set k"
  then have "takeWhile (\<lambda>x. x \<noteq> c) (k @ c # v) = k" by (subst takeWhile_append2) auto
  then show ?thesis by (simp add: Cut_def)
qed

definition ParseUint32 :: "string \<Rightarrow> int option" where
  "ParseUint32 s =
     (if s \<noteq> [] \<and> list_all is_digit s \<and> int (dec_val s) < 2 ^ 32 then Some (int (dec_val s)) else None)"

section \<open>Hash and Verify\<close>

definition memoryKiB :: int where "memoryKiB = 64 * 1024"
definition iterations :: int where "iterations = 3"
definition parallel :: int where "parallel = 1"
definition keyLen :: int where "keyLen = 32"
definition saltLen :: nat where "saltLen = 16"

text \<open>The salt is what \<open>rand.Read\<close> wrote into a buffer of \<open>saltLen\<close> bytes.\<close>

definition Hash :: "argon2 \<Rightarrow> bytes \<Rightarrow> string \<Rightarrow> string" where
  "Hash idkey salt password =
     (let key = idkey (bytes_of password) salt iterations memoryKiB parallel keyLen in
      ''$argon2id$v=19$m='' @ FormatInt memoryKiB @ '',t='' @ FormatInt iterations
      @ '',p='' @ FormatInt parallel @ ''$'' @ b64_encode False salt @ ''$'' @ b64_encode False key)"

record params =
  p_memory :: int
  p_time :: int
  p_threads :: int

fun scan_params :: "string list \<Rightarrow> params \<Rightarrow> params option" where
  "scan_params [] p = Some p"
| "scan_params (item # items) p =
     (case Cut item (CHR ''='') of
        None \<Rightarrow> None
      | Some (k, v) \<Rightarrow>
          (case ParseUint32 v of
             None \<Rightarrow> None
           | Some n \<Rightarrow>
               scan_params items
                 (if k = ''m'' then p\<lparr>p_memory := n\<rparr>
                  else if k = ''t'' then p\<lparr>p_time := n\<rparr>
                  else if k = ''p'' then p\<lparr>p_threads := n\<rparr>
                  else p)))"

definition Verify :: "argon2 \<Rightarrow> string \<Rightarrow> string \<Rightarrow> bool option" where
  "Verify idkey password encoded =
     (let parts = Split (CHR ''$'') encoded in
      if length parts \<noteq> 6 \<or> parts ! 1 \<noteq> ''argon2id'' then None
      else case scan_params (Split (CHR '','') (parts ! 3)) \<lparr>p_memory = 0, p_time = 0, p_threads = 0\<rparr> of
        None \<Rightarrow> None
      | Some p \<Rightarrow>
          (case (b64_decode False (parts ! 4), b64_decode False (parts ! 5)) of
             (Some salt, Some want) \<Rightarrow>
               let got = idkey (bytes_of password) salt (p_time p) (p_memory p) (p_threads p mod 256)
                           (int (length want) mod 2 ^ 32)
               in Some (got = want)
           | _ \<Rightarrow> None))"

section \<open>Verify recognises what Hash wrote\<close>

lemma dollar_not_b64: "CHR ''$'' \<notin> set (b64_encode url b)"
proof
  assume "CHR ''$'' \<in> set (b64_encode url b)"
  then obtain n where n: "n < 64" "CHR ''$'' = b64_char url n" using b64_encode_alphabet by blast
  have "ord (CHR ''$'') = 36" by (simp add: ord_def)
  with n ord_b64_char [OF n(1), of url] show False by (auto split: if_splits)
qed

lemma digit_chars:
  "digit 0 = CHR ''0''"
  "digit 1 = CHR ''1''"
  "digit 2 = CHR ''2''"
  "digit 3 = CHR ''3''"
  "digit 4 = CHR ''4''"
  "digit 5 = CHR ''5''"
  "digit 6 = CHR ''6''"
  "digit 7 = CHR ''7''"
  "digit 8 = CHR ''8''"
  "digit 9 = CHR ''9''"
  by code_simp+

lemma digit_vals:
  "digit_val (CHR ''0'') = 0" "is_digit (CHR ''0'')"
  "digit_val (CHR ''1'') = 1" "is_digit (CHR ''1'')"
  "digit_val (CHR ''2'') = 2" "is_digit (CHR ''2'')"
  "digit_val (CHR ''3'') = 3" "is_digit (CHR ''3'')"
  "digit_val (CHR ''4'') = 4" "is_digit (CHR ''4'')"
  "digit_val (CHR ''5'') = 5" "is_digit (CHR ''5'')"
  "digit_val (CHR ''6'') = 6" "is_digit (CHR ''6'')"
  "digit_val (CHR ''7'') = 7" "is_digit (CHR ''7'')"
  "digit_val (CHR ''8'') = 8" "is_digit (CHR ''8'')"
  "digit_val (CHR ''9'') = 9" "is_digit (CHR ''9'')"
  by code_simp+

lemma Hash_params: "''m='' @ FormatInt memoryKiB @ '',t='' @ FormatInt iterations @ '',p='' @ FormatInt parallel
    = ''m=65536,t=3,p=1''"
  by (simp add: memoryKiB_def iterations_def parallel_def FormatInt_def show_nat.simps digit_chars
      digit_chars(2) [unfolded One_nat_def])

lemma scan_Hash_params:
  "scan_params (Split (CHR '','') ''m=65536,t=3,p=1'') \<lparr>p_memory = 0, p_time = 0, p_threads = 0\<rparr>
     = Some \<lparr>p_memory = memoryKiB, p_time = iterations, p_threads = parallel\<rparr>"
  by (simp add: Cut_def Let_def ParseUint32_def dec_val_def digit_vals memoryKiB_def iterations_def parallel_def)

lemma Split_Hash:
  "Split (CHR ''$'') (Hash idkey salt password) =
     [[], ''argon2id'', ''v=19'', ''m=65536,t=3,p=1'', b64_encode False salt,
      b64_encode False (idkey (bytes_of password) salt iterations memoryKiB parallel keyLen)]"
proof -
  let ?key = "b64_encode False (idkey (bytes_of password) salt iterations memoryKiB parallel keyLen)"
  have "Hash idkey salt password =
      [] @ CHR ''$'' # (''argon2id'' @ CHR ''$'' # (''v=19'' @ CHR ''$'' #
        ((''m='' @ FormatInt memoryKiB @ '',t='' @ FormatInt iterations @ '',p='' @ FormatInt parallel)
          @ CHR ''$'' # (b64_encode False salt @ CHR ''$'' # ?key))))"
    by (simp add: Hash_def Let_def)
  then show ?thesis
    unfolding Hash_params by (simp only: Split_append Split_none dollar_not_b64) (simp add: Split_append Split_none dollar_not_b64)
qed

text \<open>
  C20: Verify accepts a password against a stored hash exactly when Argon2id maps it to the
  stored key under the stored salt and parameters; in particular it accepts the password that
  was hashed.
\<close>

theorem Verify_Hash:
  assumes len: "\<And>p s t m th n. length (idkey p s t m th n) = nat n"
  shows "Verify idkey other (Hash idkey salt password) =
      Some (idkey (bytes_of other) salt iterations memoryKiB parallel keyLen
        = idkey (bytes_of password) salt iterations memoryKiB parallel keyLen)"
  by (simp add: Verify_def Split_Hash scan_Hash_params b64_decode_encode len Let_def
      del: Split.simps scan_params.simps) (simp add: keyLen_def parallel_def)

theorem Verify_Hash_witness:
  "Verify (\<lambda>p s t m th n. take (nat n) (p @ replicate (nat n) 0)) ''secret''
     (Hash (\<lambda>p s t m th n. take (nat n) (p @ replicate (nat n) 0)) (replicate 16 1) ''secret'') = Some True"
  by (subst Verify_Hash) simp_all

end
