(* ===== verification/Auth.thy ===== *)
theory Auth
  imports AuthSql Passwd
begin

text \<open>
  Accounts, sessions, devices and vaults (server/internal/store/auth.go and the rest of
  store.go).  What is outside the program is an argument: the Unicode lower-case table of Go
  and the database's \<open>lower\<close> and Argon2id in the record \<open>World\<close>, the random bytes and fresh
  identifiers of one call in the record \<open>Fresh\<close>, the mailer and the external verifier.  \<open>clk\<close>
  is the database clock, \<open>now\<close> the clock of the Go process; both give successive readings.
\<close>

record World =
  w_tbl :: "nat \<Rightarrow> nat"
  w_lower :: "string \<Rightarrow> string"
  w_idkey :: argon2

record Fresh =
  f_user :: uuid
  f_family :: uuid
  f_session :: uuid
  f_access :: bytes
  f_refresh :: bytes
  f_salt :: bytes

record TokenPair =
  tp_AccessToken :: string
  tp_RefreshToken :: string
  tp_TokenType :: string
  tp_ExpiresIn :: int
  tp_RefreshExpiresAt :: time

record AuthResult = TokenPair +
  ar_UserID :: string
  ar_DeviceID :: string
  ar_VaultInitialized :: bool

record Device =
  dv_ID :: string
  dv_Name :: string
  dv_Platform :: string
  dv_CreatedAt :: time
  dv_LastSeenAt :: "time option"
  dv_RevokedAt :: "time option"

record PasswordWrap =
  pe_KDF :: string
  pe_Time :: int
  pe_Memory :: int
  pe_Parallelism :: int
  pe_KDFSalt :: string
  pe_WrapSalt :: string
  pe_WrapNonce :: string
  pe_WrappedKey :: string

record VaultEnvelope =
  ve_VaultID :: string
  ve_FormatVersion :: int
  ve_KeyEpoch :: int
  ve_WrapSalt :: string
  ve_WrapNonce :: string
  ve_WrappedKey :: string
  ve_PasswordWrap :: "PasswordWrap option"

record RegisterInput =
  ri_Username :: string
  ri_Password :: string
  ri_InviteToken :: string
  ri_Email :: string
  ri_EmailCode :: string
  ri_DeviceID :: string
  ri_DeviceName :: string
  ri_Platform :: string

record LoginInput =
  li_Username :: string
  li_Password :: string
  li_DeviceID :: string
  li_DeviceName :: string
  li_Platform :: string

record ExtUser =
  xu_Subject :: string
  xu_Account :: string
  xu_Email :: string

section \<open>Sessions\<close>

definition issueSession ::
  "clock \<Rightarrow> Fresh \<Rightarrow> uuid \<Rightarrow> uuid \<Rightarrow> uuid \<Rightarrow> DB \<Rightarrow> failure + ((TokenPair \<times> string) \<times> DB)" where
  "issueSession clk fr userID deviceID familyID db =
     (let (access, accessHash) = RandomToken (f_access fr);
          (refresh, refreshHash) = RandomToken (f_refresh fr);
          refreshExp = clk 1 + days 30
      in bind_res
           (insert_session (f_session fr)
              \<lparr>s_user_id = userID, s_device_id = deviceID, s_family_id = familyID,
               s_access_hash = accessHash, s_refresh_hash = refreshHash,
               s_expires_at = clk 0 + seconds 900, s_refresh_expires_at = refreshExp,
               s_revoked_at = None\<rparr> db)
         (\<lambda>db.
         Inr ((\<lparr>tp_AccessToken = access, tp_RefreshToken = refresh, tp_TokenType = ''Bearer'',
                tp_ExpiresIn = 900, tp_RefreshExpiresAt = refreshExp\<rparr>, f_session fr), db)))"

definition vaultInitialized :: "DB \<Rightarrow> uuid \<Rightarrow> bool" where
  "vaultInitialized db userID = has_row (vaults db) userID"

definition auth_result :: "TokenPair \<Rightarrow> uuid \<Rightarrow> uuid \<Rightarrow> bool \<Rightarrow> AuthResult" where
  "auth_result pair u d v =
     \<lparr>tp_AccessToken = tp_AccessToken pair, tp_RefreshToken = tp_RefreshToken pair,
      tp_TokenType = tp_TokenType pair, tp_ExpiresIn = tp_ExpiresIn pair,
      tp_RefreshExpiresAt = tp_RefreshExpiresAt pair, ar_UserID = u, ar_DeviceID = d,
      ar_VaultInitialized = v\<rparr>"

section \<open>Registration\<close>

definition isUnique :: "failure \<Rightarrow> bool" where
  "isUnique e \<longleftrightarrow> e = Db UniqueViolation"

definition bytesEqual :: "bytes \<Rightarrow> bytes \<Rightarrow> bool" where
  "bytesEqual a b \<longleftrightarrow>
     (if length a \<noteq> length b then False
      else foldl (\<lambda>v (x, y). or v (xor x y)) 0 (zip a b) = 0)"

text \<open>
  The error comes with the transaction's database, because the function has written to it
  before it returns the error.
\<close>

definition consumeEmailCode ::
  "time \<Rightarrow> string \<Rightarrow> string \<Rightarrow> string \<Rightarrow> DB \<Rightarrow> (failure + unit) \<times> DB" where
  "consumeEmailCode now email purpose code db =
     (case (case fmlookup (email_codes db) email of
              None \<Rightarrow> None
            | Some r \<Rightarrow> if ec_purpose r = purpose then Some r else None) of
        None \<Rightarrow> (Inl (App (New 400 InvalidRequest)), db)
      | Some r \<Rightarrow>
          let dropped = db\<lparr>email_codes := fmdrop email (email_codes db)\<rparr> in
          if \<not> ec_expires_at r > now then (Inl (App (New 400 InvalidRequest)), dropped)
          else if ec_attempts r \<ge> 5 then (Inl (App (New 429 RateLimited)), db)
          else if \<not> bytesEqual (ec_code_hash r) (EmailCodeHash email purpose code) then
            (Inl (App (New 400 InvalidRequest)),
             db\<lparr>email_codes := fmupd email (r\<lparr>ec_attempts := ec_attempts r + 1\<rparr>) (email_codes db)\<rparr>)
          else (Inr (), dropped))"

text \<open>The UPDATE that consumes an invite, with the number of rows it affected.\<close>

definition consume_invite :: "clock \<Rightarrow> bytes \<Rightarrow> DB \<Rightarrow> nat \<times> DB" where
  "consume_invite clk h db =
     (case fmlookup (registration_invites db) h of
        None \<Rightarrow> (0, db)
      | Some i \<Rightarrow>
          if i_consumed_at i = None \<and> i_expires_at i > clk 0 then
            (1, db\<lparr>registration_invites :=
                    fmupd h (i\<lparr>i_consumed_at := Some (clk 1)\<rparr>) (registration_invites db)\<rparr>)
          else (0, db))"

definition register_invite :: "Config \<Rightarrow> clock \<Rightarrow> RegisterInput \<Rightarrow> DB \<Rightarrow> failure + DB" where
  "register_invite cfg clk in' db =
     (if RegistrationMode cfg = ''invite'' then
        let (n, db) = consume_invite clk (HashToken (ri_InviteToken in')) db in
        if n \<noteq> 1 then Inl (App (New 403 RegistrationDisabled)) else Inr db
      else Inr db)"

text \<open>The result is the time at which the address was verified, if it was.\<close>

definition register_code ::
  "Config \<Rightarrow> clock \<Rightarrow> RegisterInput \<Rightarrow> string option \<Rightarrow> DB \<Rightarrow> failure + (time option \<times> DB)" where
  "register_code cfg now in' email db =
     (if RegistrationMode cfg = ''email'' then
        (case consumeEmailCode (now 0) (the email) ''register'' (ri_EmailCode in') db of
           (Inl e, _) \<Rightarrow> Inl e
         | (Inr _, db) \<Rightarrow> Inr (Some (now 1), db))
      else Inr (None, db))"

text \<open>A unique violation of the insertion of an account becomes a 409.\<close>

definition unique_conflict :: "failure + 'a \<Rightarrow> failure + 'a" where
  "unique_conflict m =
     (case m of
        Inl e \<Rightarrow> if isUnique e then Inl (App (New 409 IdempotencyConflict)) else Inl e
      | Inr x \<Rightarrow> Inr x)"

definition register_tx ::
  "Config \<Rightarrow> World \<Rightarrow> Fresh \<Rightarrow> clock \<Rightarrow> clock \<Rightarrow> RegisterInput \<Rightarrow> string option \<Rightarrow> DB
     \<Rightarrow> failure + (AuthResult \<times> DB)" where
  "register_tx cfg w fr clk now in' email db =
     bind_res (register_invite cfg clk in' db)
     (\<lambda>db.
     bind_res (register_code cfg now in' email db)
     (\<lambda>(verified, db).
     bind_res
       (unique_conflict
         (insert_user (w_lower w) (f_user fr)
            \<lparr>u_username = ri_Username in',
             u_password_hash = Hash (w_idkey w) (f_salt fr) (ri_Password in'),
             u_status = ''active'', u_created_at = clk 2, u_email = email,
             u_email_verified_at = verified, u_auth_provider = ''local'',
             u_external_subject = None\<rparr> db))
     (\<lambda>db.
     bind_res (insert_sync (f_user fr) db)
     (\<lambda>db.
     bind_res
       (insert_device (f_user fr) (ri_DeviceID in')
          \<lparr>d_name = ri_DeviceName in', d_platform = ri_Platform in', d_created_at = clk 3,
           d_last_seen_at = Some (clk 4), d_revoked_at = None\<rparr> db)
     (\<lambda>db.
     bind_res (issueSession (shift 5 clk) fr (f_user fr) (ri_DeviceID in') (f_family fr) db)
     (\<lambda>((pair, _), db). Inr (auth_result pair (f_user fr) (ri_DeviceID in') False, db)))))))"

text \<open>The email the account gets: required in mode \<open>email\<close>, optional in the other open modes.\<close>

definition register_email :: "Config \<Rightarrow> World \<Rightarrow> RegisterInput \<Rightarrow> failure + string option" where
  "register_email cfg w in' =
     (if RegistrationMode cfg = ''email'' then
        (case Email (w_tbl w) (ri_Email in') of
           None \<Rightarrow> Inl (App (New 400 InvalidRequest))
         | Some norm \<Rightarrow>
             if \<not> EmailCode (ri_EmailCode in') then Inl (App (New 400 InvalidRequest))
             else Inr (Some norm))
      else if TrimSpace (ri_Email in') \<noteq> [] then
        (case Email (w_tbl w) (ri_Email in') of
           None \<Rightarrow> Inl (App (New 400 InvalidRequest))
         | Some norm \<Rightarrow> Inr (Some norm))
      else Inr None)"

definition Register ::
  "World \<Rightarrow> Fresh \<Rightarrow> clock \<Rightarrow> clock \<Rightarrow> RegisterInput \<Rightarrow> Store \<Rightarrow> (failure + AuthResult) \<times> Store" where
  "Register w fr clk now in' st =
     (let cfg = st_Cfg st in
      if RegistrationMode cfg = ''disabled'' \<or> RegistrationMode cfg = ''external'' then
        (Inl (App (New 403 RegistrationDisabled)), st)
      else if RegistrationMode cfg = ''invite'' \<and> \<not> Token (ri_InviteToken in') then
        (Inl (App (New 400 InvalidRequest)), st)
      else case register_email cfg w in' of
        Inl e \<Rightarrow> (Inl e, st)
      | Inr email \<Rightarrow> run_tx (register_tx cfg w fr clk now in' email) st)"

section \<open>Email codes\<close>

text \<open>The bytes are what \<open>rand.Read\<close> wrote into a buffer of n bytes.\<close>

definition randomDigits :: "bytes \<Rightarrow> string" where
  "randomDigits buf = map (\<lambda>b. digit (unat b mod 10)) buf"

text \<open>
  \<open>mailer\<close> is None if no mailer is configured, otherwise whether sending a code to an address
  succeeds.
\<close>

definition RequestEmailCode ::
  "World \<Rightarrow> (string \<Rightarrow> string \<Rightarrow> bool) option \<Rightarrow> bytes \<Rightarrow> clock \<Rightarrow> time \<Rightarrow> string \<Rightarrow> Store
     \<Rightarrow> (failure + unit) \<times> Store" where
  "RequestEmailCode w mailer buf clk now email st =
     (if RegistrationMode (st_Cfg st) \<noteq> ''email'' then (Inl (App (New 403 RegistrationDisabled)), st)
      else case mailer of
        None \<Rightarrow> (Inl (App (New 503 TemporarilyUnavailable)), st)
      | Some send \<Rightarrow>
          (case Email (w_tbl w) email of
             None \<Rightarrow> (Inl (App (New 400 InvalidRequest)), st)
           | Some norm \<Rightarrow>
               if exists_row (\<lambda>_ r. u_auth_provider r = ''local''
                    \<and> (case u_email r of None \<Rightarrow> False | Some e \<Rightarrow> w_lower w e = w_lower w norm))
                    (users (st_Pool st))
               then (Inl (App (New 409 IdempotencyConflict)), st)
               else if (case fmlookup (email_codes (st_Pool st)) norm of
                          None \<Rightarrow> False
                        | Some r \<Rightarrow> ec_purpose r = ''register'' \<and> now - ec_sent_at r < seconds 60)
               then (Inl (App (New 429 RateLimited)), st)
               else
                 let code = randomDigits buf in
                 (case upsert_email_code norm
                         \<lparr>ec_purpose = ''register'', ec_code_hash = EmailCodeHash norm ''register'' code,
                          ec_attempts = 0, ec_sent_at = clk 0, ec_expires_at = clk 1 + seconds 900\<rparr>
                         (st_Pool st) of
                    Inl e \<Rightarrow> (Inl e, st)
                  | Inr db \<Rightarrow>
                      let st = st\<lparr>st_Pool := db\<rparr> in
                      if send norm code then (Inr (), st)
                      else (Inl (App (New 503 TemporarilyUnavailable)), st))))"

section \<open>User names for external accounts\<close>

definition sha256Hex :: "string \<Rightarrow> string" where
  "sha256Hex v =
     concat (map (\<lambda>b. let hex = (\<lambda>n. if n < 10 then digit n else chr (87 + n)) in
       [hex (unat b div 16), hex (unat b mod 16)]) (sha256 (bytes_of v)))"

definition is_space_rune :: "nat \<Rightarrow> bool" where
  "is_space_rune r \<longleftrightarrow> r \<in> {9, 10, 11, 12, 13, 32, 133, 160, 5760, 8232, 8233, 8239, 8287, 12288}
     \<or> 8192 \<le> r \<and> r \<le> 8202"

definition sanitize_rune :: "nat \<Rightarrow> string" where
  "sanitize_rune r =
     (if (97 \<le> r \<and> r \<le> 122) \<or> (48 \<le> r \<and> r \<le> 57) \<or> r = 95 then [chr r]
      else if r = 46 \<or> r = 45 \<or> is_space_rune r then ''_'' else [])"

text \<open>\<open>strings.Trim(s, "_")\<close> and one round of \<open>strings.ReplaceAll(s, "__", "_")\<close>.\<close>

definition trim_under :: "string \<Rightarrow> string" where
  "trim_under s = rev (dropWhile (\<lambda>c. c = CHR ''_'') (rev (dropWhile (\<lambda>c. c = CHR ''_'') s)))"

fun replace_under :: "string \<Rightarrow> string" where
  "replace_under (a # b # s) =
     (if a = CHR ''_'' \<and> b = CHR ''_'' then CHR ''_'' # replace_under s else a # replace_under (b # s))"
| "replace_under s = s"

lemma replace_under_le: "length (replace_under s) \<le> length s"
  by (induction s rule: replace_under.induct) auto

lemma replace_under_less: "Contains s ''__'' \<Longrightarrow> length (replace_under s) < length s"
proof (induction s rule: replace_under.induct)
  case (1 a b s)
  show ?case
  proof (cases "a = CHR ''_'' \<and> b = CHR ''_''")
    case True
    with replace_under_le [of s] show ?thesis by simp
  next
    case False
    with 1 show ?thesis by (auto simp: HasPrefix_def)
  qed
qed (auto simp: HasPrefix_def)

function collapse_under :: "string \<Rightarrow> string" where
  "collapse_under s = (if Contains s ''__'' then collapse_under (replace_under s) else s)"
  by auto
termination
  by (relation "measure length") (simp_all add: replace_under_less)

declare collapse_under.simps [simp del]

definition sanitizeUsername :: "(nat \<Rightarrow> nat) \<Rightarrow> string \<Rightarrow> string" where
  "sanitizeUsername tbl account =
     (let name = collapse_under (trim_under
                   (concat (map sanitize_rune (runes (ToLower tbl (TrimSpace account))))));
          name = (if length name > 32 then take 32 name else name)
      in if length name < 3 then [] else name)"

text \<open>The candidate names in order, from the i-th on.\<close>

definition next_name :: "string \<Rightarrow> string \<Rightarrow> nat \<Rightarrow> string" where
  "next_name base subject i =
     (let suffix = take 6 (sha256Hex (subject @ '':'' @ FormatInt (int i)));
          trim = (if 32 - 1 - length suffix < 3 then 3 else 32 - 1 - length suffix)
      in if length base > trim then take trim base @ ''_'' @ suffix else base @ ''_'' @ suffix)"

primrec try_names :: "string \<Rightarrow> string \<Rightarrow> DB \<Rightarrow> string \<Rightarrow> nat list \<Rightarrow> failure + string" where
  "try_names base subject db name [] = Inl (App (New 409 IdempotencyConflict))"
| "try_names base subject db name (i # is) =
     (if \<not> exists_row (\<lambda>_ r. u_username r = name) (users db) then Inr name
      else try_names base subject db (next_name base subject i) is)"

definition uniqueExternalUsername :: "World \<Rightarrow> string \<Rightarrow> string \<Rightarrow> DB \<Rightarrow> failure + string" where
  "uniqueExternalUsername w account subject db =
     (let base = sanitizeUsername (w_tbl w) account;
          base = (if base = [] then ''u_'' @ take 14 (sha256Hex subject) else base)
      in try_names base subject db base [0..<8])"

section \<open>Login\<close>

definition login_device :: "clock \<Rightarrow> LoginInput \<Rightarrow> uuid \<Rightarrow> DB \<Rightarrow> failure + DB" where
  "login_device clk in' userID db =
     (case fmlookup (devices db) (userID, li_DeviceID in') of
        None \<Rightarrow>
          insert_device userID (li_DeviceID in')
            \<lparr>d_name = li_DeviceName in', d_platform = li_Platform in', d_created_at = clk 0,
             d_last_seen_at = Some (clk 1), d_revoked_at = None\<rparr> db
      | Some d \<Rightarrow>
          if d_revoked_at d \<noteq> None then Inl (App (New 403 DeviceRevoked))
          else Inr (touch_device (clk 0) userID (li_DeviceID in') db))"

definition login_finish :: "Fresh \<Rightarrow> clock \<Rightarrow> LoginInput \<Rightarrow> uuid \<Rightarrow> DB \<Rightarrow> failure + (AuthResult \<times> DB)" where
  "login_finish fr clk in' userID db =
     bind_res (login_device clk in' userID db)
     (\<lambda>db.
     bind_res (issueSession (shift 2 clk) fr userID (li_DeviceID in') (f_family fr) db)
     (\<lambda>((pair, _), db).
     Inr (auth_result pair userID (li_DeviceID in') (vaultInitialized db userID), db)))"

definition local_email :: "World \<Rightarrow> string \<Rightarrow> user_row \<Rightarrow> bool" where
  "local_email w ident r \<longleftrightarrow> u_auth_provider r = ''local''
     \<and> (case u_email r of None \<Rightarrow> False | Some e \<Rightarrow> w_lower w e = w_lower w ident)"

definition localUserExists :: "World \<Rightarrow> string \<Rightarrow> DB \<Rightarrow> bool" where
  "localUserExists w ident db =
     (let ident = TrimSpace ident in
      exists_row (\<lambda>_ r. u_auth_provider r = ''local'' \<and> (u_username r = ident \<or> local_email w ident r))
        (users db))"

definition loginLocal_tx :: "World \<Rightarrow> Fresh \<Rightarrow> clock \<Rightarrow> LoginInput \<Rightarrow> DB \<Rightarrow> failure + (AuthResult \<times> DB)" where
  "loginLocal_tx w fr clk in' db =
     (let ident = TrimSpace (li_Username in');
          found = (case find_row (\<lambda>_ r. u_username r = ident) (users db) of
                     Some ur \<Rightarrow> Some ur
                   | None \<Rightarrow>
                       if Contains ident ''@'' then find_row (\<lambda>_. local_email w ident) (users db) else None)
      in case found of
        None \<Rightarrow> Inl (App (New 401 Unauthenticated))
      | Some (userID, r) \<Rightarrow>
          if u_auth_provider r \<noteq> ''local'' then Inl (App (New 401 Unauthenticated))
          else if Verify (w_idkey w) (li_Password in') (u_password_hash r) \<noteq> Some True
          then Inl (App (New 401 Unauthenticated))
          else if u_status r \<noteq> ''active'' then Inl (App (New 401 Unauthenticated))
          else login_finish fr clk in' userID db)"

text \<open>
  For a known account the error of the email update is ignored; a statement that fails aborts
  the PostgreSQL transaction, so every later statement of it fails.
\<close>

definition loginExternal_tx ::
  "World \<Rightarrow> Fresh \<Rightarrow> clock \<Rightarrow> LoginInput \<Rightarrow> ExtUser \<Rightarrow> DB \<Rightarrow> failure + (AuthResult \<times> DB)" where
  "loginExternal_tx w fr clk in' ext db =
     (let email = (if xu_Email ext \<noteq> [] then Email (w_tbl w) (xu_Email ext) else None) in
      case find_row (\<lambda>_ r. u_auth_provider r = ''external'' \<and> u_external_subject r = Some (xu_Subject ext))
             (users db) of
        None \<Rightarrow>
          bind_res (uniqueExternalUsername w (xu_Account ext) (xu_Subject ext) db)
          (\<lambda>username.
          bind_res
            (unique_conflict
              (insert_user (w_lower w) (f_user fr)
                 \<lparr>u_username = username, u_password_hash = ''!'', u_status = ''active'',
                  u_created_at = clk 0, u_email = email,
                  u_email_verified_at = map_option (\<lambda>_. clk 1) email,
                  u_auth_provider = ''external'', u_external_subject = Some (xu_Subject ext)\<rparr> db))
          (\<lambda>db.
          bind_res (insert_sync (f_user fr) db)
          (\<lambda>db. login_finish fr (shift 2 clk) in' (f_user fr) db)))
      | Some (userID, r) \<Rightarrow>
          (case (case email of
                   None \<Rightarrow> Inr db
                 | Some norm \<Rightarrow> update_user (w_lower w) userID (\<lambda>r. r\<lparr>u_email := Some norm\<rparr>) db) of
             Inl _ \<Rightarrow>
               if u_status r \<noteq> ''active'' then Inl (App (New 401 Unauthenticated)) else Inl (Db TxAborted)
           | Inr db \<Rightarrow>
               if u_status r \<noteq> ''active'' then Inl (App (New 401 Unauthenticated))
               else login_finish fr (shift 2 clk) in' userID db))"

definition loginExternal ::
  "World \<Rightarrow> (string \<Rightarrow> string \<Rightarrow> failure + ExtUser) option \<Rightarrow> Fresh \<Rightarrow> clock \<Rightarrow> LoginInput \<Rightarrow> Store
     \<Rightarrow> (failure + AuthResult) \<times> Store" where
  "loginExternal w external fr clk in' st =
     (case external of
        None \<Rightarrow> (Inl (App (New 503 TemporarilyUnavailable)), st)
      | Some verify \<Rightarrow>
          (case verify (li_Username in') (li_Password in') of
             Inl e \<Rightarrow> (Inl e, st)
           | Inr ext \<Rightarrow>
               if xu_Subject ext = [] then (Inl (App (New 401 Unauthenticated)), st)
               else run_tx (loginExternal_tx w fr clk in' ext) st))"

definition Login ::
  "World \<Rightarrow> (string \<Rightarrow> string \<Rightarrow> failure + ExtUser) option \<Rightarrow> Fresh \<Rightarrow> clock \<Rightarrow> LoginInput \<Rightarrow> Store
     \<Rightarrow> (failure + AuthResult) \<times> Store" where
  "Login w external fr clk in' st =
     (if RegistrationMode (st_Cfg st) = ''external'' then
        if localUserExists w (li_Username in') (st_Pool st) then run_tx (loginLocal_tx w fr clk in') st
        else loginExternal w external fr clk in' st
      else run_tx (loginLocal_tx w fr clk in') st)"

section \<open>Authentication, refresh and logout\<close>

text \<open>
  The JOIN of a session with its device and its user.  Zero or one row: the hashes are unique.
\<close>

definition session_join ::
  "(session_row \<Rightarrow> bool) \<Rightarrow> DB \<Rightarrow> (uuid \<times> session_row \<times> device_row \<times> user_row) option" where
  "session_join P db =
     (case find_row (\<lambda>_. P) (sessions db) of
        None \<Rightarrow> None
      | Some (i, s) \<Rightarrow>
          (case (fmlookup (devices db) (s_user_id s, s_device_id s), fmlookup (users db) (s_user_id s)) of
             (Some d, Some u) \<Rightarrow> Some (i, s, d, u)
           | _ \<Rightarrow> None))"

definition LookupAccess :: "clock \<Rightarrow> time \<Rightarrow> string \<Rightarrow> Store \<Rightarrow> (failure + Scope) \<times> Store" where
  "LookupAccess clk now accessToken st =
     (if \<not> Token accessToken then (Inl (App (New 401 Unauthenticated)), st)
      else case session_join (\<lambda>s. s_access_hash s = HashToken accessToken) (st_Pool st) of
        None \<Rightarrow> (Inl (App (New 401 Unauthenticated)), st)
      | Some (i, s, d, u) \<Rightarrow>
          if u_status u \<noteq> ''active'' then (Inl (App (New 401 Unauthenticated)), st)
          else if d_revoked_at d \<noteq> None then (Inl (App (New 403 DeviceRevoked)), st)
          else if s_revoked_at s \<noteq> None then (Inl (App (New 401 Unauthenticated)), st)
          else if \<not> s_expires_at s > now then (Inl (App (New 401 TokenExpired)), st)
          else
            (Inr \<lparr>sc_UserID = s_user_id s, sc_DeviceID = s_device_id s, sc_SessionID = i,
                  sc_FamilyID = s_family_id s\<rparr>,
             st\<lparr>st_Pool := touch_device (clk 0) (s_user_id s) (s_device_id s) (st_Pool st)\<rparr>))"

text \<open>The exchange of a refresh token with the given hash, if the token was not used before.\<close>

definition refresh_tx :: "Fresh \<Rightarrow> clock \<Rightarrow> time \<Rightarrow> bytes \<Rightarrow> DB \<Rightarrow> failure + (TokenPair \<times> DB)" where
  "refresh_tx fr clk now hash db =
     (case session_join (\<lambda>s. s_refresh_hash s = hash) db of
        None \<Rightarrow> Inl (App (New 401 Unauthenticated))
      | Some (i, s, d, u) \<Rightarrow>
          if u_status u \<noteq> ''active'' \<or> s_revoked_at s \<noteq> None
          then Inl (App (New 401 Unauthenticated))
          else if d_revoked_at d \<noteq> None then Inl (App (New 403 DeviceRevoked))
          else if \<not> s_refresh_expires_at s > now then Inl (App (New 401 Unauthenticated))
          else
            let (access, accessHash) = RandomToken (f_access fr);
                (newRefresh, newRefreshHash) = RandomToken (f_refresh fr)
            in bind_res
                 (insert_used_refresh hash
                    \<lparr>t_family_id = s_family_id s, t_expires_at = s_refresh_expires_at s\<rparr> db)
               (\<lambda>db.
               bind_res
                 (update_session_returning i
                    (\<lambda>s. s\<lparr>s_access_hash := accessHash, s_refresh_hash := newRefreshHash,
                           s_expires_at := clk 0 + seconds 900\<rparr>) db)
               (\<lambda>(s, db).
               Inr (\<lparr>tp_AccessToken = access, tp_RefreshToken = newRefresh,
                     tp_TokenType = ''Bearer'', tp_ExpiresIn = 900,
                     tp_RefreshExpiresAt = s_refresh_expires_at s\<rparr>, db))))"

definition Refresh ::
  "Fresh \<Rightarrow> clock \<Rightarrow> time \<Rightarrow> string \<Rightarrow> Store \<Rightarrow> (failure + TokenPair) \<times> Store" where
  "Refresh fr clk now refreshToken st =
     (if \<not> Token refreshToken then (Inl (App (New 401 Unauthenticated)), st)
      else
        let hash = HashToken refreshToken in
        case fmlookup (used_refresh_tokens (st_Pool st)) hash of
          Some t \<Rightarrow>
            (Inl (App (New 401 Unauthenticated)),
             st\<lparr>st_Pool := revoke_sessions (clk 0) (\<lambda>_ s. s_family_id s = t_family_id t) (st_Pool st)\<rparr>)
        | None \<Rightarrow> run_tx (refresh_tx fr clk now hash) st)"

definition Logout :: "clock \<Rightarrow> Scope \<Rightarrow> Store \<Rightarrow> Store" where
  "Logout clk scope st =
     st\<lparr>st_Pool := revoke_sessions (clk 0) (\<lambda>k _. k = sc_SessionID scope) (st_Pool st)\<rparr>"

section \<open>Passwords and devices\<close>

definition close_user :: "uuid \<Rightarrow> Store \<Rightarrow> Store" where
  "close_user u st = st\<lparr>st_Hub := map_option (CloseUser u) (st_Hub st)\<rparr>"

definition close_device :: "uuid \<Rightarrow> uuid \<Rightarrow> Store \<Rightarrow> Store" where
  "close_device u d st = st\<lparr>st_Hub := map_option (CloseDevice u d) (st_Hub st)\<rparr>"

definition set_password :: "World \<Rightarrow> clock \<Rightarrow> string \<Rightarrow> uuid \<Rightarrow> DB \<Rightarrow> failure + (unit \<times> DB)" where
  "set_password w clk hash u db =
     bind_res (update_user (w_lower w) u (\<lambda>r. r\<lparr>u_password_hash := hash\<rparr>) db)
     (\<lambda>db. Inr ((), revoke_sessions (clk 0) (\<lambda>_ s. s_user_id s = u) db))"

definition ChangePassword ::
  "World \<Rightarrow> Fresh \<Rightarrow> clock \<Rightarrow> Scope \<Rightarrow> string \<Rightarrow> string \<Rightarrow> Store \<Rightarrow> (failure + unit) \<times> Store" where
  "ChangePassword w fr clk scope current next st =
     (case run_tx
             (\<lambda>db.
               case fmlookup (users db) (sc_UserID scope) of
                 None \<Rightarrow> Inl (Db NoRows)
               | Some r \<Rightarrow>
                   if u_auth_provider r \<noteq> ''local'' then Inl (App (New 403 RegistrationDisabled))
                   else if Verify (w_idkey w) current (u_password_hash r) \<noteq> Some True
                   then Inl (App (New 401 Unauthenticated))
                   else set_password w clk (Hash (w_idkey w) (f_salt fr) next) (sc_UserID scope) db) st of
        (Inl e, st) \<Rightarrow> (Inl e, st)
      | (Inr _, st) \<Rightarrow> (Inr (), close_user (sc_UserID scope) st))"

definition ResetPassword ::
  "World \<Rightarrow> Fresh \<Rightarrow> clock \<Rightarrow> string \<Rightarrow> string \<Rightarrow> Store \<Rightarrow> (failure + unit) \<times> Store" where
  "ResetPassword w fr clk username password st =
     (case run_tx
             (\<lambda>db.
               case find_row (\<lambda>_ r. u_username r = username) (users db) of
                 None \<Rightarrow> Inl (App (New 404 NotFound))
               | Some (u, _) \<Rightarrow>
                   bind_res (set_password w clk (Hash (w_idkey w) (f_salt fr) password) u db)
                   (\<lambda>(_, db). Inr (u, db))) st of
        (Inl e, st) \<Rightarrow> (Inl e, st)
      | (Inr u, st) \<Rightarrow> (Inr (), close_user u st))"

definition ListDevices :: "Scope \<Rightarrow> Store \<Rightarrow> Device list" where
  "ListDevices scope st =
     map (\<lambda>(i, r). \<lparr>dv_ID = i, dv_Name = d_name r, dv_Platform = d_platform r,
                    dv_CreatedAt = d_created_at r, dv_LastSeenAt = d_last_seen_at r,
                    dv_RevokedAt = d_revoked_at r\<rparr>)
       (sort_key (\<lambda>(_, r). d_created_at r)
         (map (\<lambda>((_, i), r). (i, r)) (filter (\<lambda>((u, _), _). u = sc_UserID scope) (rows (devices (st_Pool st))))))"

definition revoke_tx :: "clock \<Rightarrow> uuid \<Rightarrow> uuid \<Rightarrow> DB \<Rightarrow> failure + (unit \<times> DB)" where
  "revoke_tx clk u deviceID db =
     (case fmlookup (devices db) (u, deviceID) of
        None \<Rightarrow> Inl (App (New 404 NotFound))
      | Some d \<Rightarrow>
          let db = (if d_revoked_at d = None
                    then db\<lparr>devices := fmupd (u, deviceID) (d\<lparr>d_revoked_at := Some (clk 0)\<rparr>) (devices db)\<rparr>
                    else db)
          in Inr ((), revoke_sessions (clk 1) (\<lambda>_ s. s_user_id s = u \<and> s_device_id s = deviceID) db))"

definition RevokeDevice :: "clock \<Rightarrow> Scope \<Rightarrow> uuid \<Rightarrow> Store \<Rightarrow> (failure + unit) \<times> Store" where
  "RevokeDevice clk scope deviceID st =
     (case run_tx (revoke_tx clk (sc_UserID scope) deviceID) st of
        (Inl e, st) \<Rightarrow> (Inl e, st)
      | (Inr _, st) \<Rightarrow> (Inr (), close_device (sc_UserID scope) deviceID st))"

section \<open>Vaults\<close>

definition GetVault :: "Scope \<Rightarrow> Store \<Rightarrow> failure + VaultEnvelope" where
  "GetVault scope st =
     (case fmlookup (vaults (st_Pool st)) (sc_UserID scope) of
        None \<Rightarrow> Inl (App (New 404 VaultNotInitialized))
      | Some v \<Rightarrow>
          Inr \<lparr>ve_VaultID = v_id v, ve_FormatVersion = v_format_version v, ve_KeyEpoch = v_key_epoch v,
               ve_WrapSalt = Encode (v_wrap_salt v), ve_WrapNonce = Encode (v_wrap_nonce v),
               ve_WrappedKey = Encode (v_wrapped_key v),
               ve_PasswordWrap =
                 (case v_password v of
                    None \<Rightarrow> None
                  | Some p \<Rightarrow>
                      if length (pw_WrappedKey p) > 0 then
                        Some \<lparr>pe_KDF = pw_KDF p, pe_Time = pw_Time p, pe_Memory = pw_Memory p,
                              pe_Parallelism = pw_Parallelism p, pe_KDFSalt = Encode (pw_KDFSalt p),
                              pe_WrapSalt = Encode (pw_WrapSalt p), pe_WrapNonce = Encode (pw_WrapNonce p),
                              pe_WrappedKey = Encode (pw_WrappedKey p)\<rparr>
                      else None)\<rparr>)"

definition InitVault ::
  "Scope \<Rightarrow> VaultEnvelope \<Rightarrow> bytes \<Rightarrow> bytes \<Rightarrow> bytes \<Rightarrow> PasswordWrapRaw option \<Rightarrow> Store
     \<Rightarrow> (failure + unit) \<times> Store" where
  "InitVault scope env salt nonce wrapped pw st =
     run_tx
       (\<lambda>db.
         if has_row (vaults db) (sc_UserID scope) then Inl (App (New 412 VaultExists))
         else case insert_vault (sc_UserID scope)
                     \<lparr>v_id = ve_VaultID env, v_format_version = ve_FormatVersion env,
                      v_key_epoch = ve_KeyEpoch env, v_wrap_salt = salt, v_wrap_nonce = nonce,
                      v_wrapped_key = wrapped, v_password = pw\<rparr> db of
           Inl e \<Rightarrow> if isUnique e then Inl (App (New 412 VaultExists)) else Inl e
         | Inr db \<Rightarrow> Inr ((), db)) st"

definition PutPasswordWrap :: "Scope \<Rightarrow> PasswordWrapRaw \<Rightarrow> Store \<Rightarrow> (failure + unit) \<times> Store" where
  "PutPasswordWrap scope pw st =
     run_tx
       (\<lambda>db.
         bind_res (update_vault_wrap (sc_UserID scope) pw db)
         (\<lambda>(n, db). if n \<noteq> 1 then Inl (App (New 404 VaultNotInitialized)) else Inr ((), db))) st"

section \<open>Administration\<close>

text \<open>\<open>ttl\<close> is the life time of the invite; \<open>now\<close> the Go clock.\<close>

definition CreateInvite :: "bytes \<Rightarrow> time \<Rightarrow> time \<Rightarrow> Store \<Rightarrow> (failure + (string \<times> time)) \<times> Store" where
  "CreateInvite raw now ttl st =
     (let (plain, hash) = RandomToken raw; exp = now + ttl in
      run_tx (\<lambda>db. bind_res (insert_invite hash \<lparr>i_expires_at = exp, i_consumed_at = None\<rparr> db)
                     (\<lambda>db. Inr ((plain, exp), db))) st)"

text \<open>Three statements, each a transaction of its own; the fresh epoch is the argument.\<close>

definition RotateSyncEpoch :: "clock \<Rightarrow> uuid \<Rightarrow> Store \<Rightarrow> (failure + string) \<times> Store" where
  "RotateSyncEpoch clk fresh st =
     (let db = st_Pool st in
      case server_state db of
        None \<Rightarrow> (Inl (Db NoRows), st)
      | Some ss \<Rightarrow>
          (Inr fresh,
           st\<lparr>st_Pool := (revoke_sessions (clk 0) (\<lambda>_ _. True)
                (db\<lparr>server_state := Some (ss\<lparr>sync_epoch := fresh\<rparr>)\<rparr>))
              \<lparr>snapshot_sessions := fmempty\<rparr>\<rparr>))"

end
