(* ===== verification/Clips.thy ===== *)
theory Clips
  imports Store
begin

text \<open>
  Clip creation, reading, listing and the trash, restore and purge mutations
  (server/internal/store/clips.go).  The argument \<open>clk\<close> gives the successive readings of
  \<open>clock_timestamp()\<close> the operation takes, in program order; gaps in the indices are readings
  a branch does not take.  Every write transaction locks the user's row of
  \<open>user_sync_state\<close> first, so the transactions of one user are serialised, and a transaction
  is one step of the model.
\<close>

record CreateResult =
  cr_Receipt :: MutationReceipt
  cr_Created :: bool

section \<open>Creation\<close>

definition create_tx ::
  "Config \<Rightarrow> clock \<Rightarrow> Scope \<Rightarrow> Envelope \<Rightarrow> bytes \<Rightarrow> bytes \<Rightarrow> bytes \<Rightarrow> DB \<Rightarrow> failure + (CreateResult \<times> DB)"
where
  "create_tx cfg clk scope env nonce ciphertext reqHash db =
     (let u = sc_UserID scope; c = env_ID env in
      if \<not> (case fmlookup (vaults db) u of
              None \<Rightarrow> False
            | Some v \<Rightarrow> v_id v = env_VaultID env \<and> v_key_epoch v = env_KeyEpoch env)
      then Inl (App (New 400 InvalidRequest))
      else if (case fmlookup (devices db) (u, sc_DeviceID scope) of
                 None \<Rightarrow> True
               | Some d \<Rightarrow> d_revoked_at d \<noteq> None)
      then Inl (App (New 403 DeviceRevoked))
      else case fmlookup (clip_ids db) (u, c) of
        Some r \<Rightarrow>
          if ci_request_hash r \<noteq> reqHash then Inl (App (New 409 IdempotencyConflict))
          else Inr (\<lparr>cr_Receipt =
                       \<lparr>mr_ID = c, mr_Status = ''active'', mr_Version = 1,
                        mr_Seq = FormatSeq (ci_created_seq r), mr_CreatedAt = Some (ci_created_at r),
                        mr_DeletedAt = None, mr_ExpiresAt = None\<rparr>,
                     cr_Created = False\<rparr>, db)
      | None \<Rightarrow>
          (case fmlookup (user_sync_state db) u of
             None \<Rightarrow> Inl (Db NoRows)
           | Some s \<Rightarrow>
               if item_count s + 1 > MaxItems cfg
                  \<or> i64 (ciphertext_bytes s + int (length ciphertext)) > MaxCiphertextBytes cfg
               then Inl (App (New 409 QuotaExceeded))
               else
                 bind_res
                   (update_sync u
                      (\<lambda>s. s\<lparr>next_seq := next_seq s + 1, item_count := item_count s + 1,
                             ciphertext_bytes := ciphertext_bytes s + int (length ciphertext)\<rparr>) db)
                 (\<lambda>(seq, db).
                 let created = clk 0 in
                 bind_res
                   (insert_clip_id u c
                      \<lparr>ci_request_hash = reqHash, ci_created_seq = seq, ci_created_at = created,
                       ci_final_version = None, ci_final_seq = None, ci_purged_at = None\<rparr> db)
                 (\<lambda>db.
                 bind_res
                   (insert_clip u c
                      \<lparr>c_source_device_id = env_SourceDeviceID env, c_vault_id = env_VaultID env,
                       c_key_epoch = env_KeyEpoch env, c_format_version = env_FormatVersion env,
                       c_content_type = env_ContentType env, c_nonce = nonce,
                       c_ciphertext = ciphertext, c_delivery_intent = env_DeliveryIntent env,
                       c_status = ''active'', c_version = 1, c_created_seq = seq, c_last_seq = seq,
                       c_created_at = created, c_deleted_at = None, c_expires_at = None\<rparr> db)
                 (\<lambda>db.
                 bind_res
                   (insert_event u seq
                      \<lparr>e_clip_id = c, e_kind = ''clip.created'', e_version = 1,
                       e_occurred_at = created\<rparr> db)
                 (\<lambda>db.
                 Inr (\<lparr>cr_Receipt =
                         \<lparr>mr_ID = c, mr_Status = ''active'', mr_Version = 1, mr_Seq = FormatSeq seq,
                          mr_CreatedAt = Some created, mr_DeletedAt = None, mr_ExpiresAt = None\<rparr>,
                       cr_Created = True\<rparr>, db)))))))"

definition CreateClip ::
  "clock \<Rightarrow> Scope \<Rightarrow> Envelope \<Rightarrow> bytes \<Rightarrow> bytes \<Rightarrow> bytes \<Rightarrow> Store \<Rightarrow> (failure + CreateResult) \<times> Store"
where
  "CreateClip clk scope env nonce ciphertext reqHash st =
     (if env_SourceDeviceID env \<noteq> sc_DeviceID scope then (Inl (App (New 400 InvalidRequest)), st)
      else case run_tx (create_tx (st_Cfg st) clk scope env nonce ciphertext reqHash) st of
        (Inl e, st) \<Rightarrow> (Inl e, st)
      | (Inr r, st) \<Rightarrow> (Inr r, if cr_Created r then notify (sc_UserID scope) st else st))"

section \<open>Reading\<close>

definition clip_of_row :: "uuid \<Rightarrow> clip_row \<Rightarrow> Clip" where
  "clip_of_row clipID r =
     \<lparr>env_ID = clipID, env_VaultID = c_vault_id r, env_SourceDeviceID = c_source_device_id r,
      env_FormatVersion = c_format_version r, env_KeyEpoch = c_key_epoch r,
      env_ContentType = c_content_type r, env_Nonce = Encode (c_nonce r),
      env_Ciphertext = Encode (c_ciphertext r), env_DeliveryIntent = c_delivery_intent r,
      cl_Status = c_status r, cl_Version = c_version r, cl_CreatedSeq = FormatSeq (c_created_seq r),
      cl_LastSeq = FormatSeq (c_last_seq r), cl_CreatedAt = c_created_at r,
      cl_DeletedAt = c_deleted_at r, cl_ExpiresAt = c_expires_at r\<rparr>"

definition scanClip :: "DB \<Rightarrow> uuid \<Rightarrow> uuid \<Rightarrow> Clip option" where
  "scanClip db userID clipID = map_option (clip_of_row clipID) (fmlookup (clips db) (userID, clipID))"

definition GetClip :: "clock \<Rightarrow> Scope \<Rightarrow> uuid \<Rightarrow> Store \<Rightarrow> failure + Clip" where
  "GetClip clk scope clipID st =
     (case scanClip (st_Pool st) (sc_UserID scope) clipID of
        Some clip \<Rightarrow>
          (case (cl_Status clip = ''trash'', cl_ExpiresAt clip) of
             (True, Some e) \<Rightarrow>
               if clk 0 \<ge> e then
                 Inl (App (WithDetails 410 TrashExpired
                   [(''id'', DStr clipID), (''status'', DStr ''trash''), (''version'', DInt (cl_Version clip)),
                    (''seq'', DStr (cl_LastSeq clip)), (''expires_at'', DTime (Some e))]))
               else Inr clip
           | _ \<Rightarrow> Inr clip)
      | None \<Rightarrow>
          (case fmlookup (clip_ids (st_Pool st)) (sc_UserID scope, clipID) of
             None \<Rightarrow> Inl (App (New 404 NotFound))
           | Some r \<Rightarrow>
               (case (ci_final_version r, ci_final_seq r) of
                  (Some finalVersion, Some finalSeq) \<Rightarrow>
                    if ci_purged_at r \<noteq> None then
                      Inl (App (WithDetails 410 ClipPurged
                        [(''id'', DStr clipID), (''status'', DStr ''purged''),
                         (''version'', DInt finalVersion), (''seq'', DStr (FormatSeq finalSeq))]))
                    else Inl (App (New 404 NotFound))
                | _ \<Rightarrow> Inl Other)))"

section \<open>Mutations\<close>

definition conflict :: "string \<Rightarrow> Clip \<Rightarrow> failure" where
  "conflict clipID clip =
     App (WithDetails 412 VersionConflict
       [(''id'', DStr clipID), (''status'', DStr (cl_Status clip)),
        (''version'', DInt (cl_Version clip)), (''seq'', DStr (cl_LastSeq clip))])"

text \<open>
  The trash branch reads the clock twice in one UPDATE: once for \<open>deleted_at\<close>, once for
  \<open>expires_at\<close>; the third reading is the default of \<open>sync_events.occurred_at\<close>.
\<close>

definition bump ::
  "clock \<Rightarrow> Scope \<Rightarrow> Clip \<Rightarrow> string \<Rightarrow> string \<Rightarrow> bool \<Rightarrow> DB \<Rightarrow> failure + (MutationReceipt \<times> DB)" where
  "bump clk scope clip status eventKind trash db =
     (let u = sc_UserID scope; c = env_ID clip in
      bind_res (update_sync u (\<lambda>s. s\<lparr>next_seq := next_seq s + 1\<rparr>) db)
      (\<lambda>(seq, db).
      let version = cl_Version clip + 1 in
      bind_res
        (if trash then
           bind_res
             (update_clip_returning u c
                (\<lambda>r. r\<lparr>c_status := ''trash'', c_version := version, c_last_seq := seq,
                       c_deleted_at := Some (clk 0), c_expires_at := Some (clk 1 + hours 168)\<rparr>) db)
             (\<lambda>(r, db). Inr (c_deleted_at r, c_expires_at r, db))
         else
           bind_res
             (update_clip u c
                (\<lambda>r. r\<lparr>c_status := ''active'', c_version := version, c_last_seq := seq,
                       c_deleted_at := None, c_expires_at := None\<rparr>) db)
             (\<lambda>db. Inr (None, None, db)))
      (\<lambda>(deleted, expires, db).
      bind_res
        (insert_event u seq
           \<lparr>e_clip_id = c, e_kind = eventKind, e_version = version, e_occurred_at = clk 2\<rparr> db)
      (\<lambda>db.
      Inr (\<lparr>mr_ID = c, mr_Status = status, mr_Version = version, mr_Seq = FormatSeq seq,
            mr_CreatedAt = None, mr_DeletedAt = deleted, mr_ExpiresAt = expires\<rparr>, db)))))"

definition purgeLocked :: "clock \<Rightarrow> Scope \<Rightarrow> Clip \<Rightarrow> DB \<Rightarrow> failure + (MutationReceipt \<times> DB)" where
  "purgeLocked clk scope clip db =
     (let u = sc_UserID scope; c = env_ID clip in
      case fmlookup (clips db) (u, c) of
        None \<Rightarrow> Inl (Db NoRows)
      | Some row \<Rightarrow>
          let cipherLen = int (length (c_ciphertext row)) in
          bind_res
            (update_sync u
               (\<lambda>s. s\<lparr>next_seq := next_seq s + 1, item_count := item_count s - 1,
                      ciphertext_bytes := ciphertext_bytes s - cipherLen\<rparr>) db)
          (\<lambda>(seq, db).
          let version = cl_Version clip + 1; db = delete_clip u c db in
          bind_res
            (update_clip_id u c
               (\<lambda>r. r\<lparr>ci_final_version := Some version, ci_final_seq := Some seq,
                      ci_purged_at := Some (clk 0)\<rparr>) db)
          (\<lambda>db.
          bind_res
            (insert_event u seq
               \<lparr>e_clip_id = c, e_kind = ''clip.purged'', e_version = version,
                e_occurred_at = clk 1\<rparr> db)
          (\<lambda>db.
          Inr (\<lparr>mr_ID = c, mr_Status = ''purged'', mr_Version = version, mr_Seq = FormatSeq seq,
                mr_CreatedAt = None, mr_DeletedAt = None, mr_ExpiresAt = None\<rparr>, db)))))"

definition applyMutation ::
  "clock \<Rightarrow> Scope \<Rightarrow> string \<Rightarrow> string \<Rightarrow> int \<Rightarrow> DB \<Rightarrow> failure + (MutationReceipt \<times> DB)" where
  "applyMutation clk scope clipID kind expectedVersion db =
     (let u = sc_UserID scope in
      case scanClip db u clipID of
        None \<Rightarrow>
          (case fmlookup (clip_ids db) (u, clipID) of
             None \<Rightarrow> Inl (App (New 404 NotFound))
           | Some r \<Rightarrow>
               (case (ci_purged_at r, ci_final_version r, ci_final_seq r) of
                  (Some _, Some finalVersion, Some finalSeq) \<Rightarrow>
                    Inl (App (WithDetails 410 ClipPurged
                      [(''id'', DStr clipID), (''status'', DStr ''purged''),
                       (''version'', DInt finalVersion), (''seq'', DStr (FormatSeq finalSeq))]))
                | _ \<Rightarrow> Inl (App (New 404 NotFound))))
      | Some clip \<Rightarrow>
          if cl_Version clip \<noteq> expectedVersion then Inl (conflict clipID clip)
          else if kind = ''trash'' then
            (if cl_Status clip \<noteq> ''active'' then Inl (conflict clipID clip)
             else bump clk scope clip ''trash'' ''clip.trashed'' True db)
          else if kind = ''restore'' then
            (if cl_Status clip \<noteq> ''trash'' then Inl (conflict clipID clip)
             else case cl_ExpiresAt clip of
               None \<Rightarrow> Inl Other
             | Some e \<Rightarrow>
                 if clk 0 \<ge> e then
                   Inl (App (WithDetails 410 TrashExpired
                     [(''id'', DStr clipID), (''status'', DStr ''trash''),
                      (''version'', DInt (cl_Version clip)), (''seq'', DStr (cl_LastSeq clip)),
                      (''expires_at'', DTime (cl_ExpiresAt clip))]))
                 else bump (shift 1 clk) scope clip ''active'' ''clip.restored'' False db)
          else if kind = ''purge'' then
            (if cl_Status clip \<noteq> ''trash'' then Inl (conflict clipID clip)
             else purgeLocked clk scope clip db)
          else Inl (App (New 400 InvalidRequest)))"

text \<open>\<open>SELECT ... FROM operation_receipts WHERE ... AND expires_at > clock_timestamp()\<close>.\<close>

definition live_receipt :: "time \<Rightarrow> uuid \<Rightarrow> string \<Rightarrow> DB \<Rightarrow> receipt_row option" where
  "live_receipt t u operationID db =
     (case fmlookup (operation_receipts db) (u, operationID) of
        None \<Rightarrow> None
      | Some r \<Rightarrow> if r_expires_at r > t then Some r else None)"

text \<open>The flag of the result tells a fresh mutation from a replayed receipt.\<close>

definition mutate_tx ::
  "clock \<Rightarrow> Scope \<Rightarrow> string \<Rightarrow> string \<Rightarrow> string \<Rightarrow> int \<Rightarrow> bytes \<Rightarrow> DB
     \<Rightarrow> failure + ((MutationReceipt \<times> bool) \<times> DB)" where
  "mutate_tx clk scope clipID operationID kind expectedVersion reqHash db =
     (let u = sc_UserID scope in
      case live_receipt (clk 0) u operationID db of
        Some r \<Rightarrow>
          if r_request_hash r \<noteq> reqHash then Inl (App (New 409 IdempotencyConflict))
          else Inr ((r_response_body r, False), db)
      | None \<Rightarrow>
          bind_res (applyMutation (shift 1 clk) scope clipID kind expectedVersion db)
          (\<lambda>(receipt, db).
          bind_res
            (insert_receipt u operationID
               \<lparr>r_request_hash = reqHash, r_response_status = 200, r_response_body = receipt,
                r_expires_at = clk 5 + days 30\<rparr> db)
          (\<lambda>db. Inr ((receipt, True), db))))"

definition MutateClip ::
  "clock \<Rightarrow> Scope \<Rightarrow> string \<Rightarrow> string \<Rightarrow> string \<Rightarrow> int \<Rightarrow> bytes \<Rightarrow> Store
     \<Rightarrow> (failure + MutationReceipt) \<times> Store" where
  "MutateClip clk scope clipID operationID kind expectedVersion reqHash st =
     (case run_tx (mutate_tx clk scope clipID operationID kind expectedVersion reqHash) st of
        (Inl e, st) \<Rightarrow> (Inl e, st)
      | (Inr (receipt, fresh), st) \<Rightarrow>
          (Inr receipt, if fresh then notify (sc_UserID scope) st else st))"

end
