(* ===== verification/Pager.thy ===== *)
theory Pager
  imports Prelude
begin

text \<open>
  The interface of keyset pagination.  A provider serves the items of an ordered source page by
  page: a page holds the items after the cursor, at most n of them, and its next cursor is the
  key of its last item exactly if items are left.  A client that follows the cursors collects
  the whole source, each item once and in order, in at most one page per item and a last one.
  ListClips and Changes are providers; the pages of a snapshot session, whose source changes while
  they are read, are the subject of Rescan.
\<close>

primrec walk :: "('k option \<Rightarrow> 'a list \<times> 'k option) \<Rightarrow> nat \<Rightarrow> 'k option \<Rightarrow> 'a list" where
  "walk page 0 k = []"
| "walk page (Suc fuel) k =
     (let (items, next) = page k in
      items @ (case next of None \<Rightarrow> [] | Some k' \<Rightarrow> walk page fuel (Some k')))"

definition past :: "('k \<Rightarrow> 'k \<Rightarrow> bool) \<Rightarrow> ('a \<Rightarrow> 'k) \<Rightarrow> 'k option \<Rightarrow> 'a \<Rightarrow> bool" where
  "past before key k x = (case k of None \<Rightarrow> True | Some k \<Rightarrow> before k (key x))"

definition remaining :: "'a list \<Rightarrow> ('a \<Rightarrow> 'k) \<Rightarrow> ('k \<Rightarrow> 'k \<Rightarrow> bool) \<Rightarrow> 'k option \<Rightarrow> 'a list" where
  "remaining src key before k = filter (past before key k) src"

lemma past_simps [simp]:
  "past before key None = (\<lambda>x. True)" "past before key (Some k) = (\<lambda>x. before k (key x))"
  by (simp_all add: past_def fun_eq_iff)

lemma filter_after_nth:
  assumes "sorted_wrt R xs" and "\<And>x. \<not> R x x" and "\<And>x y z. R x y \<Longrightarrow> R y z \<Longrightarrow> R x z"
    and "m < length xs"
  shows "filter (R (xs ! m)) xs = drop (Suc m) xs"
  using assms(1,4)
proof (induction xs arbitrary: m)
  case (Cons x xs)
  show ?case
  proof (cases m)
    case 0
    with Cons.prems assms(2) show ?thesis by (simp add: filter_id_conv)
  next
    case (Suc k)
    with Cons.prems have "R x (xs ! k)" by simp
    then have "\<not> R (xs ! k) x" using assms(2,3) by blast
    with Cons Suc show ?thesis by simp
  qed
qed simp

locale pager =
  fixes src :: "'a list" and key :: "'a \<Rightarrow> 'k" and before :: "'k \<Rightarrow> 'k \<Rightarrow> bool"
    and page :: "nat \<Rightarrow> 'k option \<Rightarrow> 'a list \<times> 'k option"
  assumes before_irrefl: "\<not> before i i"
    and before_trans: "before i j \<Longrightarrow> before j k \<Longrightarrow> before i k"
    and ordered: "sorted_wrt (\<lambda>x y. before (key x) (key y)) src"
    and page_items: "0 < n \<Longrightarrow> fst (page n q) = take n (remaining src key before q)"
    and page_next: "0 < n \<Longrightarrow> snd (page n q) =
      (if n < length (remaining src key before q)
       then Some (key (remaining src key before q ! (n - 1))) else None)"
begin

abbreviation rest :: "'k option \<Rightarrow> 'a list" where
  "rest k \<equiv> remaining src key before k"

lemma rest_None [simp]: "rest None = src"
  by (simp add: remaining_def)

lemma rest_ordered: "sorted_wrt (\<lambda>x y. before (key x) (key y)) (rest k)"
  unfolding remaining_def using ordered by (rule sorted_wrt_filter)

lemma rest_next:
  assumes m: "m < length (rest k)"
  shows "rest (Some (key (rest k ! m))) = drop (Suc m) (rest k)"
proof -
  let ?b = "\<lambda>x. before (key (rest k ! m)) (key x)"
  from m have "rest k ! m \<in> set (rest k)" by (rule nth_mem)
  then have "past before key k (rest k ! m)" by (simp add: remaining_def)
  then have "past before key k x" if "?b x" for x
    using that by (cases k) (auto intro: before_trans)
  then have "filter ?b src = filter ?b (rest k)"
    unfolding remaining_def filter_filter by (intro filter_cong) auto
  also have "\<dots> = drop (Suc m) (rest k)"
    by (rule filter_after_nth [OF rest_ordered _ _ m]) (auto simp: before_irrefl intro: before_trans)
  finally show ?thesis by (simp add: remaining_def)
qed

lemma page_length: "0 < n \<Longrightarrow> length (fst (page n k)) \<le> n"
  by (simp add: page_items)

lemma walk_rest: "0 < n \<Longrightarrow> length (rest k) < fuel \<Longrightarrow> walk (page n) fuel k = rest k"
proof (induction fuel arbitrary: k)
  case (Suc fuel)
  obtain items nxt where p: "page n k = (items, nxt)" by (cases "page n k")
  with page_items [OF Suc.prems(1), of k] page_next [OF Suc.prems(1), of k]
  have items: "items = take n (rest k)"
    and nxt: "nxt = (if n < length (rest k) then Some (key (rest k ! (n - 1))) else None)" by auto
  show ?case
  proof (cases "n < length (rest k)")
    case True
    let ?k = "Some (key (rest k ! (n - 1)))"
    from True Suc.prems(1) have d: "rest ?k = drop n (rest k)"
      using rest_next [of "n - 1" k] by simp
    with True Suc.prems have "walk (page n) fuel ?k = drop n (rest k)"
      using Suc.IH [OF Suc.prems(1), of ?k] by simp
    with True show ?thesis by (simp add: p items nxt)
  next
    case False
    then show ?thesis by (simp add: p items nxt)
  qed
qed simp

lemma walk_all: "0 < n \<Longrightarrow> length src < fuel \<Longrightarrow> walk (page n) fuel None = src"
  using walk_rest [of n None fuel] by simp

end

end
