(* ===== verification/Listing.thy ===== *)
theory Listing
  imports Clips Pager
begin

text \<open>
  The listing of clips and its page tokens (ListClips and ParsePageToken of
  server/internal/store/clips.go).  ListClips is a pager over the matching rows in the order
  \<open>created_seq DESC, id DESC\<close>; the page token carries the key of the last row.
\<close>

section \<open>Rows of a user\<close>

definition user_clips :: "DB \<Rightarrow> uuid \<Rightarrow> (uuid \<times> clip_row) list" where
  "user_clips db u = map (\<lambda>((_, c), r). (c, r)) (filter (\<lambda>((v, _), _). v = u) (rows (clips db)))"

lemma set_user_clips [simp]: "(c, r) \<in> set (user_clips db u) \<longleftrightarrow> fmlookup (clips db) (u, c) = Some r"
  by (force simp: user_clips_def)

lemma distinct_user_clips [simp]: "distinct (map fst (user_clips db u))"
proof -
  have "map fst (user_clips db u) = map snd (filter (\<lambda>k. fst k = u) (keys_sorted (clips db)))"
    by (simp add: user_clips_def rows_def filter_map comp_def case_prod_beta)
  moreover have "inj_on snd (set (filter (\<lambda>k. fst k = u) (keys_sorted (clips db))))"
    by (auto simp: inj_on_def)
  ultimately show ?thesis by (simp add: distinct_map)
qed

lemma distinct_user_clips_rows [simp]: "distinct (user_clips db u)"
  using distinct_user_clips by (simp add: distinct_map)

section \<open>Cutting a page\<close>

text \<open>
  The queries ask for one row more than the limit; the extra row says that a next page exists
  and is dropped.
\<close>

definition cut_page :: "int \<Rightarrow> 'a list \<Rightarrow> 'a list \<times> 'a option" where
  "cut_page limit items =
     (if int (length items) > limit then (take (nat limit) items, Some (last (take (nat limit) items)))
      else (items, None))"

lemma cut_page_take:
  assumes "0 < n"
  shows "fst (cut_page (int n) (take (Suc n) xs)) = take n xs"
    and "snd (cut_page (int n) (take (Suc n) xs)) = (if n < length xs then Some (xs ! (n - 1)) else None)"
proof -
  show "fst (cut_page (int n) (take (Suc n) xs)) = take n xs"
    by (auto simp: cut_page_def min_def)
  show "snd (cut_page (int n) (take (Suc n) xs)) = (if n < length xs then Some (xs ! (n - 1)) else None)"
    using assms last_in_take [of "n - 1" xs] by (auto simp: cut_page_def min_def)
qed

section \<open>ListClips\<close>

record ListFilter =
  lf_Status :: string
  lf_SourceDeviceID :: string
  lf_Since :: "time option"
  lf_Until :: "time option"
  lf_AfterSeq :: "int option"
  lf_AfterID :: string
  lf_Limit :: int

definition nilUUID :: "string \<Rightarrow> string option" where
  "nilUUID v = (if v = [] then None else Some v)"

definition list_match :: "time \<Rightarrow> ListFilter \<Rightarrow> uuid \<times> clip_row \<Rightarrow> bool" where
  "list_match t f cr \<longleftrightarrow>
     (let r = snd cr in
      c_status r = lf_Status f
      \<and> (case nilUUID (lf_SourceDeviceID f) of None \<Rightarrow> True | Some d \<Rightarrow> c_source_device_id r = d)
      \<and> (case lf_Since f of None \<Rightarrow> True | Some a \<Rightarrow> c_created_at r \<ge> a)
      \<and> (case lf_Until f of None \<Rightarrow> True | Some b \<Rightarrow> c_created_at r < b)
      \<and> (c_status r \<noteq> ''trash'' \<or> (case c_expires_at r of None \<Rightarrow> False | Some e \<Rightarrow> e > t)))"

text \<open>
  \<open>(created_seq, id) < ($6, $7)\<close>: a null \<open>$7\<close> leaves the comparison of the sequence numbers.
\<close>

definition list_after :: "ListFilter \<Rightarrow> uuid \<times> clip_row \<Rightarrow> bool" where
  "list_after f cr =
     (case lf_AfterSeq f of
        None \<Rightarrow> True
      | Some s \<Rightarrow>
          c_created_seq (snd cr) < s
          \<or> c_created_seq (snd cr) = s
            \<and> (case nilUUID (lf_AfterID f) of None \<Rightarrow> False | Some i \<Rightarrow> fst cr < i))"

definition list_key :: "uuid \<times> clip_row \<Rightarrow> int \<times> uuid" where
  "list_key cr = (c_created_seq (snd cr), fst cr)"

definition list_rows :: "DB \<Rightarrow> time \<Rightarrow> uuid \<Rightarrow> ListFilter \<Rightarrow> (uuid \<times> clip_row) list" where
  "list_rows db t u f =
     rev (sort_key list_key (filter (\<lambda>cr. list_match t f cr \<and> list_after f cr) (user_clips db u)))"

definition ListClips :: "clock \<Rightarrow> time \<Rightarrow> Scope \<Rightarrow> ListFilter \<Rightarrow> Store \<Rightarrow> ClipPage" where
  "ListClips clk now scope f st =
     (let f = (if lf_Limit f \<le> 0 then f\<lparr>lf_Limit := 100\<rparr> else f);
          (items, last) =
            cut_page (lf_Limit f)
              (map (\<lambda>(c, r). clip_of_row c r)
                 (take (nat (lf_Limit f + 1)) (list_rows (st_Pool st) (clk 0) (sc_UserID scope) f)))
      in \<lparr>pg_Items = items,
          pg_NextPageToken = map_option (\<lambda>l. cl_CreatedSeq l @ ''|'' @ env_ID l) last,
          pg_ServerTime = now\<rparr>)"

section \<open>Page tokens\<close>

function indexOf_from :: "string \<Rightarrow> string \<Rightarrow> nat \<Rightarrow> int" where
  "indexOf_from s sep i =
     (if i + length sep \<le> length s then
        if take (length sep) (drop i s) = sep then int i else indexOf_from s sep (Suc i)
      else - 1)"
  by auto
termination by (relation "measure (\<lambda>(s, sep, i). Suc (length s) - i)") auto

definition indexOf :: "string \<Rightarrow> string \<Rightarrow> int" where
  "indexOf s sep = indexOf_from s sep 0"

definition splitOnce :: "string \<Rightarrow> string \<Rightarrow> (string \<times> string) option" where
  "splitOnce s sep =
     (let i = indexOf s sep in
      if i < 0 then None else Some (take (nat i) s, drop (nat i + length sep) s))"

definition ParsePageToken :: "string \<Rightarrow> failure + (int \<times> string)" where
  "ParsePageToken token =
     (case splitOnce token ''|'' of
        None \<Rightarrow> Inl (App (New 400 InvalidRequest))
      | Some (seqS, i) \<Rightarrow>
          (case ParseInt seqS of
             None \<Rightarrow> Inl (App (New 400 InvalidRequest))
           | Some seq \<Rightarrow>
               if \<not> UUID i then Inl (App (New 400 InvalidRequest)) else Inr (seq, i)))"

declare indexOf_from.simps [simp del]

lemma indexOf_from_bar:
  assumes "CHR ''|'' \<notin> set a" and "i \<le> length a"
  shows "indexOf_from (a @ CHR ''|'' # b) ''|'' i = int (length a)"
  using assms(2)
proof (induction "length a - i" arbitrary: i)
  case 0
  then have "i = length a" by simp
  then show ?case by (simp add: indexOf_from.simps)
next
  case (Suc k)
  then have i: "i < length a" by simp
  with assms(1) have "take 1 (drop i (a @ CHR ''|'' # b)) \<noteq> ''|''"
    by (simp add: take_Suc_conv_app_nth nth_append flip: Cons_nth_drop_Suc) (metis nth_mem)
  with i Suc show ?case by (subst indexOf_from.simps) simp
qed

lemma splitOnce_bar: "CHR ''|'' \<notin> set a \<Longrightarrow> splitOnce (a @ ''|'' @ b) ''|'' = Some (a, b)"
  by (simp add: splitOnce_def indexOf_def indexOf_from_bar Let_def)

lemma bar_not_digit: "\<not> is_digit (CHR ''|'')"
  by (simp add: is_digit_def ord_def)

lemma bar_FormatSeq: "CHR ''|'' \<notin> set (FormatSeq n)"
  using show_nat_digits [of "nat n"] show_nat_digits [of "nat (- n)"] bar_not_digit
  by (auto simp: FormatSeq_def FormatInt_def list_all_iff)

lemma ParsePageToken_token:
  "in_int8 s \<Longrightarrow> UUID c \<Longrightarrow> ParsePageToken (FormatSeq s @ ''|'' @ c) = Inr (s, c)"
  by (simp only: ParsePageToken_def splitOnce_bar [OF bar_FormatSeq] option.case prod.case)
    (simp add: FormatSeq_def ParseInt_FormatInt)

section \<open>ListClips is a pager\<close>

definition cursor :: "(int \<times> uuid) option \<Rightarrow> ListFilter \<Rightarrow> ListFilter" where
  "cursor q f =
     f\<lparr>lf_AfterSeq := map_option fst q, lf_AfterID := (case q of None \<Rightarrow> [] | Some (_, c) \<Rightarrow> c)\<rparr>"

definition list_page ::
  "DB \<Rightarrow> time \<Rightarrow> uuid \<Rightarrow> ListFilter \<Rightarrow> nat \<Rightarrow> (int \<times> uuid) option
     \<Rightarrow> (uuid \<times> clip_row) list \<times> (int \<times> uuid) option" where
  "list_page db t u f n q =
     (let (items, last) = cut_page (int n) (take (Suc n) (list_rows db t u (cursor q f)))
      in (items, map_option list_key last))"

text \<open>Everything the filter matches, in listing order.\<close>

definition listing :: "DB \<Rightarrow> time \<Rightarrow> uuid \<Rightarrow> ListFilter \<Rightarrow> (uuid \<times> clip_row) list" where
  "listing db t u f = rev (sort_key list_key (filter (list_match t f) (user_clips db u)))"

lemma set_listing [simp]:
  "(c, r) \<in> set (listing db t u f) \<longleftrightarrow> fmlookup (clips db) (u, c) = Some r \<and> list_match t f (c, r)"
  by (auto simp: listing_def)

lemma list_match_cursor [simp]: "list_match t (cursor q f) = list_match t f"
  by (simp add: list_match_def cursor_def fun_eq_iff)

lemma list_after_cursor:
  "list_after (cursor q f) = past (\<lambda>a b. b < a) list_key q"
  by (cases q) (auto simp: list_after_def cursor_def list_key_def nilUUID_def fun_eq_iff
      less_prod_def split: prod.splits)

lemma filter_sort_key: "filter P (sort_key f xs) = sort_key f (filter P xs)"
  by (rule filter_sort)

lemma list_rows_remaining:
  "list_rows db t u (cursor q f) = remaining (listing db t u f) list_key (\<lambda>a b. b < a) q"
  by (simp add: list_rows_def listing_def remaining_def list_after_cursor rev_filter [symmetric]
      filter_sort_key conj_commute)

lemma listing_ordered:
  "sorted_wrt (\<lambda>x y. list_key y < list_key x) (listing db t u f)"
proof -
  let ?xs = "sort_key list_key (filter (list_match t f) (user_clips db u))"
  have "distinct (map list_key ?xs)"
    using distinct_user_clips [of db u]
    by (auto simp: distinct_map inj_on_def list_key_def)
  then have "sorted_wrt (<) (map list_key ?xs)"
    by (simp add: strict_sorted_iff del: set_sort distinct_sort)
  then show ?thesis
    by (simp add: listing_def sorted_wrt_rev sorted_wrt_map)
qed

lemma list_page_cut:
  assumes "0 < n"
  shows "fst (list_page db t u f n q) = take n (remaining (listing db t u f) list_key (\<lambda>a b. b < a) q)"
    and "snd (list_page db t u f n q) =
      (if n < length (remaining (listing db t u f) list_key (\<lambda>a b. b < a) q)
       then Some (list_key (remaining (listing db t u f) list_key (\<lambda>a b. b < a) q ! (n - 1))) else None)"
  using assms unfolding list_page_def Let_def case_prod_beta list_rows_remaining fst_conv snd_conv
  by (simp_all only: cut_page_take) simp

interpretation lists: pager "listing db t u f" list_key "\<lambda>a b. b < a" "list_page db t u f" for db t u f
  by unfold_locales (simp_all only: listing_ordered list_page_cut order_less_irrefl less_trans not_False_eq_True)

section \<open>A client that follows the tokens\<close>

text \<open>
  The i-th page of the walk is served under the i-th clock; the walk ends at the page without
  a token.
\<close>

primrec fetch_all :: "(nat \<Rightarrow> clock) \<Rightarrow> time \<Rightarrow> Scope \<Rightarrow> Store \<Rightarrow> nat \<Rightarrow> ListFilter \<Rightarrow> Clip list" where
  "fetch_all clks now scope st 0 f = []"
| "fetch_all clks now scope st (Suc fuel) f =
     (let page = ListClips (clks fuel) now scope f st in
      pg_Items page @
      (case pg_NextPageToken page of
         None \<Rightarrow> []
       | Some token \<Rightarrow>
           (case ParsePageToken token of
              Inl _ \<Rightarrow> []
            | Inr (s, c) \<Rightarrow>
                fetch_all clks now scope st fuel (f\<lparr>lf_AfterSeq := Some s, lf_AfterID := c\<rparr>))))"

text \<open>The identifiers and sequence numbers the database holds are those the tokens can carry.\<close>

definition ids_ok :: "DB \<Rightarrow> uuid \<Rightarrow> bool" where
  "ids_ok db u \<longleftrightarrow>
     (\<forall>c r. fmlookup (clips db) (u, c) = Some r \<longrightarrow> UUID c \<and> in_int8 (c_created_seq r))"

lemma cut_page_map:
  "0 < n \<Longrightarrow> cut_page (int n) (map g xs) = (map g (fst (cut_page (int n) xs)), map_option g (snd (cut_page (int n) xs)))"
  by (cases "take n xs") (auto simp: cut_page_def take_map last_map)

lemma ListClips_page:
  assumes "lf_Limit f = int n" and "0 < n"
  shows "pg_Items (ListClips clk now scope (cursor q f) st) =
      map (\<lambda>(c, r). clip_of_row c r)
        (fst (list_page (st_Pool st) (clk 0) (sc_UserID scope) f n q))"
    and "pg_NextPageToken (ListClips clk now scope (cursor q f) st) =
      map_option (\<lambda>(s, c). FormatSeq s @ ''|'' @ c)
        (snd (list_page (st_Pool st) (clk 0) (sc_UserID scope) f n q))"
proof -
  have l: "lf_Limit (cursor q f) = int n" using assms(1) by (simp add: cursor_def)
  have n: "\<not> int n \<le> 0" "nat (int n + 1) = Suc n" using assms(2) by auto
  show "pg_Items (ListClips clk now scope (cursor q f) st) =
      map (\<lambda>(c, r). clip_of_row c r) (fst (list_page (st_Pool st) (clk 0) (sc_UserID scope) f n q))"
    using assms(2) by (simp add: ListClips_def Let_def l n cut_page_map [OF assms(2)] list_page_def case_prod_beta
        del: of_nat_Suc take_Suc_Cons)
  show "pg_NextPageToken (ListClips clk now scope (cursor q f) st) =
      map_option (\<lambda>(s, c). FormatSeq s @ ''|'' @ c)
        (snd (list_page (st_Pool st) (clk 0) (sc_UserID scope) f n q))"
    using assms(2) by (simp add: ListClips_def Let_def l n cut_page_map [OF assms(2)] list_page_def case_prod_beta
        option.map_comp comp_def list_key_def clip_of_row_def)
qed

lemma list_page_time:
  "lf_Status f \<noteq> ''trash'' \<Longrightarrow> list_page db t u f n q = list_page db t' u f n q"
proof -
  assume "lf_Status f \<noteq> ''trash''"
  then have "list_match t f = list_match t' f" by (auto simp: list_match_def fun_eq_iff Let_def)
  then show ?thesis by (simp add: list_page_def list_rows_def)
qed

lemma list_page_next_ok:
  assumes "ids_ok db u" and "0 < n" and "snd (list_page db t u f n q) = Some (s, c)"
  shows "UUID c" and "in_int8 s"
proof -
  let ?rest = "remaining (listing db t u f) list_key (\<lambda>a b. b < a) q"
  from assms(2,3) have "n < length ?rest" and k: "(s, c) = list_key (?rest ! (n - 1))"
    by (auto simp: lists.page_next split: if_splits)
  then have "?rest ! (n - 1) \<in> set ?rest" by simp
  then have "?rest ! (n - 1) \<in> set (listing db t u f)" by (auto simp: remaining_def)
  with k obtain r where "fmlookup (clips db) (u, c) = Some r" "s = c_created_seq r"
    by (cases "?rest ! (n - 1)") (auto simp: list_key_def)
  with assms(1) show "UUID c" and "in_int8 s" by (auto simp: ids_ok_def)
qed

lemma fetch_all_walk:
  assumes "ids_ok (st_Pool st) (sc_UserID scope)" and "lf_Status f \<noteq> ''trash''"
    and "lf_Limit f = int n" and "0 < n"
  shows "fetch_all clks now scope st fuel (cursor q f) =
    map (\<lambda>(c, r). clip_of_row c r)
      (walk (list_page (st_Pool st) t (sc_UserID scope) f n) fuel q)"
proof (induction fuel arbitrary: q)
  case (Suc fuel)
  let ?p = "list_page (st_Pool st) t (sc_UserID scope) f n q"
  have p: "list_page (st_Pool st) (clks fuel 0) (sc_UserID scope) f n q = ?p"
    using assms(2) by (rule list_page_time)
  show ?case
  proof (cases "snd ?p")
    case None
    then show ?thesis
      by (simp add: ListClips_page [OF assms(3,4)] p Let_def case_prod_beta)
  next
    case (Some k)
    obtain s c where k: "k = (s, c)" by (cases k)
    have tok: "ParsePageToken (FormatSeq s @ ''|'' @ c) = Inr (s, c)"
      using list_page_next_ok [OF assms(1,4) Some [unfolded k]] by (intro ParsePageToken_token)
    have cur: "(cursor q f)\<lparr>lf_AfterSeq := Some s, lf_AfterID := c\<rparr> = cursor (Some k) f"
      by (simp add: cursor_def k)
    have "fetch_all clks now scope st (Suc fuel) (cursor q f) =
        map (\<lambda>(c, r). clip_of_row c r) (fst ?p)
        @ fetch_all clks now scope st fuel (cursor (Some k) f)"
      by (simp only: fetch_all.simps Let_def ListClips_page [OF assms(3,4)] p Some k
          option.map option.case prod.case tok sum.case cur)
    with Suc.IH [of "Some k"] Some show ?thesis
      by (simp add: Let_def case_prod_beta)
  qed
qed simp

end
