(* ===== verification/Sync.thy ===== *)
theory Sync
  imports Listing
begin

text \<open>
  Incremental and full synchronisation (server/internal/store/sync.go): the change feed, and
  snapshot sessions with their pages.
\<close>

section \<open>Changes\<close>

definition user_events :: "DB \<Rightarrow> uuid \<Rightarrow> (int \<times> event_row) list" where
  "user_events db u =
     sort_key fst (map (\<lambda>((_, q), e). (q, e)) (filter (\<lambda>((v, _), _). v = u) (rows (sync_events db))))"

definition events_between :: "DB \<Rightarrow> uuid \<Rightarrow> int \<Rightarrow> int \<Rightarrow> (int \<times> event_row) list" where
  "events_between db u lo hi = filter (\<lambda>(q, _). lo < q \<and> q \<le> hi) (user_events db u)"

definition change_of_row :: "int \<times> event_row \<Rightarrow> Change" where
  "change_of_row qe =
     \<lparr>ch_Seq = FormatSeq (fst qe), ch_ClipID = e_clip_id (snd qe), ch_Kind = e_kind (snd qe),
      ch_Version = e_version (snd qe), ch_OccurredAt = e_occurred_at (snd qe)\<rparr>"

text \<open>
  The transaction runs at PostgreSQL's default isolation level, at which every statement reads
  the database as of its own start: \<open>db0\<close>, \<open>db1\<close> and \<open>db2\<close> are what the query of the epoch, of
  the user's counters and of the events see.  \<open>Changes\<close> is the case without a write in between.
\<close>

definition Changes_read ::
  "clock \<Rightarrow> Scope \<Rightarrow> string \<Rightarrow> int \<Rightarrow> int \<Rightarrow> DB \<Rightarrow> DB \<Rightarrow> DB \<Rightarrow> failure + ChangePage" where
  "Changes_read clk scope epoch after limit db0 db1 db2 =
     (let limit = (if limit \<le> 0 then 100 else limit); u = sc_UserID scope in
      case server_state db0 of
        None \<Rightarrow> Inl (Db NoRows)
      | Some ss \<Rightarrow>
          (case fmlookup (user_sync_state db1) u of
             None \<Rightarrow> Inl (Db NoRows)
           | Some s \<Rightarrow>
               let currentEpoch = sync_epoch ss; high = next_seq s; minAvail = min_available_seq s in
               if epoch \<noteq> currentEpoch \<or> after > high then
                 Inl (App (WithDetails 409 SyncResetRequired
                   [(''sync_epoch'', DStr currentEpoch),
                    (''min_available_seq'', DStr (FormatSeq minAvail))]))
               else if after < minAvail - 1 then
                 Inl (App (WithDetails 410 CursorExpired
                   [(''sync_epoch'', DStr currentEpoch),
                    (''min_available_seq'', DStr (FormatSeq minAvail))]))
               else
                 let events = map change_of_row (take (nat limit) (events_between db2 u after high));
                     next = (if events \<noteq> [] then
                               (case Seq (ch_Seq (last events)) of None \<Rightarrow> 0 | Some n \<Rightarrow> n)
                             else after)
                 in Inr \<lparr>cp_SyncEpoch = currentEpoch, cp_Events = events, cp_NextSeq = FormatSeq next,
                         cp_HighWatermark = FormatSeq high, cp_HasMore = (next < high),
                         cp_ServerTime = clk 0\<rparr>))"

definition Changes :: "clock \<Rightarrow> Scope \<Rightarrow> string \<Rightarrow> int \<Rightarrow> int \<Rightarrow> Store \<Rightarrow> failure + ChangePage" where
  "Changes clk scope epoch after limit st =
     Changes_read clk scope epoch after limit (st_Pool st) (st_Pool st) (st_Pool st)"

section \<open>Snapshots\<close>

definition BeginSnapshot ::
  "clock \<Rightarrow> bytes \<Rightarrow> Scope \<Rightarrow> Store \<Rightarrow> (failure + Snapshot) \<times> Store" where
  "BeginSnapshot clk raw scope st =
     (let (plain, hash) = RandomToken raw in
      run_tx
        (\<lambda>db.
          case (server_state db, fmlookup (user_sync_state db) (sc_UserID scope)) of
            (Some ss, Some s) \<Rightarrow>
              let exp = clk 0 + seconds 900 in
              bind_res
                (insert_snapshot hash
                   \<lparr>n_user_id = sc_UserID scope, n_device_id = sc_DeviceID scope,
                    n_base_seq = next_seq s, n_sync_epoch = sync_epoch ss, n_expires_at = exp\<rparr> db)
              (\<lambda>db. Inr (\<lparr>sn_Token = plain, sn_BaseSeq = FormatSeq (next_seq s),
                          sn_SyncEpoch = sync_epoch ss, sn_ExpiresAt = exp\<rparr>, db))
          | _ \<Rightarrow> Inl (Db NoRows)) st)"

definition zero_uuid :: uuid where
  "zero_uuid = ''00000000-0000-0000-0000-000000000000''"

definition snapshot_match :: "time \<Rightarrow> int \<Rightarrow> uuid \<times> clip_row \<Rightarrow> bool" where
  "snapshot_match t base cr \<longleftrightarrow>
     (let r = snd cr in
      c_created_seq r \<le> base
      \<and> (c_status r = ''active''
         \<or> c_status r = ''trash'' \<and> (case c_expires_at r of None \<Rightarrow> False | Some e \<Rightarrow> e > t)))"

definition snapshot_rows :: "DB \<Rightarrow> time \<Rightarrow> uuid \<Rightarrow> int \<Rightarrow> uuid \<Rightarrow> (uuid \<times> clip_row) list" where
  "snapshot_rows db t u base after =
     sort_key fst (filter (\<lambda>cr. snapshot_match t base cr \<and> after < fst cr) (user_clips db u))"

definition SnapshotPage ::
  "clock \<Rightarrow> Scope \<Rightarrow> string \<Rightarrow> string \<Rightarrow> int \<Rightarrow> Store \<Rightarrow> failure + Snapshot_page" where
  "SnapshotPage clk scope token afterID limit st =
     (if \<not> Token token then Inl (App (New 410 SnapshotExpired))
      else
        let limit = (if limit \<le> 0 then 100 else limit); db = st_Pool st in
        case fmlookup (snapshot_sessions db) (HashToken token) of
          None \<Rightarrow> Inl (App (New 410 SnapshotExpired))
        | Some n \<Rightarrow>
            if n_user_id n \<noteq> sc_UserID scope \<or> n_device_id n \<noteq> sc_DeviceID scope
            then Inl (App (New 404 NotFound))
            else
              (case server_state db of
                 None \<Rightarrow> Inl (Db NoRows)
               | Some ss \<Rightarrow>
                   if sync_epoch ss \<noteq> n_sync_epoch n then
                     Inl (App (WithDetails 409 SyncResetRequired [(''sync_epoch'', DStr (sync_epoch ss))]))
                   else if clk 0 \<ge> n_expires_at n then Inl (App (New 410 SnapshotExpired))
                   else if afterID \<noteq> [] \<and> \<not> UUID afterID then Inl (App (New 400 InvalidRequest))
                   else
                     let after = (if afterID \<noteq> [] then afterID else zero_uuid);
                         (items, last) =
                           cut_page limit
                             (map (\<lambda>(c, r). clip_of_row c r)
                               (take (nat (limit + 1))
                                 (snapshot_rows db (clk 1) (sc_UserID scope) (n_base_seq n) after)))
                     in Inr \<lparr>sp_BaseSeq = FormatSeq (n_base_seq n), sp_SyncEpoch = n_sync_epoch n,
                             sp_Items = items, sp_NextPageToken = map_option env_ID last,
                             sp_ServerTime = clk 2\<rparr>))"

end
