(* ===== verification/Http.thy ===== *)
theory Http
  imports Json GoTime Auth Clips Listing Sync
begin

text \<open>
  The HTTP layer (server/internal/httpapi/router.go): requests and responses, the bodies the
  handlers decode, and the checks they share.

  A request is what \<open>net/http\<close> hands to the multiplexer: the segments of its path, already
  unescaped, of a path the multiplexer neither cleans nor redirects; the first value of every
  header and query parameter; the bytes of the body.  A response is the status, the headers
  the handler sets, and the value it encodes as JSON.
\<close>

record Request =
  rq_Method :: string
  rq_Path :: "string list"
  rq_Query :: "(string \<times> string) list"
  rq_Header :: "(string \<times> string) list"
  rq_Body :: string
  rq_RemoteAddr :: string

text \<open>\<open>Header.Get\<close> and \<open>Values.Get\<close>.\<close>

definition Get :: "(string \<times> string) list \<Rightarrow> string \<Rightarrow> string" where
  "Get h k = (case map_of h k of None \<Rightarrow> [] | Some v \<Rightarrow> v)"

record ServerInfo =
  si_Stage :: string
  si_SyncAvailable :: bool
  si_RegistrationMode :: string
  si_EmailVerification :: bool
  si_MinPasswordChars :: int
  si_MaxTextBytes :: int
  si_MaxRequestBytes :: int
  si_TrashRetentionSeconds :: int
  si_ExternalRegisterURL :: "string option"

text \<open>The values a handler encodes; the message and the random id of an error are not kept.\<close>

datatype payload =
    PStage string
  | PInfo ServerInfo
  | PError Code "(string \<times> detail) list option"
  | PAuth AuthResult
  | PTokens TokenPair
  | PDevices "Device list"
  | PVault VaultEnvelope
  | PReceipt MutationReceipt
  | PClips ClipPage
  | PClip Clip
  | PChanges ChangePage
  | PSnapshot Snapshot
  | PSnapshotPage Snapshot_page

record Response =
  rs_Status :: int
  rs_Header :: "(string \<times> string) list"
  rs_Body :: "payload option"

definition json_headers :: "(string \<times> string) list" where
  "json_headers =
     [(''Content-Type'', ''application/json; charset=utf-8''), (''Cache-Control'', ''no-store''),
      (''X-Content-Type-Options'', ''nosniff'')]"

text \<open>The first argument is what the handler has set before.\<close>

definition writeJSON :: "(string \<times> string) list \<Rightarrow> int \<Rightarrow> payload \<Rightarrow> Response" where
  "writeJSON hs status value =
     \<lparr>rs_Status = status, rs_Header = hs @ json_headers, rs_Body = Some value\<rparr>"

definition writeError :: "(string \<times> string) list \<Rightarrow> Error \<Rightarrow> Response" where
  "writeError hs e = writeJSON hs (err_Status e) (PError (err_Code e) (err_Details e))"

definition noContent :: Response where
  "noContent = \<lparr>rs_Status = 204, rs_Header = [], rs_Body = None\<rparr>"

section \<open>Bodies\<close>

record DeviceBody =
  bd_ID :: string
  bd_Name :: string
  bd_Platform :: string

record RegisterBody =
  br_Username :: string
  br_Password :: string
  br_InviteToken :: string
  br_Email :: string
  br_EmailCode :: string
  br_Device :: DeviceBody

record LoginBody =
  bl_Username :: string
  bl_Password :: string
  bl_Device :: DeviceBody

record PasswordBody =
  bp_Current :: string
  bp_New :: string

definition device_fields :: "DeviceBody field list" where
  "device_fields =
     [(''id'', string_field bd_ID_update), (''name'', string_field bd_Name_update),
      (''platform'', string_field bd_Platform_update)]"

definition register_fields :: "RegisterBody field list" where
  "register_fields =
     [(''username'', string_field br_Username_update), (''password'', string_field br_Password_update),
      (''invite_token'', string_field br_InviteToken_update), (''email'', string_field br_Email_update),
      (''email_code'', string_field br_EmailCode_update),
      (''device'', struct_field True device_fields br_Device br_Device_update)]"

definition login_fields :: "LoginBody field list" where
  "login_fields =
     [(''username'', string_field bl_Username_update), (''password'', string_field bl_Password_update),
      (''device'', struct_field True device_fields bl_Device bl_Device_update)]"

definition password_fields :: "PasswordBody field list" where
  "password_fields =
     [(''current_password'', string_field bp_Current_update),
      (''new_password'', string_field bp_New_update)]"

definition wrap_fields :: "PasswordWrap field list" where
  "wrap_fields =
     [(''kdf'', string_field pe_KDF_update), (''time'', int_field pe_Time_update),
      (''memory'', int_field pe_Memory_update), (''parallelism'', int_field pe_Parallelism_update),
      (''kdf_salt'', string_field pe_KDFSalt_update), (''wrap_salt'', string_field pe_WrapSalt_update),
      (''wrap_nonce'', string_field pe_WrapNonce_update),
      (''wrapped_key'', string_field pe_WrappedKey_update)]"

definition zero_device :: DeviceBody where
  "zero_device = \<lparr>bd_ID = [], bd_Name = [], bd_Platform = []\<rparr>"

definition zero_wrap :: PasswordWrap where
  "zero_wrap =
     \<lparr>pe_KDF = [], pe_Time = 0, pe_Memory = 0, pe_Parallelism = 0, pe_KDFSalt = [], pe_WrapSalt = [],
      pe_WrapNonce = [], pe_WrappedKey = []\<rparr>"

definition vault_fields :: "VaultEnvelope field list" where
  "vault_fields =
     [(''vault_id'', string_field ve_VaultID_update), (''format_version'', int_field ve_FormatVersion_update),
      (''key_epoch'', int_field ve_KeyEpoch_update), (''wrap_salt'', string_field ve_WrapSalt_update),
      (''wrap_nonce'', string_field ve_WrapNonce_update),
      (''wrapped_key'', string_field ve_WrappedKey_update),
      (''password_wrap'',
       struct_ptr_field zero_wrap True wrap_fields ve_PasswordWrap ve_PasswordWrap_update)]"

definition envelope_fields :: "Envelope field list" where
  "envelope_fields =
     [(''id'', string_field env_ID_update), (''vault_id'', string_field env_VaultID_update),
      (''source_device_id'', string_field env_SourceDeviceID_update),
      (''format_version'', int_field env_FormatVersion_update),
      (''key_epoch'', int_field env_KeyEpoch_update),
      (''content_type'', string_field env_ContentType_update), (''nonce'', string_field env_Nonce_update),
      (''ciphertext'', string_field env_Ciphertext_update),
      (''delivery_intent'', string_field env_DeliveryIntent_update)]"

definition zero_register :: RegisterBody where
  "zero_register =
     \<lparr>br_Username = [], br_Password = [], br_InviteToken = [], br_Email = [], br_EmailCode = [],
      br_Device = zero_device\<rparr>"

definition zero_login :: LoginBody where
  "zero_login = \<lparr>bl_Username = [], bl_Password = [], bl_Device = zero_device\<rparr>"

definition zero_password :: PasswordBody where
  "zero_password = \<lparr>bp_Current = [], bp_New = []\<rparr>"

definition zero_vault :: VaultEnvelope where
  "zero_vault =
     \<lparr>ve_VaultID = [], ve_FormatVersion = 0, ve_KeyEpoch = 0, ve_WrapSalt = [], ve_WrapNonce = [],
      ve_WrappedKey = [], ve_PasswordWrap = None\<rparr>"

definition zero_envelope :: Envelope where
  "zero_envelope =
     \<lparr>env_ID = [], env_VaultID = [], env_SourceDeviceID = [], env_FormatVersion = 0, env_KeyEpoch = 0,
      env_ContentType = [], env_Nonce = [], env_Ciphertext = [], env_DeliveryIntent = []\<rparr>"

text \<open>
  \<open>decodeJSON\<close> reads at most 131072 bytes and the first JSON value in them.  The limit of
  \<open>MaxBytesHandler\<close> is \<open>cfg.MaxRequestBytes\<close>, which \<open>config.Load\<close> sets to the same number:
  the outer \<open>LimitReader\<close> is at its end before the inner reader could report a body that is
  too large, so the only error is the 400.
\<close>

definition decodeJSON :: "'a field list \<Rightarrow> 'a \<Rightarrow> Request \<Rightarrow> Error + 'a" where
  "decodeJSON fs zero r =
     (case read_value (take 131072 (rq_Body r)) of
        None \<Rightarrow> Inl (New 400 InvalidRequest)
      | Some v \<Rightarrow>
          (case decode_struct True fs v zero of
             None \<Rightarrow> Inl (New 400 InvalidRequest)
           | Some x \<Rightarrow> Inr x))"

section \<open>Checks\<close>

definition device_ok :: "DeviceBody \<Rightarrow> bool" where
  "device_ok d \<longleftrightarrow> UUID (bd_ID d) \<and> DeviceName (bd_Name d) \<and> Platform (bd_Platform d)"

definition clipcryptoKDF :: string where
  "clipcryptoKDF = ''argon2id''"

definition parsePasswordWrap :: "PasswordWrap option \<Rightarrow> Error + PasswordWrapRaw option" where
  "parsePasswordWrap pw =
     (case pw of
        None \<Rightarrow> Inr None
      | Some p \<Rightarrow>
          if pe_KDF p \<noteq> clipcryptoKDF then Inl (New 400 InvalidRequest)
          else if pe_Time p < 1 \<or> pe_Time p > 10 \<or> pe_Memory p < 8192 \<or> pe_Memory p > 262144
                  \<or> pe_Parallelism p < 1 \<or> pe_Parallelism p > 4
          then Inl (New 400 InvalidRequest)
          else case Decode (pe_KDFSalt p) 16 of
            None \<Rightarrow> Inl (New 400 InvalidRequest)
          | Some kdfSalt \<Rightarrow>
              (case Decode (pe_WrapSalt p) 32 of
                 None \<Rightarrow> Inl (New 400 InvalidRequest)
               | Some salt \<Rightarrow>
                   (case Decode (pe_WrapNonce p) 12 of
                      None \<Rightarrow> Inl (New 400 InvalidRequest)
                    | Some nonce \<Rightarrow>
                        (case Decode (pe_WrappedKey p) 48 of
                           None \<Rightarrow> Inl (New 400 InvalidRequest)
                         | Some wrapped \<Rightarrow>
                             Inr (Some \<lparr>pw_KDF = pe_KDF p, pw_Time = pe_Time p,
                                        pw_Memory = pe_Memory p, pw_Parallelism = pe_Parallelism p,
                                        pw_KDFSalt = kdfSalt, pw_WrapSalt = salt,
                                        pw_WrapNonce = nonce, pw_WrappedKey = wrapped\<rparr>)))))"

definition validateEnvelope :: "Envelope \<Rightarrow> Error option" where
  "validateEnvelope env =
     (if \<not> UUID (env_ID env) \<or> \<not> UUID (env_VaultID env) \<or> \<not> UUID (env_SourceDeviceID env)
      then Some (New 400 InvalidRequest)
      else if env_FormatVersion env \<noteq> 1 \<or> env_KeyEpoch env \<noteq> 1 \<or> env_ContentType env \<noteq> ''text/plain''
      then Some (New 400 UnsupportedFormat)
      else if env_DeliveryIntent env \<noteq> ''live'' \<and> env_DeliveryIntent env \<noteq> ''history_only''
      then Some (New 400 InvalidRequest)
      else None)"

definition parseLimit :: "string \<Rightarrow> failure + int" where
  "parseLimit v =
     (if v = [] then Inr 100
      else case Atoi v of
        None \<Rightarrow> Inl (App (New 400 InvalidRequest))
      | Some n \<Rightarrow> if n < 1 \<or> n > 200 then Inl (App (New 400 InvalidRequest)) else Inr n)"

text \<open>An optional time of the query: no parameter, an invalid one, or a time.\<close>

definition query_time :: "string \<Rightarrow> Error + time option" where
  "query_time v =
     (if v = [] then Inr None
      else case ParseRFC3339 v of None \<Rightarrow> Inl (New 400 InvalidRequest) | Some t \<Rightarrow> Inr (Some t))"

section \<open>The rate limiter\<close>

type_synonym hits = "string \<Rightarrow> time list"

text \<open>
  \<open>gateKey\<close>: the times of the last minute are kept, and the request is refused when there are
  n of them already; a refused request is not recorded.  \<open>now\<close> is the clock of the process.
\<close>

definition kept :: "time \<Rightarrow> time list \<Rightarrow> time list" where
  "kept now ts = filter (\<lambda>t. now - seconds 60 < t) ts"

definition gateKey :: "time \<Rightarrow> string \<Rightarrow> int \<Rightarrow> hits \<Rightarrow> Response option \<times> hits" where
  "gateKey now key n hs =
     (if int (length (kept now (hs key))) \<ge> n
      then (Some (writeError [(''Retry-After'', ''60'')] (New 429 RateLimited)), hs)
      else (None, hs(key := kept now (hs key) @ [now])))"

definition gateIP :: "time \<Rightarrow> Request \<Rightarrow> int \<Rightarrow> hits \<Rightarrow> Response option \<times> hits" where
  "gateIP now r n hs = gateKey now (''ip:'' @ rq_RemoteAddr r) n hs"

end
