(* ===== verification/Router.thy ===== *)
theory Router
  imports Http
begin

text \<open>
  The handlers of server/internal/httpapi/router.go, the multiplexer that selects one, and the
  authentication wrapper.  \<open>serve\<close> answers one request: the response and the new state of the
  server.  The semaphore \<open>argon\<close> only delays; the log line of \<open>writeErr\<close> is not kept.
\<close>

record Handler =
  h_cfg :: Config
  h_store :: Store
  h_ready :: bool
  h_loginHits :: hits

text \<open>
  What a request takes from outside: the tables of \<open>unicode\<close> and of the database and the key
  derivation, random bytes, the database clock during \<open>LookupAccess\<close> and during the operation,
  the clock of the process, the mailer, the external account service, the database's answer
  to a ping, and what \<open>websocket.Accept\<close> does: it refuses with a response of its own, or yields
  a connection, whose identity is a number.
\<close>

record Env =
  ev_World :: World
  ev_Fresh :: Fresh
  ev_Random :: bytes
  ev_AuthClk :: clock
  ev_Clk :: clock
  ev_GoClk :: clock
  ev_Mailer :: "(string \<Rightarrow> string \<Rightarrow> bool) option"
  ev_External :: "(string \<Rightarrow> string \<Rightarrow> failure + ExtUser) option"
  ev_Ping :: bool
  ev_Socket :: "Response + nat"

type_synonym handler = "Env \<Rightarrow> Request \<Rightarrow> Handler \<Rightarrow> Response \<times> Handler"
type_synonym authed = "Env \<Rightarrow> Request \<Rightarrow> Scope \<Rightarrow> Handler \<Rightarrow> Response \<times> Handler"

text \<open>How a handler ends: with an error of its own, or with what the store returned.\<close>

definition refuse :: "Error \<Rightarrow> Handler \<Rightarrow> Response \<times> Handler" where
  "refuse e h = (writeError [] e, h)"

definition reply :: "('a \<Rightarrow> Response) \<Rightarrow> Handler \<Rightarrow> (failure + 'a) \<times> Store \<Rightarrow> Response \<times> Handler" where
  "reply ok h = (\<lambda>(x, st).
     (case x of Inl e \<Rightarrow> writeError [] (writeErr e) | Inr y \<Rightarrow> ok y, h\<lparr>h_store := st\<rparr>))"

section \<open>Without authentication\<close>

definition health :: handler where
  "health ev r h = (writeJSON [] 200 (PStage (if h_ready h then ''ready'' else ''skeleton'')), h)"

definition readyz :: handler where
  "readyz ev r h =
     (if \<not> h_ready h then refuse (New 503 NotReady) h
      else if \<not> ev_Ping ev then refuse (New 503 NotReady) h
      else (writeJSON [] 200 (PStage ''ready''), h))"

definition serverInfo :: handler where
  "serverInfo ev r h =
     (let cfg = h_cfg h in
      (writeJSON [] 200 (PInfo
         \<lparr>si_Stage = (if h_ready h then ''ready'' else ''skeleton''), si_SyncAvailable = h_ready h,
          si_RegistrationMode = RegistrationMode cfg, si_EmailVerification = EmailVerification cfg,
          si_MinPasswordChars = MinPasswordChars cfg, si_MaxTextBytes = MaxTextBytes cfg,
          si_MaxRequestBytes = MaxRequestBytes cfg, si_TrashRetentionSeconds = 604800,
          si_ExternalRegisterURL =
            (if ExternalRegisterURL cfg \<noteq> [] then Some (ExternalRegisterURL cfg) else None)\<rparr>), h))"

text \<open>\<open>gateIP\<close> at the head of a handler: \<open>next\<close> runs when it lets the request pass.\<close>

definition gated :: "int \<Rightarrow> handler \<Rightarrow> handler" where
  "gated n next ev r h =
     (case gateIP (ev_GoClk ev 0) r n (h_loginHits h) of
        (Some refusal, hs) \<Rightarrow> (refusal, h\<lparr>h_loginHits := hs\<rparr>)
      | (None, hs) \<Rightarrow> next ev r (h\<lparr>h_loginHits := hs\<rparr>))"

definition register_passed :: handler where
  "register_passed ev r h =
     (case decodeJSON register_fields zero_register r of
        Inl e \<Rightarrow> refuse e h
      | Inr body \<Rightarrow>
          if \<not> Username (br_Username body) then refuse (New 400 InvalidRequest) h
          else if \<not> Password (br_Password body) then refuse (New 400 InvalidRequest) h
          else if \<not> device_ok (br_Device body) then refuse (New 400 InvalidRequest) h
          else
            reply (\<lambda>res. writeJSON [] 201 (PAuth res)) h
              (Register (ev_World ev) (ev_Fresh ev) (ev_Clk ev) (shift 1 (ev_GoClk ev))
                 \<lparr>ri_Username = br_Username body, ri_Password = br_Password body,
                  ri_InviteToken = br_InviteToken body, ri_Email = br_Email body,
                  ri_EmailCode = br_EmailCode body, ri_DeviceID = bd_ID (br_Device body),
                  ri_DeviceName = bd_Name (br_Device body), ri_Platform = bd_Platform (br_Device body)\<rparr>
                 (h_store h)))"

definition register :: handler where
  "register = gated 5 register_passed"

definition emailCode_passed :: handler where
  "emailCode_passed ev r h =
     (case decodeJSON [(''email'', string_field id)] [] r of
        Inl e \<Rightarrow> refuse e h
      | Inr email \<Rightarrow>
          reply (\<lambda>_. noContent) h
            (RequestEmailCode (ev_World ev) (ev_Mailer ev) (ev_Random ev) (ev_Clk ev)
               (ev_GoClk ev 1) email (h_store h)))"

definition emailCode :: handler where
  "emailCode = gated 5 emailCode_passed"

definition login_passed :: handler where
  "login_passed ev r h =
     (case decodeJSON login_fields zero_login r of
        Inl e \<Rightarrow> refuse e h
      | Inr body \<Rightarrow>
          (case gateKey (ev_GoClk ev 1) (''u:'' @ bl_Username body) 5 (h_loginHits h) of
             (Some refusal, hs) \<Rightarrow> (refusal, h\<lparr>h_loginHits := hs\<rparr>)
           | (None, hs) \<Rightarrow>
               let h = h\<lparr>h_loginHits := hs\<rparr> in
               if \<not> LoginIdentifier (bl_Username body) \<or> \<not> LoginSecret (bl_Password body)
               then refuse (New 401 Unauthenticated) h
               else if RegistrationMode (h_cfg h) \<noteq> ''external'' \<and> \<not> Password (bl_Password body)
               then refuse (New 401 Unauthenticated) h
               else if \<not> device_ok (bl_Device body) then refuse (New 400 InvalidRequest) h
               else
                 reply (\<lambda>res. writeJSON [] 200 (PAuth res)) h
                   (Login (ev_World ev) (ev_External ev) (ev_Fresh ev) (ev_Clk ev)
                      \<lparr>li_Username = bl_Username body, li_Password = bl_Password body,
                       li_DeviceID = bd_ID (bl_Device body), li_DeviceName = bd_Name (bl_Device body),
                       li_Platform = bd_Platform (bl_Device body)\<rparr> (h_store h))))"

definition login :: handler where
  "login = gated 20 login_passed"

definition refresh :: handler where
  "refresh ev r h =
     (case decodeJSON [(''refresh_token'', string_field id)] [] r of
        Inl e \<Rightarrow> refuse e h
      | Inr token \<Rightarrow>
          reply (\<lambda>pair. writeJSON [] 200 (PTokens pair)) h
            (Refresh (ev_Fresh ev) (ev_Clk ev) (ev_GoClk ev 0) token (h_store h)))"

section \<open>The authentication wrapper\<close>

definition auth :: "authed \<Rightarrow> handler" where
  "auth next ev r h =
     (let header = Get (rq_Header r) ''Authorization'' in
      if \<not> HasPrefix header ''Bearer '' then refuse (New 401 Unauthenticated) h
      else case LookupAccess (ev_AuthClk ev) (ev_GoClk ev 0) (TrimPrefix header ''Bearer '') (h_store h) of
        (Inl e, st) \<Rightarrow> (writeError [] (writeErr e), h\<lparr>h_store := st\<rparr>)
      | (Inr scope, st) \<Rightarrow> next ev r scope (h\<lparr>h_store := st\<rparr>))"

section \<open>Accounts\<close>

definition logout :: authed where
  "logout ev r scope h = (noContent, h\<lparr>h_store := Logout (ev_Clk ev) scope (h_store h)\<rparr>)"

definition changePassword :: authed where
  "changePassword ev r scope h =
     (case decodeJSON password_fields zero_password r of
        Inl e \<Rightarrow> refuse e h
      | Inr body \<Rightarrow>
          if \<not> Password (bp_Current body) \<or> \<not> Password (bp_New body)
          then refuse (New 400 InvalidRequest) h
          else
            reply (\<lambda>_. noContent) h
              (ChangePassword (ev_World ev) (ev_Fresh ev) (ev_Clk ev) scope (bp_Current body)
                 (bp_New body) (h_store h)))"

definition listDevices :: authed where
  "listDevices ev r scope h = (writeJSON [] 200 (PDevices (ListDevices scope (h_store h))), h)"

definition revokeDevice :: "string \<Rightarrow> authed" where
  "revokeDevice i ev r scope h =
     (if \<not> UUID i then refuse (New 404 NotFound) h
      else reply (\<lambda>_. noContent) h (RevokeDevice (ev_Clk ev) scope i (h_store h)))"

definition getVault :: authed where
  "getVault ev r scope h =
     reply (\<lambda>v. writeJSON [] 200 (PVault v)) h (GetVault scope (h_store h), h_store h)"

definition putVault :: authed where
  "putVault ev r scope h =
     (if Get (rq_Header r) ''If-None-Match'' \<noteq> ''*'' then refuse (New 428 PreconditionRequired) h
      else case decodeJSON vault_fields zero_vault r of
        Inl e \<Rightarrow> refuse e h
      | Inr env \<Rightarrow>
          if \<not> UUID (ve_VaultID env) \<or> ve_FormatVersion env \<noteq> 1 \<or> ve_KeyEpoch env \<noteq> 1
          then refuse (New 400 UnsupportedFormat) h
          else case Decode (ve_WrapSalt env) 32 of
            None \<Rightarrow> refuse (New 400 InvalidRequest) h
          | Some salt \<Rightarrow>
              (case Decode (ve_WrapNonce env) 12 of
                 None \<Rightarrow> refuse (New 400 InvalidRequest) h
               | Some nonce \<Rightarrow>
                   (case Decode (ve_WrappedKey env) 48 of
                      None \<Rightarrow> refuse (New 400 InvalidRequest) h
                    | Some wrapped \<Rightarrow>
                        (case parsePasswordWrap (ve_PasswordWrap env) of
                           Inl e \<Rightarrow> refuse e h
                         | Inr pw \<Rightarrow>
                             reply (\<lambda>_. writeJSON [] 201 (PVault env)) h
                               (InitVault scope env salt nonce wrapped pw (h_store h))))))"

definition putPasswordWrap :: authed where
  "putPasswordWrap ev r scope h =
     (case decodeJSON wrap_fields zero_wrap r of
        Inl e \<Rightarrow> refuse e h
      | Inr wrap \<Rightarrow>
          (case parsePasswordWrap (Some wrap) of
             Inl e \<Rightarrow> refuse e h
           | Inr None \<Rightarrow> refuse (New 400 InvalidRequest) h
           | Inr (Some pw) \<Rightarrow> reply (\<lambda>_. noContent) h (PutPasswordWrap scope pw (h_store h))))"

section \<open>Clips\<close>

definition createClip :: authed where
  "createClip ev r scope h =
     (case decodeJSON envelope_fields zero_envelope r of
        Inl e \<Rightarrow> refuse e h
      | Inr env \<Rightarrow>
          (case validateEnvelope env of
             Some e \<Rightarrow> refuse e h
           | None \<Rightarrow>
               (case Decode (env_Nonce env) 12 of
                  None \<Rightarrow> refuse (New 400 InvalidRequest) h
                | Some nonce \<Rightarrow>
                    (case Decode (env_Ciphertext env) (- 1) of
                       None \<Rightarrow> refuse (New 400 InvalidRequest) h
                     | Some ciphertext \<Rightarrow>
                         if length ciphertext < 17 \<or> length ciphertext > 65552
                         then refuse (New 400 InvalidRequest) h
                         else
                           let hash = CreateRequestHash (env_ID env) (env_VaultID env)
                                 (env_SourceDeviceID env) (env_FormatVersion env) (env_KeyEpoch env)
                                 (env_ContentType env) nonce ciphertext (env_DeliveryIntent env)
                           in reply (\<lambda>res. writeJSON [] (if cr_Created res then 201 else 200)
                                              (PReceipt (cr_Receipt res))) h
                                (CreateClip (ev_Clk ev) scope env nonce ciphertext hash (h_store h))))))"

text \<open>The filter of \<open>listClips\<close>, with the checks in their order.\<close>

definition list_filter :: "(string \<times> string) list \<Rightarrow> Error + ListFilter" where
  "list_filter q =
     (let status = (if Get q ''status'' = [] then ''active'' else Get q ''status'');
          source = Get q ''source_device_id'' in
      if status \<noteq> ''active'' \<and> status \<noteq> ''trash'' then Inl (New 400 InvalidRequest)
      else if source \<noteq> [] \<and> \<not> UUID source then Inl (New 400 InvalidRequest)
      else case query_time (Get q ''since'') of
        Inl e \<Rightarrow> Inl e
      | Inr since \<Rightarrow>
          (case query_time (Get q ''until'') of
             Inl e \<Rightarrow> Inl e
           | Inr until \<Rightarrow>
               (case parseLimit (Get q ''limit'') of
                  Inl e \<Rightarrow> Inl (writeErr e)
                | Inr limit \<Rightarrow>
                    let f = \<lparr>lf_Status = status, lf_SourceDeviceID = source, lf_Since = since,
                             lf_Until = until, lf_AfterSeq = None, lf_AfterID = [], lf_Limit = limit\<rparr> in
                    if Get q ''page_token'' = [] then Inr f
                    else case ParsePageToken (Get q ''page_token'') of
                      Inl e \<Rightarrow> Inl (writeErr e)
                    | Inr (seq, i) \<Rightarrow> Inr (f\<lparr>lf_AfterSeq := Some seq, lf_AfterID := i\<rparr>))))"

definition listClips :: authed where
  "listClips ev r scope h =
     (case list_filter (rq_Query r) of
        Inl e \<Rightarrow> refuse e h
      | Inr f \<Rightarrow>
          (writeJSON [] 200 (PClips (ListClips (ev_Clk ev) (ev_GoClk ev 1) scope f (h_store h))), h))"

definition getClip :: "string \<Rightarrow> authed" where
  "getClip i ev r scope h =
     (if \<not> UUID i then refuse (New 404 NotFound) h
      else reply
        (\<lambda>clip. writeJSON [(''ETag'', quote # FormatInt (cl_Version clip) @ [quote])] 200 (PClip clip)) h
        (GetClip (ev_Clk ev) scope i (h_store h), h_store h))"

definition mutate :: "string \<Rightarrow> string \<Rightarrow> authed" where
  "mutate kind i ev r scope h =
     (let op = Get (rq_Header r) ''Idempotency-Key''; match = Get (rq_Header r) ''If-Match'' in
      if \<not> UUID i then refuse (New 404 NotFound) h
      else if \<not> UUID op then refuse (New 400 InvalidRequest) h
      else if match = [] then refuse (New 428 PreconditionRequired) h
      else case ParseIfMatch match of
        None \<Rightarrow> refuse (New 400 InvalidRequest) h
      | Some version \<Rightarrow>
          reply (\<lambda>receipt. writeJSON [] 200 (PReceipt receipt)) h
            (MutateClip (ev_Clk ev) scope i op kind version (OperationRequestHash kind i version)
               (h_store h)))"

definition trashClip :: "string \<Rightarrow> authed" where "trashClip = mutate ''trash''"
definition restoreClip :: "string \<Rightarrow> authed" where "restoreClip = mutate ''restore''"
definition purgeClip :: "string \<Rightarrow> authed" where "purgeClip = mutate ''purge''"

section \<open>Synchronisation\<close>

definition changes :: authed where
  "changes ev r scope h =
     (let epoch = Get (rq_Query r) ''epoch'' in
      if \<not> UUID epoch then refuse (New 400 InvalidRequest) h
      else case Seq (Get (rq_Query r) ''after'') of
        None \<Rightarrow> refuse (New 400 InvalidRequest) h
      | Some after \<Rightarrow>
          (case parseLimit (Get (rq_Query r) ''limit'') of
             Inl e \<Rightarrow> refuse (writeErr e) h
           | Inr limit \<Rightarrow>
               reply (\<lambda>page. writeJSON [] 200 (PChanges page)) h
                 (Changes (ev_Clk ev) scope epoch after limit (h_store h), h_store h)))"

definition beginSnapshot :: authed where
  "beginSnapshot ev r scope h =
     reply (\<lambda>snap. writeJSON [] 201 (PSnapshot snap)) h
       (BeginSnapshot (ev_Clk ev) (ev_Random ev) scope (h_store h))"

definition snapshotPage :: "string \<Rightarrow> authed" where
  "snapshotPage token ev r scope h =
     (case parseLimit (Get (rq_Query r) ''limit'') of
        Inl e \<Rightarrow> refuse (writeErr e) h
      | Inr limit \<Rightarrow>
          reply (\<lambda>page. writeJSON [] 200 (PSnapshotPage page)) h
            (SnapshotPage (ev_Clk ev) scope token (Get (rq_Query r) ''page_token'') limit (h_store h),
             h_store h))"

section \<open>Live connections\<close>

text \<open>
  \<open>websocket\<close> registers the accepted connection with the hub.  What it does afterwards are the
  steps of \<open>websocket_step\<close>.
\<close>

definition on_hub :: "(Hub \<Rightarrow> Hub) \<Rightarrow> Store \<Rightarrow> Store" where
  "on_hub f st = st\<lparr>st_Hub := map_option f (st_Hub st)\<rparr>"

definition session_conn :: "nat \<Rightarrow> Scope \<Rightarrow> Conn" where
  "session_conn i scope =
     \<lparr>WS = i, conn_UserID = sc_UserID scope, conn_DeviceID = sc_DeviceID scope,
      conn_SessionID = sc_SessionID scope\<rparr>"

definition websocket :: authed where
  "websocket ev r scope h =
     (case ev_Socket ev of
        Inl refusal \<Rightarrow> (refusal, h)
      | Inr i \<Rightarrow>
          (\<lparr>rs_Status = 101, rs_Header = [], rs_Body = None\<rparr>,
           h\<lparr>h_store := on_hub (Add (session_conn i scope)) (h_store h)\<rparr>))"

text \<open>
  Then two loops run.  The watcher pings the client every thirty seconds and looks the token up
  again every minute; either may close the connection, which ends the watcher.  The reader waits
  for frames; when reading fails the handler returns: the connection leaves the hub, and the
  watcher's context is done.
\<close>

record Live =
  lv_Conn :: Conn
  lv_Watching :: bool
  lv_Reading :: bool

datatype ws_input = PingTick bool | AuthTick Env | FrameRead | ReadFailed

definition websocket_close :: "Conn \<Rightarrow> string \<Rightarrow> Handler \<Rightarrow> Handler" where
  "websocket_close c reason h =
     h\<lparr>h_store := on_hub (\<lambda>hub. hub\<lparr>ws_log := ws_log hub @ [WsClose c reason]\<rparr>) (h_store h)\<rparr>"

definition websocket_leave :: "Conn \<Rightarrow> Handler \<Rightarrow> Handler" where
  "websocket_leave c h = websocket_close c [] (h\<lparr>h_store := on_hub (Remove c) (h_store h)\<rparr>)"

definition websocket_check :: "Env \<Rightarrow> Request \<Rightarrow> Conn \<Rightarrow> Handler \<Rightarrow> bool \<times> Handler" where
  "websocket_check ev r c h =
     (case LookupAccess (ev_AuthClk ev) (ev_GoClk ev 0)
             (TrimPrefix (Get (rq_Header r) ''Authorization'') ''Bearer '') (h_store h) of
        (Inl _, st) \<Rightarrow> (False, websocket_close c ''session ended'' (h\<lparr>h_store := st\<rparr>))
      | (Inr _, st) \<Rightarrow> (True, h\<lparr>h_store := st\<rparr>))"

fun websocket_step :: "Request \<Rightarrow> ws_input \<Rightarrow> Live \<Rightarrow> Handler \<Rightarrow> Live \<times> Handler" where
  "websocket_step r (PingTick ok) lv h =
     (if \<not> lv_Watching lv \<or> ok then (lv, h)
      else (lv\<lparr>lv_Watching := False\<rparr>, websocket_close (lv_Conn lv) ''ping timeout'' h))"
| "websocket_step r (AuthTick ev) lv h =
     (if \<not> lv_Watching lv then (lv, h)
      else case websocket_check ev r (lv_Conn lv) h of (valid, h) \<Rightarrow> (lv\<lparr>lv_Watching := valid\<rparr>, h))"
| "websocket_step r FrameRead lv h = (lv, h)"
| "websocket_step r ReadFailed lv h =
     (if lv_Reading lv
      then (lv\<lparr>lv_Watching := False, lv_Reading := False\<rparr>, websocket_leave (lv_Conn lv) h)
      else (lv, h))"

section \<open>The multiplexer\<close>

datatype endpoint =
    Health | Readyz | Info | RegisterE | EmailCodeE | LoginE | RefreshE
  | LogoutE | ChangePasswordE | ListDevicesE | RevokeDeviceE string
  | GetVaultE | PutVaultE | PutPasswordWrapE
  | CreateClipE | ListClipsE | GetClipE string | TrashClipE string | RestoreClipE string
  | PurgeClipE string
  | ChangesE | BeginSnapshotE | SnapshotPageE string | WebsocketE
  | NoRoute

text \<open>A pattern of method GET serves HEAD, too; a wildcard matches one segment that is not empty.\<close>

definition serves :: "string \<Rightarrow> string \<Rightarrow> bool" where
  "serves pat m \<longleftrightarrow> m = pat \<or> pat = ''GET'' \<and> m = ''HEAD''"

definition wild :: "string \<Rightarrow> bool" where
  "wild seg \<longleftrightarrow> seg \<noteq> [] \<and> seg \<noteq> ''/''"

definition api_route :: "string \<Rightarrow> string list \<Rightarrow> endpoint" where
  "api_route m p =
     (if p = [''server-info''] \<and> serves ''GET'' m then Info
      else if p = [''auth'', ''register''] \<and> serves ''POST'' m then RegisterE
      else if p = [''auth'', ''email-code''] \<and> serves ''POST'' m then EmailCodeE
      else if p = [''auth'', ''login''] \<and> serves ''POST'' m then LoginE
      else if p = [''auth'', ''refresh''] \<and> serves ''POST'' m then RefreshE
      else if p = [''auth'', ''logout''] \<and> serves ''POST'' m then LogoutE
      else if p = [''auth'', ''password''] \<and> serves ''POST'' m then ChangePasswordE
      else if p = [''devices''] \<and> serves ''GET'' m then ListDevicesE
      else if length p = 2 \<and> p ! 0 = ''devices'' \<and> wild (p ! 1) \<and> serves ''DELETE'' m
      then RevokeDeviceE (p ! 1)
      else if p = [''vault''] \<and> serves ''GET'' m then GetVaultE
      else if p = [''vault''] \<and> serves ''PUT'' m then PutVaultE
      else if p = [''vault'', ''password-wrap''] \<and> serves ''PUT'' m then PutPasswordWrapE
      else if p = [''clips''] \<and> serves ''POST'' m then CreateClipE
      else if p = [''clips''] \<and> serves ''GET'' m then ListClipsE
      else if length p = 2 \<and> p ! 0 = ''clips'' \<and> wild (p ! 1) \<and> serves ''GET'' m then GetClipE (p ! 1)
      else if length p = 2 \<and> p ! 0 = ''clips'' \<and> wild (p ! 1) \<and> serves ''DELETE'' m
      then TrashClipE (p ! 1)
      else if length p = 3 \<and> p ! 0 = ''clips'' \<and> wild (p ! 1) \<and> p ! 2 = ''restore'' \<and> serves ''POST'' m
      then RestoreClipE (p ! 1)
      else if length p = 3 \<and> p ! 0 = ''clips'' \<and> wild (p ! 1) \<and> p ! 2 = ''permanent'' \<and> serves ''DELETE'' m
      then PurgeClipE (p ! 1)
      else if p = [''sync'', ''changes''] \<and> serves ''GET'' m then ChangesE
      else if p = [''sync'', ''snapshots''] \<and> serves ''POST'' m then BeginSnapshotE
      else if length p = 3 \<and> p ! 0 = ''sync'' \<and> p ! 1 = ''snapshots'' \<and> wild (p ! 2) \<and> serves ''GET'' m
      then SnapshotPageE (p ! 2)
      else if p = [''sync'', ''ws''] \<and> serves ''GET'' m then WebsocketE
      else NoRoute)"

definition route :: "Request \<Rightarrow> endpoint" where
  "route r =
     (let m = rq_Method r; p = rq_Path r in
      if p = [''healthz''] \<and> serves ''GET'' m then Health
      else if p = [''readyz''] \<and> serves ''GET'' m then Readyz
      else if take 2 p = [''api'', ''v1''] then api_route m (drop 2 p)
      else NoRoute)"

fun handle :: "endpoint \<Rightarrow> handler" where
  "handle Health = health"
| "handle Readyz = readyz"
| "handle Info = serverInfo"
| "handle RegisterE = register"
| "handle EmailCodeE = emailCode"
| "handle LoginE = login"
| "handle RefreshE = refresh"
| "handle LogoutE = auth logout"
| "handle ChangePasswordE = auth changePassword"
| "handle ListDevicesE = auth listDevices"
| "handle (RevokeDeviceE i) = auth (revokeDevice i)"
| "handle GetVaultE = auth getVault"
| "handle PutVaultE = auth putVault"
| "handle PutPasswordWrapE = auth putPasswordWrap"
| "handle CreateClipE = auth createClip"
| "handle ListClipsE = auth listClips"
| "handle (GetClipE i) = auth (getClip i)"
| "handle (TrashClipE i) = auth (trashClip i)"
| "handle (RestoreClipE i) = auth (restoreClip i)"
| "handle (PurgeClipE i) = auth (purgeClip i)"
| "handle ChangesE = auth changes"
| "handle BeginSnapshotE = auth beginSnapshot"
| "handle (SnapshotPageE t) = auth (snapshotPage t)"
| "handle WebsocketE = auth websocket"
| "handle NoRoute = (\<lambda>ev r h. refuse (New 404 NotFound) h)"

definition serve :: handler where
  "serve ev r h = handle (route r) ev r h"

end
