(* ===== verification/SyncInv.thy ===== *)
theory SyncInv
  imports Clips
begin

text \<open>
  The invariant of the synchronisation tables and the abstract step every committed lifecycle
  change takes.  \<open>log_step\<close> is the specification: one event is appended under the next sequence
  number, the clip's version grows by one, the counters follow, and the identity and the
  content of the clip stay.  Creation, trash, restore and purge refine it; the invariant
  \<open>sync_inv\<close> is preserved by every such step.
\<close>

section \<open>Version and sequence number of an identifier\<close>

definition tip :: "DB \<Rightarrow> uuid \<Rightarrow> uuid \<Rightarrow> (int \<times> int) option" where
  "tip db u c =
     (case fmlookup (clips db) (u, c) of
        Some r \<Rightarrow> Some (c_version r, c_last_seq r)
      | None \<Rightarrow>
          (case fmlookup (clip_ids db) (u, c) of
             None \<Rightarrow> None
           | Some i \<Rightarrow>
               (case (ci_final_version i, ci_final_seq i) of
                  (Some v, Some q) \<Rightarrow> Some (v, q) | _ \<Rightarrow> None)))"

definition tip_kind :: "DB \<Rightarrow> uuid \<Rightarrow> uuid \<Rightarrow> string" where
  "tip_kind db u c =
     (case fmlookup (clips db) (u, c) of
        None \<Rightarrow> ''clip.purged''
      | Some r \<Rightarrow>
          if c_status r = ''trash'' then ''clip.trashed''
          else if c_version r = 1 then ''clip.created'' else ''clip.restored'')"

definition tip_version :: "DB \<Rightarrow> uuid \<Rightarrow> uuid \<Rightarrow> int" where
  "tip_version db u c = (case tip db u c of None \<Rightarrow> 0 | Some (v, _) \<Rightarrow> v)"

definition clip_bytes :: "clip_row option \<Rightarrow> int" where
  "clip_bytes r = (case r of None \<Rightarrow> 0 | Some r \<Rightarrow> int (length (c_ciphertext r)))"

definition row_count :: "clip_row option \<Rightarrow> int" where
  "row_count r = (case r of None \<Rightarrow> 0 | Some _ \<Rightarrow> 1)"

definition clip_set :: "DB \<Rightarrow> uuid \<Rightarrow> uuid set" where
  "clip_set db u = {c. has_row (clips db) (u, c)}"

section \<open>The invariant\<close>

definition counts_ok :: "DB \<Rightarrow> uuid \<Rightarrow> sync_row \<Rightarrow> bool" where
  "counts_ok db u s \<longleftrightarrow> item_count s = int (card (clip_set db u))
     \<and> ciphertext_bytes s = (\<Sum>c\<in>clip_set db u. clip_bytes (fmlookup (clips db) (u, c)))"

definition registry_ok :: "DB \<Rightarrow> uuid \<Rightarrow> bool" where
  "registry_ok db u \<longleftrightarrow>
     (\<forall>c i. fmlookup (clip_ids db) (u, c) = Some i \<longrightarrow> check_clip_id i)
     \<and> (\<forall>c r. fmlookup (clips db) (u, c) = Some r \<longrightarrow> check_clip r
          \<and> (\<exists>i. fmlookup (clip_ids db) (u, c) = Some i \<and> ci_purged_at i = None
               \<and> ci_created_seq i = c_created_seq r \<and> ci_created_at i = c_created_at r))
     \<and> (\<forall>c i. fmlookup (clip_ids db) (u, c) = Some i \<longrightarrow> ci_purged_at i = None \<longrightarrow>
          has_row (clips db) (u, c))"

definition log_ok :: "DB \<Rightarrow> uuid \<Rightarrow> sync_row \<Rightarrow> bool" where
  "log_ok db u s \<longleftrightarrow> check_sync s \<and> sync_in_range s
     \<and> (\<forall>q. has_row (sync_events db) (u, q) \<longleftrightarrow> min_available_seq s \<le> q \<and> q \<le> next_seq s)"

definition tips_ok :: "DB \<Rightarrow> uuid \<Rightarrow> sync_row \<Rightarrow> bool" where
  "tips_ok db u s \<longleftrightarrow>
     (\<forall>c v q. tip db u c = Some (v, q) \<longrightarrow> 0 < v \<and> 0 < q \<and> q \<le> next_seq s
        \<and> (min_available_seq s \<le> q \<longrightarrow>
             (\<exists>e. fmlookup (sync_events db) (u, q) = Some e \<and> e_clip_id e = c \<and> e_version e = v
                \<and> e_kind e = tip_kind db u c)))"

definition events_ok :: "DB \<Rightarrow> uuid \<Rightarrow> bool" where
  "events_ok db u \<longleftrightarrow>
     (\<forall>q e. fmlookup (sync_events db) (u, q) = Some e \<longrightarrow>
        (\<exists>v q'. tip db u (e_clip_id e) = Some (v, q') \<and> q \<le> q' \<and> e_version e \<le> v))
     \<and> (\<forall>q1 q2 e1 e2. fmlookup (sync_events db) (u, q1) = Some e1 \<longrightarrow>
          fmlookup (sync_events db) (u, q2) = Some e2 \<longrightarrow> e_clip_id e1 = e_clip_id e2 \<longrightarrow>
          q1 < q2 \<longrightarrow> e_version e1 < e_version e2)"

definition user_inv :: "DB \<Rightarrow> uuid \<Rightarrow> sync_row \<Rightarrow> bool" where
  "user_inv db u s \<longleftrightarrow>
     counts_ok db u s \<and> registry_ok db u \<and> log_ok db u s \<and> tips_ok db u s \<and> events_ok db u"

definition no_log :: "DB \<Rightarrow> uuid \<Rightarrow> bool" where
  "no_log db u \<longleftrightarrow> (\<forall>c. fmlookup (clip_ids db) (u, c) = None \<and> fmlookup (clips db) (u, c) = None)
     \<and> (\<forall>q. fmlookup (sync_events db) (u, q) = None)"

definition sync_inv :: "DB \<Rightarrow> bool" where
  "sync_inv db \<longleftrightarrow>
     (\<forall>u. case fmlookup (user_sync_state db) u of Some s \<Rightarrow> user_inv db u s | None \<Rightarrow> no_log db u)"

lemma sync_invD: "sync_inv db \<Longrightarrow> fmlookup (user_sync_state db) u = Some s \<Longrightarrow> user_inv db u s"
  unfolding sync_inv_def by (metis option.simps(5))

lemma sync_inv_clip:
  assumes "sync_inv db" and "fmlookup (clips db) (u, c) = Some r"
  obtains i where "check_clip r" "fmlookup (clip_ids db) (u, c) = Some i" "check_clip_id i"
    "ci_purged_at i = None" "ci_created_seq i = c_created_seq r" "ci_created_at i = c_created_at r"
proof -
  obtain s where "fmlookup (user_sync_state db) u = Some s"
    using assms by (force simp: sync_inv_def no_log_def split: option.splits)
  with assms(1) have "registry_ok db u"
    by (auto dest: sync_invD simp: user_inv_def)
  then show thesis
    using assms(2) that unfolding registry_ok_def by blast
qed

lemma sync_inv_empty: "sync_inv empty_db"
  by (simp add: sync_inv_def empty_db_def no_log_def)

lemma finite_clip_set [simp]: "finite (clip_set db u)"
proof (rule finite_subset)
  show "clip_set db u \<subseteq> snd ` fmdom' (clips db)"
    by (force simp: clip_set_def has_row_iff fmlookup_dom'_iff)
qed simp

text \<open>The invariant of a user reads that user's rows of four tables only.\<close>

definition same_log :: "DB \<Rightarrow> DB \<Rightarrow> uuid \<Rightarrow> bool" where
  "same_log db db' u \<longleftrightarrow>
     fmlookup (user_sync_state db') u = fmlookup (user_sync_state db) u
     \<and> (\<forall>c. fmlookup (clips db') (u, c) = fmlookup (clips db) (u, c))
     \<and> (\<forall>c. fmlookup (clip_ids db') (u, c) = fmlookup (clip_ids db) (u, c))
     \<and> (\<forall>q. fmlookup (sync_events db') (u, q) = fmlookup (sync_events db) (u, q))"

lemma same_log_refl [simp]: "same_log db db u"
  by (simp add: same_log_def)

lemma same_log_trans: "same_log a b u \<Longrightarrow> same_log b c u \<Longrightarrow> same_log a c u"
  by (simp add: same_log_def)

lemma tip_cong: "same_log db db' u \<Longrightarrow> tip db' u c = tip db u c"
  by (simp add: same_log_def tip_def cong: option.case_cong)

lemma tip_kind_cong: "same_log db db' u \<Longrightarrow> tip_kind db' u c = tip_kind db u c"
  by (simp add: same_log_def tip_kind_def)

lemma user_inv_cong: "same_log db db' u \<Longrightarrow> user_inv db' u s = user_inv db u s"
  using tip_cong [of db db' u] tip_kind_cong [of db db' u]
  by (simp add: user_inv_def counts_ok_def registry_ok_def log_ok_def tips_ok_def events_ok_def
      clip_set_def has_row_def same_log_def)

lemma no_log_cong: "same_log db db' u \<Longrightarrow> no_log db' u = no_log db u"
  by (simp add: no_log_def same_log_def)

lemma sync_inv_cong: "\<forall>u. same_log db db' u \<Longrightarrow> sync_inv db' = sync_inv db"
proof -
  assume a: "\<forall>u. same_log db db' u"
  then have "fmlookup (user_sync_state db') u = fmlookup (user_sync_state db) u" for u
    by (simp add: same_log_def)
  with a user_inv_cong [of db db'] no_log_cong [of db db'] show ?thesis
    by (simp add: sync_inv_def cong: option.case_cong)
qed

lemma sync_inv_other:
  assumes inv: "sync_inv db" and s': "fmlookup (user_sync_state db') u = Some s'"
    and u: "user_inv db' u s'" and other: "\<And>v. v \<noteq> u \<Longrightarrow> same_log db db' v"
  shows "sync_inv db'"
  unfolding sync_inv_def
proof
  fix v
  show "case fmlookup (user_sync_state db') v of Some s \<Rightarrow> user_inv db' v s | None \<Rightarrow> no_log db' v"
  proof (cases "v = u")
    case True
    with s' u show ?thesis by simp
  next
    case False
    from inv have "case fmlookup (user_sync_state db) v of
        Some s \<Rightarrow> user_inv db v s | None \<Rightarrow> no_log db v"
      unfolding sync_inv_def by blast
    moreover from other [OF False]
    have "fmlookup (user_sync_state db') v = fmlookup (user_sync_state db) v"
      by (simp add: same_log_def)
    ultimately show ?thesis
      using user_inv_cong [OF other [OF False]] no_log_cong [OF other [OF False]]
      by (simp cong: option.case_cong)
  qed
qed

section \<open>The life of an identifier\<close>

datatype life = Absent | Active | Trashed | Purged

definition life_of :: "DB \<Rightarrow> uuid \<Rightarrow> uuid \<Rightarrow> life" where
  "life_of db u c =
     (case fmlookup (clips db) (u, c) of
        Some r \<Rightarrow> if c_status r = ''active'' then Active else Trashed
      | None \<Rightarrow> if has_row (clip_ids db) (u, c) then Purged else Absent)"

inductive life_step :: "life \<Rightarrow> string \<Rightarrow> life \<Rightarrow> bool" where
  life_create: "life_step Absent ''clip.created'' Active"
| life_trash: "life_step Active ''clip.trashed'' Trashed"
| life_restore: "life_step Trashed ''clip.restored'' Active"
| life_purge: "life_step Trashed ''clip.purged'' Purged"

inductive_simps life_step_iff: "life_step a k b"
inductive_cases life_step_from_Purged [elim!]: "life_step Purged k b"
inductive_cases life_step_to_Absent [elim!]: "life_step a k Absent"

section \<open>The abstract lifecycle step\<close>

definition log_write ::
  "uuid \<Rightarrow> uuid \<Rightarrow> sync_row \<Rightarrow> clip_row option \<Rightarrow> clip_id_row \<Rightarrow> event_row \<Rightarrow> DB \<Rightarrow> DB" where
  "log_write u c s r i e db =
     db\<lparr>user_sync_state := fmupd u s (user_sync_state db),
        clip_ids := fmupd (u, c) i (clip_ids db),
        clips := (case r of None \<Rightarrow> fmdrop (u, c) (clips db) | Some r \<Rightarrow> fmupd (u, c) r (clips db)),
        sync_events := fmupd (u, next_seq s) e (sync_events db)\<rparr>"

text \<open>What stays of a clip while it exists, and of its registration for ever.\<close>

definition same_content :: "clip_row \<Rightarrow> clip_row \<Rightarrow> bool" where
  "same_content r r' \<longleftrightarrow>
     r' = r\<lparr>c_status := c_status r', c_version := c_version r', c_last_seq := c_last_seq r',
            c_deleted_at := c_deleted_at r', c_expires_at := c_expires_at r'\<rparr>"

definition same_identity :: "clip_id_row \<Rightarrow> clip_id_row \<Rightarrow> bool" where
  "same_identity i i' \<longleftrightarrow> ci_request_hash i' = ci_request_hash i
     \<and> ci_created_seq i' = ci_created_seq i \<and> ci_created_at i' = ci_created_at i"

text \<open>
  \<open>log_step u c r i e db db'\<close>: user u's clip c gets the row r (None: its ciphertext is
  deleted) and the registration i, and the event e is appended.
\<close>

definition log_step ::
  "uuid \<Rightarrow> uuid \<Rightarrow> clip_row option \<Rightarrow> clip_id_row \<Rightarrow> event_row \<Rightarrow> DB \<Rightarrow> DB \<Rightarrow> bool" where
  "log_step u c r i e db db' \<longleftrightarrow>
     (\<exists>s s'. fmlookup (user_sync_state db) u = Some s \<and> db' = log_write u c s' r i e db
        \<and> check_sync s' \<and> sync_in_range s'
        \<and> next_seq s' = next_seq s + 1 \<and> min_available_seq s' = min_available_seq s
        \<and> item_count s' = item_count s + row_count r - row_count (fmlookup (clips db) (u, c))
        \<and> ciphertext_bytes s' =
            ciphertext_bytes s + clip_bytes r - clip_bytes (fmlookup (clips db) (u, c))
        \<and> check_clip_id i \<and> e_clip_id e = c \<and> e_version e = tip_version db u c + 1
        \<and> e_kind e = tip_kind db' u c \<and> life_step (life_of db u c) (e_kind e) (life_of db' u c)
        \<and> tip db' u c = Some (e_version e, next_seq s')
        \<and> (\<forall>i0. fmlookup (clip_ids db) (u, c) = Some i0 \<longrightarrow>
              ci_purged_at i0 = None \<and> same_identity i0 i)
        \<and> (\<forall>r0 r'. fmlookup (clips db) (u, c) = Some r0 \<longrightarrow> r = Some r' \<longrightarrow> same_content r0 r')
        \<and> (case r of
             None \<Rightarrow> ci_purged_at i \<noteq> None \<and> has_row (clips db) (u, c)
           | Some r' \<Rightarrow> check_clip r' \<and> ci_purged_at i = None
               \<and> ci_created_seq i = c_created_seq r' \<and> ci_created_at i = c_created_at r'))"

lemma lookup_log_write [tab]:
  "fmlookup (user_sync_state (log_write u c s r i e db)) v =
     (if v = u then Some s else fmlookup (user_sync_state db) v)"
  "fmlookup (clips (log_write u c s r i e db)) k =
     (if k = (u, c) then r else fmlookup (clips db) k)"
  "fmlookup (clip_ids (log_write u c s r i e db)) k =
     (if k = (u, c) then Some i else fmlookup (clip_ids db) k)"
  "fmlookup (sync_events (log_write u c s r i e db)) l =
     (if l = (u, next_seq s) then Some e else fmlookup (sync_events db) l)"
  by (auto simp: log_write_def split: option.splits)

lemma log_write_other: "v \<noteq> u \<Longrightarrow> same_log db (log_write u c s r i e db) v"
  by (simp add: same_log_def tab)

lemma tip_log_write_other: "c' \<noteq> c \<Longrightarrow> tip (log_write u c s r i e db) u c' = tip db u c'"
  by (simp add: tip_def tab cong: option.case_cong)

lemma tip_kind_log_write_other:
  "c' \<noteq> c \<Longrightarrow> tip_kind (log_write u c s r i e db) u c' = tip_kind db u c'"
  by (simp add: tip_kind_def tab)

section \<open>Every step preserves the invariant\<close>

lemma clip_set_log_write:
  "clip_set (log_write u c s r i e db) u =
     (if r = None then clip_set db u - {c} else insert c (clip_set db u))"
  by (auto simp: clip_set_def has_row_def tab)

lemma counts_log_step:
  assumes "log_step u c r i e db db'" and "fmlookup (user_sync_state db) u = Some s"
    and "counts_ok db u s" and "fmlookup (user_sync_state db') u = Some s'"
  shows "counts_ok db' u s'"
proof -
  let ?f = "\<lambda>c. clip_bytes (fmlookup (clips db) (u, c))"
  let ?g = "\<lambda>c. clip_bytes (fmlookup (clips db') (u, c))"
  let ?A = "clip_set db u - {c}"
  from assms obtain db1 where db': "db' = log_write u c s' r i e db"
    and n: "item_count s' = item_count s + row_count r - row_count (fmlookup (clips db) (u, c))"
    and b: "ciphertext_bytes s' = ciphertext_bytes s + clip_bytes r - ?f c"
    by (auto simp: log_step_def tab)
  have old: "int (card (clip_set db u)) = int (card ?A) + row_count (fmlookup (clips db) (u, c))
      \<and> sum ?f (clip_set db u) = sum ?f ?A + ?f c"
  proof (cases "c \<in> clip_set db u")
    case True
    then have "row_count (fmlookup (clips db) (u, c)) = 1"
      by (auto simp: clip_set_def has_row_def row_count_def)
    moreover have "sum ?f (clip_set db u) = ?f c + sum ?f ?A"
      using True by (intro sum.remove) simp_all
    moreover have "card (clip_set db u) = Suc (card ?A)"
      using True by (intro card.remove) simp_all
    ultimately show ?thesis by simp
  next
    case False
    then show ?thesis by (simp add: clip_set_def has_row_def row_count_def clip_bytes_def)
  qed
  have same: "sum ?g ?A = sum ?f ?A"
    by (rule sum.cong) (auto simp: db' tab)
  have new: "int (card (clip_set db' u)) = int (card ?A) + row_count r
      \<and> sum ?g (clip_set db' u) = sum ?f ?A + clip_bytes r"
    using same
    by (cases r) (auto simp: db' clip_set_log_write row_count_def clip_bytes_def tab
        sum.insert_remove card.insert_remove)
  from old new n b assms(3) show ?thesis
    by (simp add: counts_ok_def)
qed

lemma log_step_inv:
  assumes step: "log_step u c r i e db db'" and inv: "sync_inv db"
  shows "sync_inv db'"
proof -
  from step obtain s s' where s: "fmlookup (user_sync_state db) u = Some s"
    and db': "db' = log_write u c s' r i e db" and chk: "check_sync s'" "sync_in_range s'"
    and seq: "next_seq s' = next_seq s + 1" and mn: "min_available_seq s' = min_available_seq s"
    and e: "e_clip_id e = c" "e_version e = tip_version db u c + 1" "e_kind e = tip_kind db' u c"
    and t: "tip db' u c = Some (e_version e, next_seq s')"
    by (auto simp: log_step_def)
  from inv s have u: "user_inv db u s" by (rule sync_invD)
  then have old: "counts_ok db u s" "registry_ok db u" "log_ok db u s" "tips_ok db u s" "events_ok db u"
    by (simp_all add: user_inv_def)
  have s': "fmlookup (user_sync_state db') u = Some s'" by (simp add: db' tab)
  have "counts_ok db' u s'"
    by (rule counts_log_step [OF step s old(1) s'])
  moreover have "registry_ok db' u"
  proof -
    have "check_clip_id i" and "case r of None \<Rightarrow> ci_purged_at i \<noteq> None
        | Some r' \<Rightarrow> check_clip r' \<and> ci_purged_at i = None
            \<and> ci_created_seq i = c_created_seq r' \<and> ci_created_at i = c_created_at r'"
      using step by (auto simp: log_step_def split: option.splits)
    with old(2) show ?thesis
      by (auto simp: registry_ok_def db' tab has_row_def split: if_splits option.splits)
  qed
  moreover have "log_ok db' u s'"
    using old(3) chk seq mn by (auto simp: log_ok_def db' has_row_def tab check_sync_def)
  moreover have "tips_ok db' u s'"
    unfolding tips_ok_def
  proof (intro allI impI)
    fix c' v q assume t': "tip db' u c' = Some (v, q)"
    show "0 < v \<and> 0 < q \<and> q \<le> next_seq s' \<and> (min_available_seq s' \<le> q \<longrightarrow>
        (\<exists>e. fmlookup (sync_events db') (u, q) = Some e \<and> e_clip_id e = c' \<and> e_version e = v
           \<and> e_kind e = tip_kind db' u c'))"
    proof (cases "c' = c")
      case True
      have "0 \<le> tip_version db u c"
        using old(4) by (force simp: tip_version_def tips_ok_def split: option.splits)
      with True t t' e old(3) seq show ?thesis
        by (auto simp: db' tab log_ok_def check_sync_def)
    next
      case False
      with t' old(4) seq mn show ?thesis
        by (fastforce simp: tips_ok_def db' tab tip_log_write_other tip_kind_log_write_other)
    qed
  qed
  moreover have "events_ok db' u"
  proof -
    have new: "fmlookup (sync_events db') (u, q) = Some e' \<longleftrightarrow>
        (if q = next_seq s' then e' = e else fmlookup (sync_events db) (u, q) = Some e')" for q e'
      by (auto simp: db' tab)
    have other: "tip db' u c' = tip db u c'" if "c' \<noteq> c" for c'
      using that by (simp add: db' tip_log_write_other)
    have le: "q \<le> next_seq s" if "fmlookup (sync_events db) (u, q) = Some e'" for q e'
      using old(3) that by (auto simp: log_ok_def has_row_def)
    have ver: "e_version e' < e_version e"
      if "fmlookup (sync_events db) (u, q) = Some e'" "e_clip_id e' = c" for q e'
      using old(5) that e(2) by (fastforce simp: events_ok_def tip_version_def)
    have "\<exists>v q'. tip db' u (e_clip_id e') = Some (v, q') \<and> q \<le> q' \<and> e_version e' \<le> v"
      if q: "fmlookup (sync_events db') (u, q) = Some e'" for q e'
    proof (cases "e_clip_id e' = c")
      case True
      with q t e(1) le [of q e'] ver [of q e'] seq show ?thesis
        by (cases "q = next_seq s'") (auto simp: new less_imp_le)
    next
      case False
      with q e(1) old(5) show ?thesis
        by (cases "q = next_seq s'") (auto simp: new other events_ok_def)
    qed
    moreover have "e_version e1 < e_version e2"
      if "fmlookup (sync_events db') (u, q1) = Some e1" "fmlookup (sync_events db') (u, q2) = Some e2"
        "e_clip_id e1 = e_clip_id e2" "q1 < q2" for q1 q2 e1 e2
      using that ver [of q1 e1] le [of q2 e2] e(1) seq old(5)
      by (auto simp: new events_ok_def split: if_splits)
    ultimately show ?thesis by (simp add: events_ok_def)
  qed
  ultimately have "user_inv db' u s'" by (simp add: user_inv_def)
  then show ?thesis
    by (rule sync_inv_other [OF inv s']) (simp add: db' log_write_other)
qed

section \<open>Events are in order of time\<close>

text \<open>
  A user's transactions are serialised by the lock on the row of \<open>user_sync_state\<close> and the
  clock does not run backwards, so later events of a user are not older.  Retention relies on
  it: what it deletes is a prefix of the log.
\<close>

definition events_timed :: "time \<Rightarrow> DB \<Rightarrow> bool" where
  "events_timed t db \<longleftrightarrow>
     (\<forall>u q e. fmlookup (sync_events db) (u, q) = Some e \<longrightarrow> e_occurred_at e \<le> t
        \<and> (\<forall>q' e'. fmlookup (sync_events db) (u, q') = Some e' \<longrightarrow> q \<le> q' \<longrightarrow>
             e_occurred_at e \<le> e_occurred_at e'))"

lemma events_timed_later: "events_timed t db \<Longrightarrow> t \<le> t' \<Longrightarrow> events_timed t' db"
  unfolding events_timed_def by (meson order_trans)

lemma events_timed_cong: "sync_events db' = sync_events db \<Longrightarrow> events_timed t db' = events_timed t db"
  by (simp add: events_timed_def)

lemma log_step_timed:
  assumes step: "log_step u c r i e db db'" and inv: "sync_inv db" and old: "events_timed t db"
    and t: "t \<le> e_occurred_at e" "e_occurred_at e \<le> t'"
  shows "events_timed t' db'"
proof -
  from step obtain s s' where s: "fmlookup (user_sync_state db) u = Some s"
    and db': "db' = log_write u c s' r i e db" and seq: "next_seq s' = next_seq s + 1"
    by (auto simp: log_step_def)
  have le: "q \<le> next_seq s" if "fmlookup (sync_events db) (u, q) = Some e'" for q e'
    using sync_invD [OF inv s] that by (auto simp: user_inv_def log_ok_def has_row_def)
  have new: "fmlookup (sync_events db') (v, q) = Some e' \<longleftrightarrow>
      (if v = u \<and> q = next_seq s + 1 then e' = e else fmlookup (sync_events db) (v, q) = Some e')" for v q e'
    using seq by (auto simp: db' tab)
  have old1: "e_occurred_at e' \<le> t" if "fmlookup (sync_events db) (v, q) = Some e'" for v q e'
    using old that unfolding events_timed_def by blast
  have old2: "e_occurred_at e1 \<le> e_occurred_at e2"
    if "fmlookup (sync_events db) (v, q1) = Some e1" "fmlookup (sync_events db) (v, q2) = Some e2" "q1 \<le> q2"
    for v q1 q2 e1 e2
    using old that unfolding events_timed_def by blast
  show ?thesis
    unfolding events_timed_def
  proof (intro allI impI conjI)
    fix v q e1 assume e1: "fmlookup (sync_events db') (v, q) = Some e1"
    show "e_occurred_at e1 \<le> t'"
      using e1 t old1 [of v q e1] by (auto simp: new split: if_splits)
    fix q' e2 assume e2: "fmlookup (sync_events db') (v, q') = Some e2" "q \<le> q'"
    show "e_occurred_at e1 \<le> e_occurred_at e2"
    proof (cases "v = u \<and> q' = next_seq s + 1")
      case True
      with e1 e2 t old1 [of v q e1] show ?thesis by (auto simp: new split: if_splits)
    next
      case False
      with e2 have q': "fmlookup (sync_events db) (v, q') = Some e2" by (simp add: new)
      then have "\<not> (v = u \<and> q = next_seq s + 1)" using le e2(2) by fastforce
      with e1 q' e2(2) show ?thesis using old2 by (simp add: new)
    qed
  qed
qed

end
