(* ===== verification/Lifecycle.thy ===== *)
theory Lifecycle
  imports SyncInv
begin

text \<open>
  The write transactions of clips.go refine the abstract lifecycle step of SyncInv: creation of
  a fresh identifier, trash, restore and purge each take exactly one \<open>log_step\<close>, replays and
  refusals take none.  The transactions' effect on the rest of the database is stated here too.
\<close>

section \<open>Each successful change is one step\<close>

lemma create_tx_step:
  assumes "create_tx cfg clk scope env nonce ct h db = Inr (res, db')" and "cr_Created res"
  shows "\<exists>i r e. log_step (sc_UserID scope) (env_ID env) (Some r) i e db db'
    \<and> ci_request_hash i = h \<and> c_nonce r = nonce \<and> c_ciphertext r = ct
    \<and> cr_Receipt res = \<lparr>mr_ID = env_ID env, mr_Status = ''active'', mr_Version = 1,
        mr_Seq = FormatSeq (c_created_seq r), mr_CreatedAt = Some (c_created_at r),
        mr_DeletedAt = None, mr_ExpiresAt = None\<rparr>
    \<and> e_occurred_at e = clk 0 \<and> c_status r = ''active'' \<and> c_version r = 1"
proof -
  let ?u = "sc_UserID scope" and ?c = "env_ID env"
  from assms obtain s where s: "fmlookup (user_sync_state db) ?u = Some s"
    and fresh: "fmlookup (clip_ids db) (?u, ?c) = None"
    by (auto simp: create_tx_def Let_def split: if_splits option.splits)
  let ?s = "s\<lparr>next_seq := next_seq s + 1, item_count := item_count s + 1,
              ciphertext_bytes := ciphertext_bytes s + int (length ct)\<rparr>"
  let ?i = "\<lparr>ci_request_hash = h, ci_created_seq = next_seq s + 1, ci_created_at = clk 0,
              ci_final_version = None, ci_final_seq = None, ci_purged_at = None\<rparr>"
  let ?r = "\<lparr>c_source_device_id = env_SourceDeviceID env, c_vault_id = env_VaultID env,
              c_key_epoch = env_KeyEpoch env, c_format_version = env_FormatVersion env,
              c_content_type = env_ContentType env, c_nonce = nonce, c_ciphertext = ct,
              c_delivery_intent = env_DeliveryIntent env, c_status = ''active'', c_version = 1,
              c_created_seq = next_seq s + 1, c_last_seq = next_seq s + 1, c_created_at = clk 0,
              c_deleted_at = None, c_expires_at = None\<rparr>"
  let ?e = "\<lparr>e_clip_id = ?c, e_kind = ''clip.created'', e_version = 1, e_occurred_at = clk 0\<rparr>"
  from assms s fresh have ok: "check_sync ?s" "sync_in_range ?s" "check_clip_id ?i" "check_clip ?r"
      "\<not> has_row (clips db) (?u, ?c)" and db': "db' = log_write ?u ?c ?s (Some ?r) ?i ?e db"
    and res: "cr_Receipt res = \<lparr>mr_ID = ?c, mr_Status = ''active'', mr_Version = 1,
        mr_Seq = FormatSeq (next_seq s + 1), mr_CreatedAt = Some (clk 0),
        mr_DeletedAt = None, mr_ExpiresAt = None\<rparr>"
    by (auto simp: create_tx_def Let_def res log_write_def split: if_splits option.splits)
  have "log_step ?u ?c (Some ?r) ?i ?e db db'"
    unfolding log_step_def
    by (rule exI [of _ s], rule exI [of _ ?s])
      (use s fresh ok in \<open>simp add: db' tab row_count_def clip_bytes_def tip_def tip_version_def
         tip_kind_def has_row_def life_of_def life_step_iff\<close>)
  with res show ?thesis
    by (intro exI [of _ ?i] exI [of _ ?r] exI [of _ ?e]) simp
qed

lemma clip_of_row_sel [simp]:
  "env_ID (clip_of_row c r) = c" "cl_Version (clip_of_row c r) = c_version r"
  "cl_Status (clip_of_row c r) = c_status r" "cl_ExpiresAt (clip_of_row c r) = c_expires_at r"
  "cl_LastSeq (clip_of_row c r) = FormatSeq (c_last_seq r)"
  by (simp_all add: clip_of_row_def)

lemma bump_step:
  assumes inv: "sync_inv db"
    and row: "fmlookup (clips db) (sc_UserID scope, c) = Some r0"
    and ok: "bump clk scope (clip_of_row c r0) st k tr db = Inr (receipt, db')"
    and k: "k = (if tr then ''clip.trashed'' else ''clip.restored'')"
    and st0: "c_status r0 = (if tr then ''active'' else ''trash'')"
  shows "\<exists>i r e. log_step (sc_UserID scope) c (Some r) i e db db'
    \<and> e_occurred_at e = clk 2 \<and> c_status r = (if tr then ''trash'' else ''active'')
    \<and> fmlookup (clip_ids db) (sc_UserID scope, c) = Some i
    \<and> e_kind e = k \<and> e_version e = c_version r0 + 1
    \<and> receipt = \<lparr>mr_ID = c, mr_Status = st, mr_Version = c_version r,
        mr_Seq = FormatSeq (c_last_seq r), mr_CreatedAt = None, mr_DeletedAt = c_deleted_at r,
        mr_ExpiresAt = c_expires_at r\<rparr>"
proof -
  let ?u = "sc_UserID scope"
  from ok obtain s where s: "fmlookup (user_sync_state db) ?u = Some s"
    by (auto simp: bump_def Let_def res)
  from inv row obtain i where r0: "check_clip r0"
    and i: "fmlookup (clip_ids db) (?u, c) = Some i" "check_clip_id i" "ci_purged_at i = None"
      "ci_created_seq i = c_created_seq r0" "ci_created_at i = c_created_at r0"
    by (rule sync_inv_clip)
  let ?s = "s\<lparr>next_seq := next_seq s + 1\<rparr>"
  let ?r = "r0\<lparr>c_status := if tr then ''trash'' else ''active'', c_version := c_version r0 + 1,
       c_last_seq := next_seq s + 1, c_deleted_at := if tr then Some (clk 0) else None,
       c_expires_at := if tr then Some (clk 1 + hours 168) else None\<rparr>"
  let ?e = "\<lparr>e_clip_id = c, e_kind = k, e_version = c_version r0 + 1, e_occurred_at = clk 2\<rparr>"
  from ok s row i have c: "check_sync ?s" "sync_in_range ?s" "check_clip ?r"
    and db': "db' = log_write ?u c ?s (Some ?r) i ?e db"
    and res: "receipt = \<lparr>mr_ID = c, mr_Status = st, mr_Version = c_version ?r,
        mr_Seq = FormatSeq (c_last_seq ?r), mr_CreatedAt = None, mr_DeletedAt = c_deleted_at ?r,
        mr_ExpiresAt = c_expires_at ?r\<rparr>"
    by (auto simp: bump_def Let_def res log_write_def fmupd_same split: if_splits)
  have "log_step ?u c (Some ?r) i ?e db db'"
    unfolding log_step_def
    by (rule exI [of _ s], rule exI [of _ ?s])
      (use s row i c r0 k st0 in \<open>simp add: db' tab row_count_def clip_bytes_def tip_def tip_version_def
         tip_kind_def same_content_def same_identity_def check_clip_def life_of_def life_step_iff\<close>)
  with i(1) res show ?thesis
    by (intro exI [of _ i] exI [of _ ?r] exI [of _ ?e]) simp
qed

lemma purgeLocked_step:
  assumes inv: "sync_inv db"
    and row: "fmlookup (clips db) (sc_UserID scope, c) = Some r0"
    and st0: "c_status r0 = ''trash''"
    and ok: "purgeLocked clk scope (clip_of_row c r0) db = Inr (receipt, db')"
  shows "\<exists>i e. log_step (sc_UserID scope) c None i e db db' \<and> e_occurred_at e = clk 1
    \<and> e_kind e = ''clip.purged'' \<and> e_version e = c_version r0 + 1
    \<and> (\<exists>q. tip db' (sc_UserID scope) c = Some (c_version r0 + 1, q)
        \<and> receipt = \<lparr>mr_ID = c, mr_Status = ''purged'', mr_Version = c_version r0 + 1,
             mr_Seq = FormatSeq q, mr_CreatedAt = None, mr_DeletedAt = None, mr_ExpiresAt = None\<rparr>)"
proof -
  let ?u = "sc_UserID scope"
  from ok row obtain s where s: "fmlookup (user_sync_state db) ?u = Some s"
    by (auto simp: purgeLocked_def Let_def res)
  from inv row obtain i0 where
    i0: "fmlookup (clip_ids db) (?u, c) = Some i0" "ci_purged_at i0 = None"
    by (rule sync_inv_clip)
  let ?s = "s\<lparr>next_seq := next_seq s + 1, item_count := item_count s - 1,
              ciphertext_bytes := ciphertext_bytes s - int (length (c_ciphertext r0))\<rparr>"
  let ?i = "i0\<lparr>ci_final_version := Some (c_version r0 + 1), ci_final_seq := Some (next_seq s + 1),
              ci_purged_at := Some (clk 0)\<rparr>"
  let ?e = "\<lparr>e_clip_id = c, e_kind = ''clip.purged'', e_version = c_version r0 + 1,
              e_occurred_at = clk 1\<rparr>"
  from ok s row i0 have c: "check_sync ?s" "sync_in_range ?s" "check_clip_id ?i"
    and db': "db' = log_write ?u c ?s None ?i ?e db"
    and res: "receipt = \<lparr>mr_ID = c, mr_Status = ''purged'', mr_Version = c_version r0 + 1,
             mr_Seq = FormatSeq (next_seq ?s), mr_CreatedAt = None, mr_DeletedAt = None,
             mr_ExpiresAt = None\<rparr>"
    by (auto simp: purgeLocked_def delete_clip_def Let_def res log_write_def)
  have "log_step ?u c None ?i ?e db db'"
    unfolding log_step_def
    by (rule exI [of _ s], rule exI [of _ ?s])
      (use s row i0 c st0 in \<open>simp add: db' tab row_count_def clip_bytes_def tip_def tip_version_def
         tip_kind_def same_identity_def has_row_def life_of_def life_step_iff\<close>)
  with res show ?thesis
    by (intro exI [of _ ?i] exI [of _ ?e]) (simp add: db' tip_def tab)
qed

section \<open>Mutations\<close>

text \<open>
  What a successful mutation did: it found the clip at the expected version and in the state
  its kind starts from, took one step, and its receipt names the version and the sequence
  number the clip now has.
\<close>

definition mutated ::
  "clock \<Rightarrow> Scope \<Rightarrow> string \<Rightarrow> string \<Rightarrow> int \<Rightarrow> MutationReceipt \<Rightarrow> DB \<Rightarrow> DB \<Rightarrow> bool" where
  "mutated clk scope c kind v receipt db db' \<longleftrightarrow>
     (let u = sc_UserID scope in
      \<exists>r0 r i e. fmlookup (clips db) (u, c) = Some r0 \<and> c_version r0 = v
        \<and> log_step u c r i e db db' \<and> mr_ID receipt = c \<and> mr_Version receipt = v + 1
        \<and> e_version e = v + 1 \<and> (\<exists>k\<le>3. e_occurred_at e = clk k)
        \<and> (\<exists>q. tip db' u c = Some (v + 1, q) \<and> mr_Seq receipt = FormatSeq q)
        \<and> (kind = ''trash'' \<and> e_kind e = ''clip.trashed'' \<and> mr_Status receipt = ''trash''
           \<or> kind = ''restore'' \<and> e_kind e = ''clip.restored'' \<and> mr_Status receipt = ''active''
           \<or> kind = ''purge'' \<and> e_kind e = ''clip.purged'' \<and> mr_Status receipt = ''purged''))"

lemma log_step_e_kind: "log_step u c r i e db db' \<Longrightarrow> e_kind e = tip_kind db' u c"
  by (auto simp: log_step_def)

lemma log_step_tip:
  "log_step u c r i e db db' \<Longrightarrow> \<exists>s'. fmlookup (user_sync_state db') u = Some s'
     \<and> tip db' u c = Some (e_version e, next_seq s') \<and> e_version e = tip_version db u c + 1"
  by (auto simp: log_step_def tab)

lemma log_step_rows:
  "log_step u c r i e db db' \<Longrightarrow> fmlookup (clips db') (u, c) = r"
  "log_step u c r i e db db' \<Longrightarrow> fmlookup (clip_ids db') (u, c) = Some i"
  by (auto simp: log_step_def tab)

lemma tip_Some: "fmlookup (clips db) (u, c) = Some r \<Longrightarrow> tip db u c = Some (c_version r, c_last_seq r)"
  by (simp add: tip_def)

lemma mutatedI:
  assumes "fmlookup (clips db) (sc_UserID scope, c) = Some r0" and "c_version r0 = v"
    and "log_step (sc_UserID scope) c r i e db db'" and "e_version e = v + 1"
    and "tip db' (sc_UserID scope) c = Some (v + 1, q)"
    and "mr_ID receipt = c" and "mr_Version receipt = v + 1" and "mr_Seq receipt = FormatSeq q"
    and "kind = ''trash'' \<and> e_kind e = ''clip.trashed'' \<and> mr_Status receipt = ''trash''
         \<or> kind = ''restore'' \<and> e_kind e = ''clip.restored'' \<and> mr_Status receipt = ''active''
         \<or> kind = ''purge'' \<and> e_kind e = ''clip.purged'' \<and> mr_Status receipt = ''purged''"
    and "e_occurred_at e = clk k" and "k \<le> 3"
  shows "mutated clk scope c kind v receipt db db'"
  unfolding mutated_def Let_def using assms by blast

lemma applyMutation_row:
  assumes "applyMutation clk scope c kind v db = Inr (receipt, db')"
  obtains r0 where "fmlookup (clips db) (sc_UserID scope, c) = Some r0" and "c_version r0 = v"
    and "kind = ''trash'' \<and> c_status r0 = ''active''
           \<and> bump clk scope (clip_of_row c r0) ''trash'' ''clip.trashed'' True db = Inr (receipt, db')
       \<or> kind = ''restore'' \<and> c_status r0 = ''trash'' \<and> (\<exists>t. c_expires_at r0 = Some t \<and> clk 0 < t)
           \<and> bump (shift 1 clk) scope (clip_of_row c r0) ''active'' ''clip.restored'' False db
               = Inr (receipt, db')
       \<or> kind = ''purge'' \<and> c_status r0 = ''trash''
           \<and> purgeLocked clk scope (clip_of_row c r0) db = Inr (receipt, db')"
proof (cases "fmlookup (clips db) (sc_UserID scope, c)")
  case None
  with assms show thesis
    by (simp add: applyMutation_def Let_def scanClip_def split: option.splits)
next
  case (Some r0)
  from assms Some have v: "c_version r0 = v"
    by (simp add: applyMutation_def Let_def scanClip_def split: if_splits)
  from assms Some v consider "kind = ''trash''" | "kind = ''restore''" | "kind = ''purge''"
    by (simp add: applyMutation_def Let_def scanClip_def split: if_splits)
  then show thesis
  proof cases
    case 1
    with assms Some v have "c_status r0 = ''active''
        \<and> bump clk scope (clip_of_row c r0) ''trash'' ''clip.trashed'' True db = Inr (receipt, db')"
      by (simp add: applyMutation_def Let_def scanClip_def split: if_splits)
    with 1 show thesis by (intro that [OF Some v] disjI1 conjI) auto
  next
    case 2
    with assms Some v have "c_status r0 = ''trash'' \<and> (\<exists>t. c_expires_at r0 = Some t \<and> clk 0 < t)
        \<and> bump (shift 1 clk) scope (clip_of_row c r0) ''active'' ''clip.restored'' False db
            = Inr (receipt, db')"
      by (simp add: applyMutation_def Let_def scanClip_def not_le split: if_splits option.splits)
    with 2 show thesis by (intro that [OF Some v] disjI2 disjI1 conjI) auto
  next
    case 3
    with assms Some v have "c_status r0 = ''trash''
        \<and> purgeLocked clk scope (clip_of_row c r0) db = Inr (receipt, db')"
      by (simp add: applyMutation_def Let_def scanClip_def split: if_splits)
    with 3 show thesis by (intro that [OF Some v] disjI2 conjI) auto
  qed
qed

lemma applyMutation_step:
  assumes inv: "sync_inv db" and ok: "applyMutation clk scope c kind v db = Inr (receipt, db')"
  shows "mutated clk scope c kind v receipt db db'"
proof -
  from ok obtain r0 where row: "fmlookup (clips db) (sc_UserID scope, c) = Some r0" "c_version r0 = v"
    and "kind = ''trash'' \<and> c_status r0 = ''active''
           \<and> bump clk scope (clip_of_row c r0) ''trash'' ''clip.trashed'' True db = Inr (receipt, db')
       \<or> kind = ''restore'' \<and> c_status r0 = ''trash''
           \<and> bump (shift 1 clk) scope (clip_of_row c r0) ''active'' ''clip.restored'' False db
               = Inr (receipt, db')
       \<or> kind = ''purge'' \<and> c_status r0 = ''trash''
           \<and> purgeLocked clk scope (clip_of_row c r0) db = Inr (receipt, db')"
      (is "?T \<or> ?R \<or> ?P")
    by (rule applyMutation_row) blast
  then consider ?T | ?R | ?P by blast
  then show ?thesis
  proof cases
    case 1
    then obtain i r e where st: "log_step (sc_UserID scope) c (Some r) i e db db'"
      and e: "e_kind e = ''clip.trashed''" "e_version e = v + 1" "e_occurred_at e = clk 2"
      and rc: "mr_ID receipt = c" "mr_Status receipt = ''trash''" "mr_Version receipt = c_version r"
        "mr_Seq receipt = FormatSeq (c_last_seq r)"
      using bump_step [OF inv row(1), of clk "''trash''" "''clip.trashed''" True receipt db'] row(2)
      by auto
    with 1 row tip_Some [OF log_step_rows(1) [OF st]] show ?thesis
      by (intro mutatedI [OF row st e(2)]) (use log_step_tip [OF st] e(3) in auto)
  next
    case 2
    then obtain i r e where st: "log_step (sc_UserID scope) c (Some r) i e db db'"
      and e: "e_kind e = ''clip.restored''" "e_version e = v + 1" "e_occurred_at e = clk 3"
      and rc: "mr_ID receipt = c" "mr_Status receipt = ''active''" "mr_Version receipt = c_version r"
        "mr_Seq receipt = FormatSeq (c_last_seq r)"
      using bump_step [OF inv row(1), of "shift 1 clk" "''active''" "''clip.restored''" False receipt db'] row(2)
      by (auto simp: eval_nat_numeral)
    with 2 row tip_Some [OF log_step_rows(1) [OF st]] show ?thesis
      by (intro mutatedI [OF row st e(2)]) (use log_step_tip [OF st] e(3) in auto)
  next
    case 3
    then obtain i e q where st: "log_step (sc_UserID scope) c None i e db db'"
      and e: "e_kind e = ''clip.purged''" "e_version e = v + 1" "e_occurred_at e = clk 1"
      and t: "tip db' (sc_UserID scope) c = Some (v + 1, q)"
      and rc: "mr_ID receipt = c" "mr_Status receipt = ''purged''" "mr_Version receipt = v + 1"
        "mr_Seq receipt = FormatSeq q"
      using purgeLocked_step [OF inv row(1), of clk receipt db'] row(2)
      by auto
    with 3 t show ?thesis
      by (intro mutatedI [OF row st e(2) t]) (use e(3) in auto)
  qed
qed

section \<open>The operations\<close>

lemma create_tx_replay:
  "create_tx cfg clk scope env nonce ct h db = Inr (res, db') \<Longrightarrow> \<not> cr_Created res \<Longrightarrow> db' = db"
  by (auto simp: create_tx_def Let_def res split: if_splits option.splits)

lemma create_tx_inv:
  assumes "create_tx cfg clk scope env nonce ct h db = Inr (res, db')" and "sync_inv db"
  shows "sync_inv db'"
proof (cases "cr_Created res")
  case True
  from create_tx_step [OF assms(1) this] assms(2) show ?thesis by (blast intro: log_step_inv)
next
  case False
  with create_tx_replay [OF assms(1)] assms(2) show ?thesis by simp
qed

lemma CreateClip_cases:
  assumes "CreateClip clk scope env nonce ct h st = (x, st')"
  obtains (error) e where "x = Inl e" "st' = st"
  | (replay) res where "x = Inr res" "\<not> cr_Created res" "st' = st"
      "create_tx (st_Cfg st) clk scope env nonce ct h (st_Pool st) = Inr (res, st_Pool st)"
  | (fresh) res db where "x = Inr res" "cr_Created res"
      "create_tx (st_Cfg st) clk scope env nonce ct h (st_Pool st) = Inr (res, db)"
      "st' = notify (sc_UserID scope) (st\<lparr>st_Pool := db\<rparr>)"
proof (cases "create_tx (st_Cfg st) clk scope env nonce ct h (st_Pool st)")
  case (Inl e)
  with assms error show thesis by (auto simp: CreateClip_def split: if_splits)
next
  case (Inr p)
  obtain res db where p: "p = (res, db)" by (cases p)
  with Inr create_tx_replay have "\<not> cr_Created res \<Longrightarrow> db = st_Pool st" by fastforce
  with assms Inr p that show thesis
    by (cases "cr_Created res") (auto simp: CreateClip_def split: if_splits)
qed

lemma CreateClip_inv:
  assumes "CreateClip clk scope env nonce ct h st = (x, st')" and "sync_inv (st_Pool st)"
  shows "sync_inv (st_Pool st')"
  using assms(1) by (cases rule: CreateClip_cases) (use assms(2) in \<open>auto dest: create_tx_inv\<close>)

definition add_receipt :: "uuid \<Rightarrow> string \<Rightarrow> receipt_row \<Rightarrow> DB \<Rightarrow> DB" where
  "add_receipt u op r db = db\<lparr>operation_receipts := fmupd (u, op) r (operation_receipts db)\<rparr>"

lemma same_log_add_receipt [simp]: "same_log db (add_receipt u op r db) v"
  by (simp add: same_log_def add_receipt_def)

lemma mutate_tx_cases:
  assumes "mutate_tx clk scope c op kind v h db = Inr ((receipt, fresh), db')"
  obtains (replay) r where "\<not> fresh" "db' = db" "live_receipt (clk 0) (sc_UserID scope) op db = Some r"
      "r_request_hash r = h" "receipt = r_response_body r"
  | (fresh) db1 r where "fresh" "live_receipt (clk 0) (sc_UserID scope) op db = None"
      "applyMutation (shift 1 clk) scope c kind v db = Inr (receipt, db1)"
      "r = \<lparr>r_request_hash = h, r_response_status = 200, r_response_body = receipt,
            r_expires_at = clk 5 + days 30\<rparr>"
      "insert_receipt (sc_UserID scope) op r db1 = Inr db'"
      "db' = add_receipt (sc_UserID scope) op r db1"
  using assms that
  by (auto simp: mutate_tx_def Let_def res add_receipt_def split: option.splits if_splits)

lemma mutate_tx_inv:
  assumes "mutate_tx clk scope c op kind v h db = Inr ((receipt, fresh), db')" and "sync_inv db"
  shows "sync_inv db'"
  using assms(1)
proof (cases rule: mutate_tx_cases)
  case (fresh db1 r)
  with applyMutation_step [OF assms(2) fresh(3)] have "sync_inv db1"
    by (auto simp: mutated_def Let_def intro: log_step_inv [OF _ assms(2)])
  with fresh(6) show ?thesis using sync_inv_cong [of db1 db'] by simp
qed (use assms(2) in simp)

lemma MutateClip_cases:
  assumes "MutateClip clk scope c op kind v h st = (x, st')"
  obtains (error) e where "x = Inl e" "st' = st"
  | (replay) receipt where "x = Inr receipt" "st' = st"
      "mutate_tx clk scope c op kind v h (st_Pool st) = Inr ((receipt, False), st_Pool st)"
  | (fresh) receipt db where "x = Inr receipt"
      "mutate_tx clk scope c op kind v h (st_Pool st) = Inr ((receipt, True), db)"
      "st' = notify (sc_UserID scope) (st\<lparr>st_Pool := db\<rparr>)"
proof (cases "mutate_tx clk scope c op kind v h (st_Pool st)")
  case (Inl e)
  with assms error show thesis by (auto simp: MutateClip_def)
next
  case (Inr p)
  obtain receipt f db where p: "p = ((receipt, f), db)" by (metis surj_pair)
  show thesis
  proof (cases f)
    case True
    with assms Inr p fresh show thesis by (auto simp: MutateClip_def)
  next
    case False
    from Inr p have "mutate_tx clk scope c op kind v h (st_Pool st) = Inr ((receipt, f), db)" by simp
    then have "db = st_Pool st" by (cases rule: mutate_tx_cases) (use False in auto)
    with False assms Inr p replay show thesis by (auto simp: MutateClip_def)
  qed
qed

lemma MutateClip_inv:
  assumes "MutateClip clk scope c op kind v h st = (x, st')" and "sync_inv (st_Pool st)"
  shows "sync_inv (st_Pool st')"
  using assms(1) by (cases rule: MutateClip_cases) (use assms(2) in \<open>auto dest: mutate_tx_inv\<close>)

end
