(* ===== verification/Evolution.thy ===== *)
theory Evolution
  imports Lifecycle
begin

text \<open>
  How the synchronisation state of one user may change over any number of steps.  \<open>evolves\<close> is
  what a client may rely on between two moments: sequence numbers and the retention bound only
  grow, a clip whose row changed in any way has a last event after the earlier sequence number, old
  events are never rewritten, an identifier keeps its request and creation data, content never
  changes, and a purged identifier stays purged.  It is reflexive and transitive, so it holds
  between any two states of a run of which every step satisfies it.
\<close>

definition tips_evolve :: "uuid \<Rightarrow> sync_row \<Rightarrow> sync_row \<Rightarrow> DB \<Rightarrow> DB \<Rightarrow> bool" where
  "tips_evolve u s s' db db' \<longleftrightarrow>
     (\<forall>c. tip db' u c = tip db u c \<and> life_of db' u c = life_of db u c
          \<and> fmlookup (clips db') (u, c) = fmlookup (clips db) (u, c)
        \<or> (\<exists>v q. tip db' u c = Some (v, q) \<and> next_seq s < q \<and> q \<le> next_seq s'
             \<and> tip_version db u c < v))"

definition events_kept :: "uuid \<Rightarrow> sync_row \<Rightarrow> DB \<Rightarrow> DB \<Rightarrow> bool" where
  "events_kept u s db db' \<longleftrightarrow>
     (\<forall>q e. fmlookup (sync_events db') (u, q) = Some e \<longrightarrow> q \<le> next_seq s \<longrightarrow>
        fmlookup (sync_events db) (u, q) = Some e)"

definition ids_kept :: "uuid \<Rightarrow> DB \<Rightarrow> DB \<Rightarrow> bool" where
  "ids_kept u db db' \<longleftrightarrow>
     (\<forall>c i. fmlookup (clip_ids db) (u, c) = Some i \<longrightarrow>
        (\<exists>i'. fmlookup (clip_ids db') (u, c) = Some i' \<and> same_identity i i'
           \<and> (ci_purged_at i \<noteq> None \<longrightarrow> i' = i)))"

definition content_kept :: "uuid \<Rightarrow> DB \<Rightarrow> DB \<Rightarrow> bool" where
  "content_kept u db db' \<longleftrightarrow>
     (\<forall>c r. fmlookup (clips db) (u, c) = Some r \<longrightarrow>
        (\<exists>r'. fmlookup (clips db') (u, c) = Some r' \<and> same_content r r') \<or> life_of db' u c = Purged)
     \<and> (\<forall>c. life_of db u c = Purged \<longrightarrow> life_of db' u c = Purged)"

definition evolves :: "uuid \<Rightarrow> DB \<Rightarrow> DB \<Rightarrow> bool" where
  "evolves u db db' \<longleftrightarrow>
     (\<forall>s. fmlookup (user_sync_state db) u = Some s \<longrightarrow>
        (\<exists>s'. fmlookup (user_sync_state db') u = Some s'
           \<and> next_seq s \<le> next_seq s' \<and> min_available_seq s \<le> min_available_seq s'
           \<and> tips_evolve u s s' db db' \<and> events_kept u s db db'))
     \<and> ids_kept u db db' \<and> content_kept u db db'"

lemma same_content_refl [simp]: "same_content r r"
  by (simp add: same_content_def)

lemma same_content_trans:
  assumes "same_content a b" and "same_content b c"
  shows "same_content a c"
proof -
  from assms(2) have "c = b\<lparr>c_status := c_status c, c_version := c_version c,
      c_last_seq := c_last_seq c, c_deleted_at := c_deleted_at c, c_expires_at := c_expires_at c\<rparr>"
    by (simp only: same_content_def)
  moreover from assms(1) have "b = a\<lparr>c_status := c_status b, c_version := c_version b,
      c_last_seq := c_last_seq b, c_deleted_at := c_deleted_at b, c_expires_at := c_expires_at b\<rparr>"
    by (simp only: same_content_def)
  ultimately show ?thesis
    unfolding same_content_def by (cases a, cases b, cases c) simp
qed

lemma same_identity_refl [simp]: "same_identity i i"
  by (simp add: same_identity_def)

lemma same_identity_trans: "same_identity a b \<Longrightarrow> same_identity b c \<Longrightarrow> same_identity a c"
  by (simp add: same_identity_def)

section \<open>Reflexive and transitive\<close>

lemma life_of_cong: "same_log db db' u \<Longrightarrow> life_of db' u c = life_of db u c"
  by (simp add: same_log_def life_of_def has_row_def cong: option.case_cong)

lemma evolves_same_log: "same_log db db' u \<Longrightarrow> evolves u db db'"
  using tip_cong [of db db' u] life_of_cong [of db db' u]
  by (simp add: evolves_def tips_evolve_def events_kept_def ids_kept_def content_kept_def same_log_def)

lemma evolves_refl [simp]: "evolves u db db"
  by (simp add: evolves_same_log)

lemma evolvesD:
  assumes "evolves u db db'" and "fmlookup (user_sync_state db) u = Some s"
  obtains s' where "fmlookup (user_sync_state db') u = Some s'"
    and "next_seq s \<le> next_seq s'" and "min_available_seq s \<le> min_available_seq s'"
    and "tips_evolve u s s' db db'" and "events_kept u s db db'"
  using assms unfolding evolves_def by blast

lemma tip_version_eq: "tip db u c = tip db' u c \<Longrightarrow> tip_version db u c = tip_version db' u c"
  by (simp add: tip_version_def)

lemma tips_evolve_trans:
  assumes "tips_evolve u s s1 a b" and "tips_evolve u s1 s2 b c"
    and "next_seq s \<le> next_seq s1" and "next_seq s1 \<le> next_seq s2"
  shows "tips_evolve u s s2 a c"
  unfolding tips_evolve_def
proof
  fix k
  let ?same = "\<lambda>a b. tip b u k = tip a u k \<and> life_of b u k = life_of a u k
      \<and> fmlookup (clips b) (u, k) = fmlookup (clips a) (u, k)"
  let ?goal = "?same a c
      \<or> (\<exists>v q. tip c u k = Some (v, q) \<and> next_seq s < q \<and> q \<le> next_seq s2 \<and> tip_version a u k < v)"
  have ab: "?same a b
      \<or> (\<exists>v q. tip b u k = Some (v, q) \<and> next_seq s < q \<and> q \<le> next_seq s1 \<and> tip_version a u k < v)"
    using assms(1) unfolding tips_evolve_def by blast
  then have le: "tip_version a u k \<le> tip_version b u k"
    by (auto simp: tip_version_def)
  from assms(2) have "?same b c
      \<or> (\<exists>v q. tip c u k = Some (v, q) \<and> next_seq s1 < q \<and> q \<le> next_seq s2 \<and> tip_version b u k < v)"
    unfolding tips_evolve_def by blast
  then show ?goal
  proof
    assume "?same b c"
    with ab assms(4) show ?goal by auto
  next
    assume "\<exists>v q. tip c u k = Some (v, q) \<and> next_seq s1 < q \<and> q \<le> next_seq s2 \<and> tip_version b u k < v"
    with le assms(3) show ?goal by auto
  qed
qed

lemma ids_kept_trans:
  assumes ab: "ids_kept u a b" and bc: "ids_kept u b c"
  shows "ids_kept u a c"
  unfolding ids_kept_def
proof (intro allI impI)
  fix k i assume "fmlookup (clip_ids a) (u, k) = Some i"
  with ab obtain j where j: "fmlookup (clip_ids b) (u, k) = Some j" "same_identity i j"
    "ci_purged_at i \<noteq> None \<longrightarrow> j = i" unfolding ids_kept_def by blast
  with bc obtain l where l: "fmlookup (clip_ids c) (u, k) = Some l" "same_identity j l"
    "ci_purged_at j \<noteq> None \<longrightarrow> l = j" unfolding ids_kept_def by blast
  with j show "\<exists>i'. fmlookup (clip_ids c) (u, k) = Some i' \<and> same_identity i i'
      \<and> (ci_purged_at i \<noteq> None \<longrightarrow> i' = i)"
    using same_identity_trans by (intro exI [of _ l]) auto
qed

lemma content_kept_trans:
  assumes ab: "content_kept u a b" and bc: "content_kept u b c"
  shows "content_kept u a c"
proof -
  have "(\<exists>r'. fmlookup (clips c) (u, k) = Some r' \<and> same_content r r') \<or> life_of c u k = Purged"
    if "fmlookup (clips a) (u, k) = Some r" for k r
  proof -
    from ab that have "(\<exists>r'. fmlookup (clips b) (u, k) = Some r' \<and> same_content r r')
        \<or> life_of b u k = Purged" unfolding content_kept_def by blast
    then show ?thesis
    proof
      assume "\<exists>r'. fmlookup (clips b) (u, k) = Some r' \<and> same_content r r'"
      with bc show ?thesis unfolding content_kept_def by (blast intro: same_content_trans)
    next
      assume "life_of b u k = Purged"
      with bc show ?thesis by (simp add: content_kept_def)
    qed
  qed
  with ab bc show ?thesis by (simp add: content_kept_def)
qed

lemma evolves_trans:
  assumes ab: "evolves u a b" and bc: "evolves u b c"
  shows "evolves u a c"
proof -
  have "\<exists>s2. fmlookup (user_sync_state c) u = Some s2 \<and> next_seq s \<le> next_seq s2
      \<and> min_available_seq s \<le> min_available_seq s2 \<and> tips_evolve u s s2 a c \<and> events_kept u s a c"
    if s: "fmlookup (user_sync_state a) u = Some s" for s
  proof -
    from ab s obtain s1 where s1: "fmlookup (user_sync_state b) u = Some s1"
      "next_seq s \<le> next_seq s1" "min_available_seq s \<le> min_available_seq s1"
      "tips_evolve u s s1 a b" "events_kept u s a b" by (rule evolvesD)
    from bc s1(1) obtain s2 where s2: "fmlookup (user_sync_state c) u = Some s2"
      "next_seq s1 \<le> next_seq s2" "min_available_seq s1 \<le> min_available_seq s2"
      "tips_evolve u s1 s2 b c" "events_kept u s1 b c" by (rule evolvesD)
    have "events_kept u s a c"
      using s1(2,5) s2(5) by (auto simp: events_kept_def)
    with s1 s2 tips_evolve_trans [OF s1(4) s2(4) s1(2) s2(2)] show ?thesis by auto
  qed
  with ab bc show ?thesis
    unfolding evolves_def by (blast intro: ids_kept_trans content_kept_trans)
qed

section \<open>Every lifecycle step evolves\<close>

lemma log_step_evolves:
  assumes step: "log_step u c r i e db db'" and inv: "sync_inv db"
  shows "evolves v db db'"
proof (cases "v = u")
  case False
  with step show ?thesis
    by (auto simp: log_step_def intro!: evolves_same_log log_write_other)
next
  case True
  from step obtain s s' where s: "fmlookup (user_sync_state db) u = Some s"
    and db': "db' = log_write u c s' r i e db" and seq: "next_seq s' = next_seq s + 1"
      "min_available_seq s' = min_available_seq s"
    and t: "tip db' u c = Some (e_version e, next_seq s')" "e_version e = tip_version db u c + 1"
    and i: "\<And>i0. fmlookup (clip_ids db) (u, c) = Some i0 \<Longrightarrow> ci_purged_at i0 = None \<and> same_identity i0 i"
    and r: "\<And>r0 r'. fmlookup (clips db) (u, c) = Some r0 \<Longrightarrow> r = Some r' \<Longrightarrow> same_content r0 r'"
    and l: "life_step (life_of db u c) (e_kind e) (life_of db' u c)"
    by (auto simp: log_step_def)
  have other: "tip db' u k = tip db u k" "life_of db' u k = life_of db u k"
    "fmlookup (clips db') (u, k) = fmlookup (clips db) (u, k)" if "k \<noteq> c" for k
    using that by (simp_all add: db' tip_log_write_other life_of_def has_row_iff tab split: option.split)
  have "tips_evolve u s s' db db'"
    unfolding tips_evolve_def
  proof
    fix k
    show "tip db' u k = tip db u k \<and> life_of db' u k = life_of db u k
          \<and> fmlookup (clips db') (u, k) = fmlookup (clips db) (u, k)
        \<or> (\<exists>v q. tip db' u k = Some (v, q) \<and> next_seq s < q \<and> q \<le> next_seq s' \<and> tip_version db u k < v)"
      using other [of k] t seq by (cases "k = c") auto
  qed
  moreover have "events_kept u s db db'"
    using seq by (auto simp: events_kept_def db' tab)
  moreover have "ids_kept u db db'"
    using i by (auto simp: ids_kept_def db' tab)
  moreover have "content_kept u db db'"
  proof -
    have "life_of db' u c = Purged" if "r = None"
      using that by (simp add: db' life_of_def has_row_def tab)
    moreover have "life_of db u c \<noteq> Purged" using l by auto
    then have "life_of db' u k = Purged" if "life_of db u k = Purged" for k
      using that other [of k] by (cases "k = c") auto
    ultimately show ?thesis
      unfolding content_kept_def using r by (cases r) (auto simp: db' tab)
  qed
  ultimately show ?thesis
    using s seq True by (auto simp: evolves_def db' tab)
qed

lemma CreateClip_evolves:
  assumes "CreateClip clk scope env nonce ct h st = (x, st')" and inv: "sync_inv (st_Pool st)"
  shows "evolves u (st_Pool st) (st_Pool st')"
  using assms(1)
proof (cases rule: CreateClip_cases)
  case (fresh res db)
  from create_tx_step [OF fresh(3,2)] show ?thesis
    using fresh(4) by (auto intro: log_step_evolves [OF _ inv])
qed auto

lemma mutated_evolves: "mutated clk scope c kind v receipt db db' \<Longrightarrow> sync_inv db \<Longrightarrow> evolves u db db'"
  by (auto simp: mutated_def Let_def intro: log_step_evolves)

lemma MutateClip_evolves:
  assumes "MutateClip clk scope c op kind v h st = (x, st')" and inv: "sync_inv (st_Pool st)"
  shows "evolves u (st_Pool st) (st_Pool st')"
  using assms(1)
proof (cases rule: MutateClip_cases)
  case (fresh receipt db)
  from fresh(2) show ?thesis
  proof (cases rule: mutate_tx_cases)
    case (fresh db1 r)
    from applyMutation_step [OF inv fresh(3)] have "evolves u (st_Pool st) db1"
      by (rule mutated_evolves [OF _ inv])
    moreover have "evolves u db1 db" using fresh(6) by (simp add: evolves_same_log)
    ultimately show ?thesis using \<open>st' = _\<close> by (auto intro: evolves_trans)
  qed simp
qed auto

end
