(* ===== verification/Sample.thy ===== *)
theory Sample
  imports Lifecycle
begin

text \<open>
  A small concrete server the witnesses of the properties run on: one user with one device and
  a vault, who creates a clip and then moves it to the trash.
\<close>

definition user1 :: uuid where "user1 = ''a1111111-1111-4111-8111-111111111111''"
definition device1 :: uuid where "device1 = ''b1111111-1111-4111-8111-111111111111''"
definition vault1 :: uuid where "vault1 = ''c1111111-1111-4111-8111-111111111111''"
definition clip1 :: uuid where "clip1 = ''d1111111-1111-4111-8111-111111111111''"
definition clip2 :: uuid where "clip2 = ''e1111111-1111-4111-8111-111111111111''"
definition op1 :: uuid where "op1 = ''f1111111-1111-4111-8111-111111111111''"
definition epoch1 :: uuid where "epoch1 = ''91111111-1111-4111-8111-111111111111''"

lemma sample_ids_distinct [simp]: "clip1 \<noteq> clip2" "clip2 \<noteq> clip1"
  by (simp_all add: clip1_def clip2_def)

definition cfg1 :: Config where
  "cfg1 =
     \<lparr>HTTPAddr = '':8080'', PublicOrigin = [], DatabaseURL = [], RegistrationMode = ''open'',
      ExternalAuthURL = [], ExternalRegisterURL = [], EmailBackend = [], SMTPHost = [],
      SMTPPort = 587, SMTPUsername = [], SMTPPassword = [], SMTPFrom = [], SMTPSecure = False,
      MaxTextBytes = 65536, MaxRequestBytes = 131072, MaxItems = 10000,
      MaxCiphertextBytes = 67108864, TrashRetentionSeconds = 604800, EventRetentionDays = 30,
      LogLevel = ''info''\<rparr>"

definition scope1 :: Scope where
  "scope1 = \<lparr>sc_UserID = user1, sc_DeviceID = device1, sc_SessionID = [], sc_FamilyID = []\<rparr>"

definition hash1 :: bytes where "hash1 = replicate 32 7"
definition nonce1 :: bytes where "nonce1 = replicate 12 1"
definition cipher1 :: bytes where "cipher1 = replicate 20 2"

definition envelope :: "uuid \<Rightarrow> Envelope" where
  "envelope c =
     \<lparr>env_ID = c, env_VaultID = vault1, env_SourceDeviceID = device1, env_FormatVersion = 1,
      env_KeyEpoch = 1, env_ContentType = ''text/plain'', env_Nonce = Encode nonce1,
      env_Ciphertext = Encode cipher1, env_DeliveryIntent = ''live''\<rparr>"

definition db0 :: DB where
  "db0 = empty_db
     \<lparr>users := fmupd user1
        \<lparr>u_username = ''alice'', u_password_hash = ''x'', u_status = ''active'', u_created_at = 0,
         u_email = None, u_email_verified_at = None, u_auth_provider = ''local'',
         u_external_subject = None\<rparr> fmempty,
      devices := fmupd (user1, device1)
        \<lparr>d_name = ''laptop'', d_platform = ''windows'', d_created_at = 0, d_last_seen_at = None,
         d_revoked_at = None\<rparr> fmempty,
      vaults := fmupd user1
        \<lparr>v_id = vault1, v_format_version = 1, v_key_epoch = 1, v_wrap_salt = replicate 32 0,
         v_wrap_nonce = replicate 12 0, v_wrapped_key = replicate 48 0, v_password = None\<rparr> fmempty,
      user_sync_state := fmupd user1
        \<lparr>next_seq = 0, min_available_seq = 1, ciphertext_bytes = 0, item_count = 0\<rparr> fmempty,
      server_state := Some \<lparr>server_id = epoch1, sync_epoch = epoch1\<rparr>\<rparr>"

definition store0 :: Store where
  "store0 = \<lparr>st_Pool = db0, st_Cfg = cfg1, st_Hub = None\<rparr>"

text \<open>The clip as created at time t under sequence number q.\<close>

definition clip_row1 :: "time \<Rightarrow> int \<Rightarrow> clip_row" where
  "clip_row1 t q =
     \<lparr>c_source_device_id = device1, c_vault_id = vault1, c_key_epoch = 1, c_format_version = 1,
      c_content_type = ''text/plain'', c_nonce = nonce1, c_ciphertext = cipher1,
      c_delivery_intent = ''live'', c_status = ''active'', c_version = 1, c_created_seq = q,
      c_last_seq = q, c_created_at = t, c_deleted_at = None, c_expires_at = None\<rparr>"

definition clip_id1 :: "time \<Rightarrow> int \<Rightarrow> clip_id_row" where
  "clip_id1 t q =
     \<lparr>ci_request_hash = hash1, ci_created_seq = q, ci_created_at = t, ci_final_version = None,
      ci_final_seq = None, ci_purged_at = None\<rparr>"

definition db1 :: DB where
  "db1 = log_write user1 clip1
     \<lparr>next_seq = 1, min_available_seq = 1, ciphertext_bytes = 20, item_count = 1\<rparr>
     (Some (clip_row1 10 1)) (clip_id1 10 1)
     \<lparr>e_clip_id = clip1, e_kind = ''clip.created'', e_version = 1, e_occurred_at = 10\<rparr> db0"

definition store1 :: Store where "store1 = store0\<lparr>st_Pool := db1\<rparr>"

definition receipt1 :: MutationReceipt where
  "receipt1 = \<lparr>mr_ID = clip1, mr_Status = ''active'', mr_Version = 1, mr_Seq = ''1'',
     mr_CreatedAt = Some 10, mr_DeletedAt = None, mr_ExpiresAt = None\<rparr>"

lemmas sample_defs = scope1_def envelope_def store0_def cfg1_def

lemma lookup_db0 [simp]:
  "fmlookup (users db0) user1 = Some \<lparr>u_username = ''alice'', u_password_hash = ''x'',
     u_status = ''active'', u_created_at = 0, u_email = None, u_email_verified_at = None,
     u_auth_provider = ''local'', u_external_subject = None\<rparr>"
  "has_row (users db0) user1"
  "fmlookup (user_sync_state db0) u = (if u = user1 then
     Some \<lparr>next_seq = 0, min_available_seq = 1, ciphertext_bytes = 0, item_count = 0\<rparr> else None)"
  "fmlookup (clips db0) k = None" "fmlookup (clip_ids db0) k = None"
  "fmlookup (sync_events db0) l = None" "fmlookup (operation_receipts db0) m = None"
  "fmlookup (snapshot_sessions db0) n = None"
  "server_state db0 = Some \<lparr>server_id = epoch1, sync_epoch = epoch1\<rparr>"
  "has_row (devices db0) (user1, device1)"
  "fmlookup (devices db0) (user1, device1) = Some \<lparr>d_name = ''laptop'', d_platform = ''windows'',
     d_created_at = 0, d_last_seen_at = None, d_revoked_at = None\<rparr>"
  "fmlookup (vaults db0) user1 = Some \<lparr>v_id = vault1, v_format_version = 1, v_key_epoch = 1,
     v_wrap_salt = replicate 32 0, v_wrap_nonce = replicate 12 0, v_wrapped_key = replicate 48 0,
     v_password = None\<rparr>"
  by (auto simp: db0_def empty_db_def has_row_def)

lemma sync_inv_db0: "sync_inv db0"
  by (auto simp: sync_inv_def user_inv_def counts_ok_def registry_ok_def log_ok_def tips_ok_def
      events_ok_def no_log_def clip_set_def has_row_def tip_def check_sync_def sync_in_range_def
      in_int8_def in_int4_def)

lemmas statement_defs =
  update_sync_def insert_clip_id_def insert_clip_def insert_event_def update_clip_def
  update_clip_returning_def update_clip_id_def insert_receipt_def

lemmas check_defs =
  check_clip_def check_clip_id_def check_event_def check_sync_def check_receipt_def sync_in_range_def
  clip_in_range_def clip_fk_def in_int8_def in_int4_def has_row_def

lemma FormatSeq_small [simp]: "FormatSeq 1 = ''1''" "FormatSeq 2 = ''2''" "FormatSeq 3 = ''3''"
  by code_simp+

lemma create1:
  "CreateClip (\<lambda>_. 10) scope1 (envelope clip1) nonce1 cipher1 hash1 store0
     = (Inr \<lparr>cr_Receipt = receipt1, cr_Created = True\<rparr>, store1)"
  by (simp add: CreateClip_def create_tx_def run_tx_def Let_def statement_defs check_defs sample_defs
      hash1_def nonce1_def cipher1_def i64_def notify_def store1_def db1_def receipt1_def
      clip_row1_def clip_id1_def log_write_def)

text \<open>The clip in the trash since time t, under sequence number q, and purged.\<close>

definition trashed1 :: "time \<Rightarrow> int \<Rightarrow> clip_row" where
  "trashed1 t q = (clip_row1 10 1)
     \<lparr>c_status := ''trash'', c_version := 2, c_last_seq := q, c_deleted_at := Some t,
      c_expires_at := Some (t + hours 168)\<rparr>"

definition receipt2 :: MutationReceipt where
  "receipt2 = \<lparr>mr_ID = clip1, mr_Status = ''trash'', mr_Version = 2, mr_Seq = ''2'',
     mr_CreatedAt = None, mr_DeletedAt = Some 20, mr_ExpiresAt = Some (20 + hours 168)\<rparr>"

definition receipt_row2 :: receipt_row where
  "receipt_row2 = \<lparr>r_request_hash = hash1, r_response_status = 200, r_response_body = receipt2,
     r_expires_at = 20 + days 30\<rparr>"

definition db2 :: DB where
  "db2 = add_receipt user1 op1 receipt_row2
     (log_write user1 clip1
       \<lparr>next_seq = 2, min_available_seq = 1, ciphertext_bytes = 20, item_count = 1\<rparr>
       (Some (trashed1 20 2)) (clip_id1 10 1)
       \<lparr>e_clip_id = clip1, e_kind = ''clip.trashed'', e_version = 2, e_occurred_at = 20\<rparr> db1)"

definition store2 :: Store where "store2 = store0\<lparr>st_Pool := db2\<rparr>"

lemma trash1:
  "MutateClip (\<lambda>_. 20) scope1 clip1 op1 ''trash'' 1 hash1 store1 = (Inr receipt2, store2)"
  by (simp add: MutateClip_def mutate_tx_def live_receipt_def applyMutation_def scanClip_def bump_def
      clip_of_row_def run_tx_def Let_def statement_defs check_defs sample_defs
      hash1_def nonce1_def cipher1_def notify_def store1_def db1_def receipt2_def receipt_row2_def
      clip_row1_def clip_id1_def log_write_def store2_def db2_def trashed1_def add_receipt_def)

lemma sync_inv_db1: "sync_inv (st_Pool store1)"
  by (rule CreateClip_inv [OF create1]) (simp add: store0_def sync_inv_db0)

lemma sync_inv_db2: "sync_inv (st_Pool store2)"
  by (rule MutateClip_inv [OF trash1 sync_inv_db1])

lemma store_simps [simp]:
  "st_Pool store0 = db0" "st_Pool store1 = db1" "st_Pool store2 = db2"
  "sc_UserID scope1 = user1" "sc_DeviceID scope1 = device1"
  by (simp_all add: store0_def store1_def store2_def scope1_def)

lemma lookup_db1 [simp]:
  "fmlookup (user_sync_state db1) user1 =
     Some \<lparr>next_seq = 1, min_available_seq = 1, ciphertext_bytes = 20, item_count = 1\<rparr>"
  "fmlookup (clips db1) k = (if k = (user1, clip1) then Some (clip_row1 10 1) else None)"
  "fmlookup (clip_ids db1) k = (if k = (user1, clip1) then Some (clip_id1 10 1) else None)"
  "server_state db1 = Some \<lparr>server_id = epoch1, sync_epoch = epoch1\<rparr>"
  "vaults db1 = vaults db0" "devices db1 = devices db0" "users db1 = users db0"
  by (simp_all add: db1_def log_write_def)

lemma lookup_db2 [simp]:
  "fmlookup (user_sync_state db2) user1 =
     Some \<lparr>next_seq = 2, min_available_seq = 1, ciphertext_bytes = 20, item_count = 1\<rparr>"
  "fmlookup (clips db2) k = (if k = (user1, clip1) then Some (trashed1 20 2) else None)"
  "fmlookup (clip_ids db2) k = (if k = (user1, clip1) then Some (clip_id1 10 1) else None)"
  "server_state db2 = Some \<lparr>server_id = epoch1, sync_epoch = epoch1\<rparr>"
  "vaults db2 = vaults db0" "devices db2 = devices db0" "users db2 = users db0"
  by (simp_all add: db2_def add_receipt_def log_write_def)

end
