(* ===== verification/Feed.thy ===== *)
theory Feed
  imports Sync Evolution Sample
begin

text \<open>
  Correctness of the change feed: a page is the contiguous run of events after the cursor, the
  feed is a pager up to the high watermark, a client that polls reads every event once and in
  order, and every clip that changed between two moments has its last event in the feed between
  their sequence numbers.
\<close>

section \<open>The log as a list\<close>

lemma set_user_events [simp]:
  "(q, e) \<in> set (user_events db u) \<longleftrightarrow> fmlookup (sync_events db) (u, q) = Some e"
  by (force simp: user_events_def)

lemma distinct_map_sort_key: "distinct (map f (sort_key g xs)) = distinct (map f xs)"
  by (simp add: distinct_map)

lemma user_events_sorted: "sorted_wrt (\<lambda>x y. fst x < fst y) (user_events db u)"
proof -
  let ?l = "map (\<lambda>((_, q), e). (q, e)) (filter (\<lambda>((v, _), _). v = u) (rows (sync_events db)))"
  have "map fst ?l = map snd (filter (\<lambda>k. fst k = u) (keys_sorted (sync_events db)))"
    by (simp add: rows_def filter_map comp_def case_prod_beta)
  moreover have "inj_on snd (set (filter (\<lambda>k. fst k = u) (keys_sorted (sync_events db))))"
    by (auto simp: inj_on_def)
  ultimately have "distinct (map fst ?l)" by (simp add: distinct_map)
  then have "distinct (map fst (user_events db u))"
    unfolding user_events_def by (simp only: distinct_map_sort_key)
  moreover have "sorted (map fst (user_events db u))" by (simp add: user_events_def)
  ultimately have "sorted_wrt (<) (map fst (user_events db u))"
    by (simp add: strict_sorted_iff)
  then show ?thesis by (simp add: sorted_wrt_map)
qed

lemma events_between_sorted: "sorted_wrt (\<lambda>x y. fst x < fst y) (events_between db u lo hi)"
  unfolding events_between_def using user_events_sorted by (rule sorted_wrt_filter)

lemma set_events_between [simp]:
  "(q, e) \<in> set (events_between db u lo hi) \<longleftrightarrow>
     lo < q \<and> q \<le> hi \<and> fmlookup (sync_events db) (u, q) = Some e"
  by (auto simp: events_between_def)

lemma in_set_map_fst: "q \<in> set (map fst xs) \<longleftrightarrow> (\<exists>e. (q, e) \<in> set xs)"
  by force

lemma log_ok_row:
  "log_ok db u s \<Longrightarrow> has_row (sync_events db) (u, q) \<longleftrightarrow> min_available_seq s \<le> q \<and> q \<le> next_seq s"
  by (simp add: log_ok_def)

lemma log_ok_bounds:
  "log_ok db u s \<Longrightarrow> 1 \<le> min_available_seq s \<and> min_available_seq s \<le> next_seq s + 1"
  by (simp add: log_ok_def check_sync_def)

lemma events_between_seqs:
  assumes "log_ok db u s" and "min_available_seq s \<le> lo + 1" and "hi \<le> next_seq s"
  shows "map fst (events_between db u lo hi) = [lo + 1..hi]"
proof (rule sorted_distinct_set_unique)
  have "sorted_wrt (<) (map fst (events_between db u lo hi))"
    using events_between_sorted by (simp add: sorted_wrt_map)
  then show "sorted (map fst (events_between db u lo hi))" "distinct (map fst (events_between db u lo hi))"
    by (simp_all add: strict_sorted_iff)
  have "has_row (sync_events db) (u, q)" if "lo < q" "q \<le> hi" for q
    using assms that by (auto simp: log_ok_def)
  moreover have "q \<in> set (map fst (events_between db u lo hi)) \<longleftrightarrow>
      lo < q \<and> q \<le> hi \<and> has_row (sync_events db) (u, q)" for q
    using in_set_map_fst [of q "events_between db u lo hi"] by (simp add: has_row_iff)
  ultimately show "set (map fst (events_between db u lo hi)) = set [lo + 1..hi]"
    by auto
qed simp_all

lemma events_between_length:
  assumes "log_ok db u s" and "min_available_seq s \<le> lo + 1" and "hi \<le> next_seq s"
  shows "length (events_between db u lo hi) = nat (hi - lo)"
  using arg_cong [OF events_between_seqs [OF assms], of length] by simp

lemma events_between_drop:
  "lo \<le> q \<Longrightarrow> events_between db u q hi = filter (\<lambda>x. q < fst x) (events_between db u lo hi)"
  by (auto simp: events_between_def intro: filter_cong)

section \<open>A page of the feed\<close>

text \<open>\<open>feed_page\<close> is what a page holds and the cursor it hands out when there is more.\<close>

definition feed_page :: "DB \<Rightarrow> uuid \<Rightarrow> int \<Rightarrow> int \<Rightarrow> nat \<Rightarrow> int option \<Rightarrow> (int \<times> event_row) list \<times> int option" where
  "feed_page db u lo hi n q =
     (let q = (case q of None \<Rightarrow> lo | Some q \<Rightarrow> max lo q);
          items = take n (events_between db u q hi);
          next = (if items \<noteq> [] then fst (last items) else q)
      in (items, if next < hi then Some next else None))"

lemma upto_nth: "i < length [a..b] \<Longrightarrow> [a..b] ! i = a + int i"
  by (simp add: nth_upto)

lemma feed_next:
  assumes "log_ok db u s" and "min_available_seq s \<le> lo + 1" and "lo \<le> hi" and "hi \<le> next_seq s"
    and items: "items = take n (events_between db u lo hi)"
  shows "(if items \<noteq> [] then fst (last items) else lo) = lo + int (min n (nat (hi - lo)))"
proof -
  have "map fst items = take n (map fst (events_between db u lo hi))"
    by (simp add: items take_map)
  then have m: "map fst items = take n [lo + 1..hi]"
    by (simp only: events_between_seqs [OF assms(1,2,4)])
  from arg_cong [OF this, of length] have len: "length items = min n (nat (hi - lo))"
    by simp
  show ?thesis
  proof (cases "items = []")
    case True
    with len show ?thesis by simp
  next
    case False
    then have "fst (last items) = last (map fst items)" by (simp add: last_map)
    also have "\<dots> = map fst items ! (length items - 1)"
      using False by (simp add: last_conv_nth)
    also have "\<dots> = [lo + 1..hi] ! (length items - 1)"
    proof -
      have "length items - 1 < n" using False len by (cases items) auto
      then show ?thesis unfolding m by simp
    qed
    also have "\<dots> = lo + int (length items)"
    proof -
      from False obtain k where k: "length items = Suc k" by (cases items) auto
      with len have "k < nat (hi - lo)" by simp
      with k show ?thesis by (simp add: upto_nth)
    qed
    finally show ?thesis using False len by simp
  qed
qed

text \<open>The feed from a cursor to the high watermark, as a pager.\<close>

lemma feed_remaining:
  "remaining (events_between db u lo hi) fst (<) q =
     events_between db u (case q of None \<Rightarrow> lo | Some q \<Rightarrow> max lo q) hi"
  by (cases q) (auto simp: remaining_def events_between_def intro: filter_cong)

lemma feed_page_laws:
  assumes "log_ok db u s" and "min_available_seq s \<le> lo + 1" and hi: "hi = next_seq s" and n: "0 < n"
    and r: "rest = remaining (events_between db u lo hi) fst (<) q"
  shows "fst (feed_page db u lo hi n q) = take n rest"
    and "snd (feed_page db u lo hi n q) = (if n < length rest then Some (fst (rest ! (n - 1))) else None)"
proof -
  define Q where "Q = (case q of None \<Rightarrow> lo | Some q \<Rightarrow> max lo q)"
  have q: "min_available_seq s \<le> Q + 1" using assms(2) by (auto simp: Q_def split: option.split)
  have rest: "rest = events_between db u Q hi" by (simp add: r feed_remaining Q_def)
  show "fst (feed_page db u lo hi n q) = take n rest"
    by (simp add: feed_page_def rest Let_def Q_def)
  have seqs: "map fst rest = [Q + 1..hi]"
    unfolding rest by (rule events_between_seqs [OF assms(1) q]) (simp add: hi)
  from arg_cong [OF seqs, of length] have len: "length rest = nat (hi - Q)" by simp
  define nxt where "nxt = (if take n rest \<noteq> [] then fst (last (take n rest)) else Q)"
  have page: "snd (feed_page db u lo hi n q) = (if nxt < hi then Some nxt else None)"
    by (simp only: feed_page_def Let_def rest nxt_def snd_conv flip: Q_def)
  show "snd (feed_page db u lo hi n q) = (if n < length rest then Some (fst (rest ! (n - 1))) else None)"
  proof (cases "Q \<le> hi")
    case True
    have nxt: "nxt = Q + int (min n (nat (hi - Q)))"
      unfolding nxt_def by (rule feed_next [OF assms(1) q True]) (simp_all add: hi rest)
    have "fst (rest ! (n - 1)) = Q + int n" if "n < length rest"
    proof -
      have "fst (rest ! (n - 1)) = map fst rest ! (n - 1)" using that by simp
      also have "\<dots> = Q + int n" unfolding seqs using that n len by (subst upto_nth) auto
      finally show ?thesis .
    qed
    with nxt len True show ?thesis unfolding page by auto
  next
    case False
    with len have "rest = []" by simp
    with False len show ?thesis unfolding page by (simp add: nxt_def)
  qed
qed

lemma feed_pager:
  assumes "log_ok db u s" and "min_available_seq s \<le> lo + 1"
  shows "pager (events_between db u lo (next_seq s)) fst (<) (feed_page db u lo (next_seq s))"
  by unfold_locales (simp_all add: events_between_sorted feed_page_laws [OF assms refl])

section \<open>Changes serves the feed\<close>

definition page_size :: "int \<Rightarrow> nat" where
  "page_size limit = nat (if limit \<le> 0 then 100 else limit)"

lemma page_size_pos [simp]: "0 < page_size limit"
  by (simp add: page_size_def)

lemma log_ok_Seq: "log_ok db u s \<Longrightarrow> 0 \<le> q \<Longrightarrow> q \<le> next_seq s \<Longrightarrow> Seq (FormatSeq q) = Some q"
  by (rule seq.dec_enc) (auto simp: log_ok_def sync_in_range_def in_int8_def)

lemma Changes_eq:
  assumes log: "log_ok (st_Pool st) (sc_UserID scope) s"
    and s: "fmlookup (user_sync_state (st_Pool st)) (sc_UserID scope) = Some s"
    and ss: "server_state (st_Pool st) = Some ss"
    and cur: "min_available_seq s \<le> after + 1" "after \<le> next_seq s"
    and evs_def: "evs = take (page_size limit) (events_between (st_Pool st) (sc_UserID scope) after (next_seq s))"
    and nxt_def: "nxt = after + int (min (page_size limit) (nat (next_seq s - after)))"
  shows "Changes clk scope (sync_epoch ss) after limit st =
    Inr \<lparr>cp_SyncEpoch = sync_epoch ss, cp_Events = map change_of_row evs, cp_NextSeq = FormatSeq nxt,
         cp_HighWatermark = FormatSeq (next_seq s), cp_HasMore = (nxt < next_seq s),
         cp_ServerTime = clk 0\<rparr>"
proof -
  have nxt: "(if evs \<noteq> [] then fst (last evs) else after) = nxt"
    unfolding nxt_def evs_def by (rule feed_next [OF log cur(1) cur(2) order_refl refl])
  have "Seq (ch_Seq (last (map change_of_row evs))) = Some (fst (last evs))" if "evs \<noteq> []"
  proof -
    have "last evs \<in> set evs" using that by simp
    then have "last evs \<in> set (events_between (st_Pool st) (sc_UserID scope) after (next_seq s))"
      unfolding evs_def by (rule in_set_takeD)
    then have "(fst (last evs), snd (last evs)) \<in>
        set (events_between (st_Pool st) (sc_UserID scope) after (next_seq s))"
      by (simp only: prod.collapse)
    then have "after < fst (last evs)" "fst (last evs) \<le> next_seq s"
      unfolding set_events_between by blast+
    moreover have "1 \<le> min_available_seq s" using log by (simp add: log_ok_def check_sync_def)
    ultimately have "0 \<le> fst (last evs)" "fst (last evs) \<le> next_seq s"
      using cur(1) by simp_all
    then show ?thesis
      using that log_ok_Seq [OF log] by (simp add: last_map change_of_row_def)
  qed
  then have "(if map change_of_row evs \<noteq> [] then
         (case Seq (ch_Seq (last (map change_of_row evs))) of None \<Rightarrow> 0 | Some n \<Rightarrow> n) else after) = nxt"
    using nxt by auto
  then show ?thesis
    using s ss cur unfolding evs_def page_size_def
    by (auto simp: Changes_def Changes_read_def Let_def)
qed

lemma Changes_Inr:
  assumes "Changes clk scope epoch after limit st = Inr page"
  obtains s ss where "fmlookup (user_sync_state (st_Pool st)) (sc_UserID scope) = Some s"
    and "server_state (st_Pool st) = Some ss" and "epoch = sync_epoch ss"
    and "min_available_seq s \<le> after + 1" and "after \<le> next_seq s"
  using assms by (auto simp: Changes_def Changes_read_def Let_def split: option.splits if_splits)

lemma user_log_ok:
  "sync_inv db \<Longrightarrow> fmlookup (user_sync_state db) u = Some s \<Longrightarrow> log_ok db u s"
  by (drule (1) sync_invD) (simp add: user_inv_def)

text \<open>
  A transaction of the feed reads the counters of one state and the events of a later one, in
  which retention may have passed in between: what the second has no longer is below its bound.
\<close>

lemma events_between_retained:
  assumes "log_ok db u s"
  shows "events_between db u lo hi = events_between db u (max lo (min_available_seq s - 1)) hi"
proof -
  have "min_available_seq s \<le> q" if "(q, e) \<in> set (user_events db u)" for q e
    using that log_ok_row [OF assms, of q] by (simp add: has_row_iff)
  then show ?thesis unfolding events_between_def by (intro filter_cong) fastforce+
qed

text \<open>A page that starts where the log is complete.\<close>

lemma page_run:
  assumes log: "log_ok db u s'" and start: "min_available_seq s' \<le> start + 1" "0 \<le> start"
    and high: "high \<le> next_seq s'"
    and evs_def: "evs = take most (events_between db u start high)" and n_def: "n = min most (nat (high - start))"
  shows "map fst evs = [start + 1..start + int n]"
    and "\<forall>(q, e) \<in> set evs. fmlookup (sync_events db) (u, q) = Some e"
    and "n \<noteq> 0 \<Longrightarrow> Seq (ch_Seq (last (map change_of_row evs))) = Some (start + int n)"
proof -
  have all: "map fst (events_between db u start high) = [start + 1..high]"
    by (rule events_between_seqs [OF log start(1) high])
  have "map fst evs = take most [start + 1..high]"
    by (simp only: evs_def all flip: take_map)
  also have "\<dots> = [start + 1..start + int n]"
    by (intro nth_equalityI) (auto simp: upto_nth n_def)
  finally show seqs: "map fst evs = [start + 1..start + int n]" .
  show "\<forall>(q, e) \<in> set evs. fmlookup (sync_events db) (u, q) = Some e"
    by (auto simp: evs_def dest!: in_set_takeD)
  assume n: "n \<noteq> 0"
  with arg_cong [OF seqs, of length] have ne: "evs \<noteq> []" by auto
  then have "fst (last evs) = last (map fst evs)" by (simp add: last_map)
  also have "\<dots> = start + int n"
    unfolding seqs using n by (subst last_conv_nth) (auto simp: upto_nth)
  finally have "ch_Seq (last (map change_of_row evs)) = FormatSeq (start + int n)"
    using ne by (simp add: last_map change_of_row_def)
  moreover have "start + int n \<le> next_seq s'" using high n by (auto simp: n_def min_def)
  ultimately show "Seq (ch_Seq (last (map change_of_row evs))) = Some (start + int n)"
    using log_ok_Seq [OF log] start(2) by simp
qed

lemma Changes_read_Inr:
  assumes "Changes_read clk scope epoch after limit d0 d1 d2 = Inr page"
  obtains s events where "fmlookup (user_sync_state d1) (sc_UserID scope) = Some s"
    and "min_available_seq s \<le> after + 1" and "after \<le> next_seq s"
    and "events = map change_of_row
      (take (page_size limit) (events_between d2 (sc_UserID scope) after (next_seq s)))"
    and "cp_Events page = events" and "cp_HighWatermark page = FormatSeq (next_seq s)"
    and "cp_NextSeq page = FormatSeq (if events \<noteq> [] then
      (case Seq (ch_Seq (last events)) of None \<Rightarrow> 0 | Some n \<Rightarrow> n) else after)"
    and "cp_HasMore page = ((if events \<noteq> [] then
      (case Seq (ch_Seq (last events)) of None \<Rightarrow> 0 | Some n \<Rightarrow> n) else after) < next_seq s)"
  using assms by (auto simp: Changes_read_def page_size_def Let_def split: option.splits if_splits)

text \<open>
  C17: A page of the change feed, whatever is committed between the statements that read it.  The
  counters are read from one state and the events from a later one.  The page is a run of
  consecutive events with the content the later state has for them, up to the high watermark of
  the earlier one, as many as the limit allows.  It starts right after the cursor, unless
  retention has removed events after the cursor in between: then it starts at the first event
  that is left, and the client is not told.  The next cursor is the last event of the page, or
  the cursor if there is none, and there is more exactly when it is below the high watermark.
\<close>

theorem Changes_page:
  assumes inv: "sync_inv d1" "sync_inv d2" and later: "evolves (sc_UserID scope) d1 d2"
    and ok: "Changes_read clk scope epoch after limit d0 d1 d2 = Inr page"
  shows "\<exists>s s' evs start n. fmlookup (user_sync_state d1) (sc_UserID scope) = Some s
    \<and> fmlookup (user_sync_state d2) (sc_UserID scope) = Some s'
    \<and> start = (if min_available_seq s' \<le> after + 1 then after else min_available_seq s' - 1)
    \<and> n = min (page_size limit) (nat (next_seq s - start))
    \<and> map fst evs = [start + 1..start + int n]
    \<and> (\<forall>(q, e) \<in> set evs. fmlookup (sync_events d2) (sc_UserID scope, q) = Some e)
    \<and> cp_Events page = map change_of_row evs
    \<and> cp_NextSeq page = FormatSeq (if n = 0 then after else start + int n)
    \<and> cp_HighWatermark page = FormatSeq (next_seq s)
    \<and> cp_HasMore page = ((if n = 0 then after else start + int n) < next_seq s)"
proof -
  let ?u = "sc_UserID scope"
  from ok obtain s events where s: "fmlookup (user_sync_state d1) ?u = Some s"
    and cur: "min_available_seq s \<le> after + 1" "after \<le> next_seq s"
    and events: "events = map change_of_row (take (page_size limit) (events_between d2 ?u after (next_seq s)))"
    and page: "cp_Events page = events" "cp_HighWatermark page = FormatSeq (next_seq s)"
      "cp_NextSeq page = FormatSeq (if events \<noteq> [] then
        (case Seq (ch_Seq (last events)) of None \<Rightarrow> 0 | Some n \<Rightarrow> n) else after)"
      "cp_HasMore page = ((if events \<noteq> [] then
        (case Seq (ch_Seq (last events)) of None \<Rightarrow> 0 | Some n \<Rightarrow> n) else after) < next_seq s)"
    by (rule Changes_read_Inr)
  from later s obtain s' where s': "fmlookup (user_sync_state d2) ?u = Some s'" "next_seq s \<le> next_seq s'"
    by (rule evolvesD)
  note log = user_log_ok [OF inv(2) s'(1)]
  define start where "start = (if min_available_seq s' \<le> after + 1 then after else min_available_seq s' - 1)"
  define n where "n = min (page_size limit) (nat (next_seq s - start))"
  define evs where "evs = take (page_size limit) (events_between d2 ?u start (next_seq s))"
  have "max after (min_available_seq s' - 1) = start" by (simp add: start_def)
  then have evs: "events = map change_of_row evs"
    using events_between_retained [OF log, of after "next_seq s"] by (simp add: events evs_def)
  have "0 \<le> start" using log_ok_bounds [OF user_log_ok [OF inv(1) s]] cur(1) by (simp add: start_def)
  with page_run [OF log _ _ s'(2) evs_def n_def]
  have seqs: "map fst evs = [start + 1..start + int n]"
    and rows: "\<forall>(q, e) \<in> set evs. fmlookup (sync_events d2) (?u, q) = Some e"
    and last: "n \<noteq> 0 \<Longrightarrow> Seq (ch_Seq (last events)) = Some (start + int n)"
    unfolding evs by (simp_all add: start_def)
  from arg_cong [OF seqs, of length] have len: "length evs = n" by simp
  have "events \<noteq> [] \<longleftrightarrow> n \<noteq> 0" using len evs by auto
  with last have "(if events \<noteq> [] then (case Seq (ch_Seq (last events)) of None \<Rightarrow> 0 | Some m \<Rightarrow> m) else after)
      = (if n = 0 then after else start + int n)" by simp
  with page s s'(1) evs seqs rows n_def start_def show ?thesis
    by (intro exI [of _ s] exI [of _ s'] exI [of _ evs] exI [of _ start] exI [of _ n]) simp
qed

lemma Changes_store2:
  assumes "0 \<le> after" and "after \<le> 2"
  shows "\<exists>page. Changes clk scope1 epoch1 after limit store2 = Inr page"
proof -
  have "log_ok (st_Pool store2) (sc_UserID scope1)
      \<lparr>next_seq = 2, min_available_seq = 1, ciphertext_bytes = 20, item_count = 1\<rparr>"
    by (rule user_log_ok [OF sync_inv_db2]) simp
  from Changes_eq [OF this, where ss = "\<lparr>server_id = epoch1, sync_epoch = epoch1\<rparr>"] assms
  show ?thesis by simp
qed

text \<open>The counters are read before the sample clip is moved to the trash, the events after it.\<close>

theorem Changes_page_witness:
  "\<exists>page. Changes_read (\<lambda>_. 30) scope1 epoch1 0 5 db1 db1 db2 = Inr page
     \<and> cp_HighWatermark page = ''1'' \<and> cp_NextSeq page = ''1'' \<and> \<not> cp_HasMore page"
proof -
  have inv: "sync_inv db1" "sync_inv db2" using sync_inv_db1 sync_inv_db2 by simp_all
  have later: "evolves (sc_UserID scope1) db1 db2" using MutateClip_evolves [OF trash1 sync_inv_db1] by simp
  have "\<exists>page. Changes_read (\<lambda>_. 30) scope1 epoch1 0 5 db1 db1 db2 = Inr page" by (simp add: Changes_read_def Let_def)
  then obtain page where p: "Changes_read (\<lambda>_. 30) scope1 epoch1 0 5 db1 db1 db2 = Inr page" ..
  from Changes_page [OF inv later p] p show ?thesis by (auto simp: page_size_def)
qed

text \<open>Events after a cursor are missing exactly when the log starts later; the three answers.\<close>

lemma log_gap:
  assumes log: "log_ok db u s"
  shows "(\<exists>q. after < q \<and> q \<le> next_seq s \<and> \<not> has_row (sync_events db) (u, q))
    \<longleftrightarrow> after \<le> next_seq s \<and> after < min_available_seq s - 1"
  using log_ok_bounds [OF log] by (auto simp: log_ok_row [OF log] intro!: exI [of _ "after + 1"])

lemma Changes_answers:
  assumes inv: "sync_inv (st_Pool st)"
    and s: "fmlookup (user_sync_state (st_Pool st)) (sc_UserID scope) = Some s"
    and ss: "server_state (st_Pool st) = Some ss"
  shows "epoch \<noteq> sync_epoch ss \<or> next_seq s < after \<Longrightarrow>
      \<exists>d. Changes clk scope epoch after limit st = Inl (App (WithDetails 409 SyncResetRequired d))"
    and "epoch = sync_epoch ss \<Longrightarrow> after \<le> next_seq s \<Longrightarrow> after < min_available_seq s - 1 \<Longrightarrow>
      \<exists>d. Changes clk scope epoch after limit st = Inl (App (WithDetails 410 CursorExpired d))"
    and "epoch = sync_epoch ss \<Longrightarrow> after \<le> next_seq s \<Longrightarrow> \<not> after < min_available_seq s - 1 \<Longrightarrow>
      \<exists>page. Changes clk scope epoch after limit st = Inr page"
  using s ss Changes_eq [OF user_log_ok [OF inv s] s ss, of after]
  by (auto simp: Changes_def Changes_read_def Let_def)

text \<open>
  C18: The feed refuses a cursor exactly when it cannot serve it: 410 means that the epoch is
  current and some event after the cursor is no longer in the log, 409 that the epoch is
  another one or the cursor is ahead of the log.
\<close>

theorem Changes_refusals:
  assumes inv: "sync_inv (st_Pool st)"
    and s: "fmlookup (user_sync_state (st_Pool st)) (sc_UserID scope) = Some s"
    and ss: "server_state (st_Pool st) = Some ss"
  shows "((\<exists>d. Changes clk scope epoch after limit st = Inl (App (WithDetails 410 CursorExpired d)))
        \<longleftrightarrow> epoch = sync_epoch ss \<and> (\<exists>q. after < q \<and> q \<le> next_seq s
              \<and> \<not> has_row (sync_events (st_Pool st)) (sc_UserID scope, q)))
    \<and> ((\<exists>d. Changes clk scope epoch after limit st = Inl (App (WithDetails 409 SyncResetRequired d)))
        \<longleftrightarrow> epoch \<noteq> sync_epoch ss \<or> next_seq s < after)
    \<and> ((\<exists>page. Changes clk scope epoch after limit st = Inr page)
        \<longleftrightarrow> epoch = sync_epoch ss \<and> after \<le> next_seq s
            \<and> (\<forall>q. after < q \<and> q \<le> next_seq s \<longrightarrow>
                  has_row (sync_events (st_Pool st)) (sc_UserID scope, q)))"
proof -
  note gap = log_gap [OF user_log_ok [OF inv s], of after] and answers = Changes_answers [OF assms]
  consider "epoch \<noteq> sync_epoch ss \<or> next_seq s < after"
    | "epoch = sync_epoch ss" "after \<le> next_seq s" "after < min_available_seq s - 1"
    | "epoch = sync_epoch ss" "after \<le> next_seq s" "\<not> after < min_available_seq s - 1"
    by linarith
  then show ?thesis
  proof cases
    case 1
    with answers(1) [OF 1, of clk limit] gap show ?thesis by (auto simp: WithDetails_def)
  next
    case 2
    with answers(2) [OF 2, of clk limit] gap show ?thesis by (auto simp: WithDetails_def)
  next
    case 3
    with answers(3) [OF 3, of clk limit] gap show ?thesis by auto
  qed
qed

theorem Changes_refusals_witness:
  "(\<exists>d. Changes (\<lambda>_. 30) scope1 epoch1 3 1 store2 = Inl (App (WithDetails 409 SyncResetRequired d)))
    \<and> \<not> (\<exists>d. Changes (\<lambda>_. 30) scope1 epoch1 0 1 store2 = Inl (App (WithDetails 410 CursorExpired d)))"
  using Changes_refusals [OF sync_inv_db2, where scope = scope1 and epoch = epoch1 and after = 3]
    Changes_refusals [OF sync_inv_db2, where scope = scope1 and epoch = epoch1 and after = 0]
    Changes_store2 [of 0]
  by fastforce

section \<open>A client that polls\<close>

text \<open>The client calls Changes from its cursor until a page says that there is no more.\<close>

primrec poll :: "clock \<Rightarrow> Scope \<Rightarrow> string \<Rightarrow> int \<Rightarrow> Store \<Rightarrow> nat \<Rightarrow> int \<Rightarrow> Change list option" where
  "poll clk scope epoch limit st 0 after = None"
| "poll clk scope epoch limit st (Suc fuel) after =
     (case Changes clk scope epoch after limit st of
        Inl _ \<Rightarrow> None
      | Inr page \<Rightarrow>
          if cp_HasMore page then
            (case Seq (cp_NextSeq page) of
               None \<Rightarrow> None
             | Some next \<Rightarrow>
                 map_option (\<lambda>rest. cp_Events page @ rest) (poll clk scope epoch limit st fuel next))
          else Some (cp_Events page))"

lemma poll_walk:
  assumes log: "log_ok (st_Pool st) (sc_UserID scope) s"
    and s: "fmlookup (user_sync_state (st_Pool st)) (sc_UserID scope) = Some s"
    and ss: "server_state (st_Pool st) = Some ss"
    and lo: "min_available_seq s \<le> lo + 1"
    and page_def: "page = feed_page (st_Pool st) (sc_UserID scope) lo (next_seq s) (page_size limit)"
  shows "lo \<le> after \<Longrightarrow> after \<le> next_seq s \<Longrightarrow> nat (next_seq s - after) < fuel \<Longrightarrow>
    poll clk scope (sync_epoch ss) limit st fuel after = Some (map change_of_row (walk page fuel (Some after)))"
proof (induction fuel arbitrary: after)
  case (Suc fuel)
  let ?n = "page_size limit"
  let ?evs = "take ?n (events_between (st_Pool st) (sc_UserID scope) after (next_seq s))"
  define N where "N = after + int (min ?n (nat (next_seq s - after)))"
  have cur: "min_available_seq s \<le> after + 1" using lo Suc.prems(1) by simp
  note ch = Changes_eq [OF log s ss cur Suc.prems(2) refl N_def, of clk]
  have pg: "page (Some after) = (?evs, if N < next_seq s then Some N else None)"
    using feed_next [OF log cur Suc.prems(2) order_refl, of ?evs ?n] Suc.prems(1)
    by (simp only: page_def feed_page_def Let_def option.case max.absorb2 N_def)
  show ?case
  proof (cases "N < next_seq s")
    case True
    have n: "0 < ?n" by simp
    have less: "nat (a - m) < nat (a - b)" if "b < m" "m < a" for a b m :: int
      using that by simp
    have "after < N" using Suc.prems(2) True n by (cases "next_seq s = after") (auto simp: N_def)
    from less [OF this True] Suc.prems(3) have "nat (next_seq s - N) < fuel" by linarith
    with \<open>after < N\<close> True Suc.prems(1) have "poll clk scope (sync_epoch ss) limit st fuel N
        = Some (map change_of_row (walk page fuel (Some N)))"
      by (intro Suc.IH) auto
    moreover have "Seq (FormatSeq N) = Some N"
      using log_ok_bounds [OF log] cur True \<open>after < N\<close> by (intro log_ok_Seq [OF log]) auto
    ultimately show ?thesis using True by (simp add: ch pg Let_def)
  next
    case False
    then show ?thesis by (simp add: ch pg Let_def)
  qed
qed simp

lemma poll_all:
  assumes inv: "sync_inv (st_Pool st)"
    and s: "fmlookup (user_sync_state (st_Pool st)) (sc_UserID scope) = Some s"
    and ss: "server_state (st_Pool st) = Some ss"
    and cur: "min_available_seq s \<le> after + 1" "after \<le> next_seq s"
    and fuel: "nat (next_seq s - after) < fuel"
  shows "\<exists>evs. poll clk scope (sync_epoch ss) limit st fuel after = Some (map change_of_row evs)
    \<and> map fst evs = [after + 1..next_seq s]
    \<and> (\<forall>(q, e) \<in> set evs. fmlookup (sync_events (st_Pool st)) (sc_UserID scope, q) = Some e)"
proof -
  have log: "log_ok (st_Pool st) (sc_UserID scope) s" using inv s by (rule user_log_ok)
  let ?src = "events_between (st_Pool st) (sc_UserID scope) after (next_seq s)"
  let ?page = "feed_page (st_Pool st) (sc_UserID scope) after (next_seq s)"
  have src: "remaining ?src fst (<) (Some after) = ?src"
    by (simp add: feed_remaining)
  have "walk (?page (page_size limit)) fuel (Some after) = ?src"
    using pager.walk_rest [OF feed_pager [OF log cur(1)] page_size_pos, of "Some after" fuel limit]
      fuel events_between_length [OF log cur(1) order_refl] by (simp add: src)
  then have "poll clk scope (sync_epoch ss) limit st fuel after = Some (map change_of_row ?src)"
    using poll_walk [OF log s ss cur(1) refl order_refl cur(2) fuel] by simp
  with events_between_seqs [OF log cur(1) order_refl] show ?thesis by auto
qed

text \<open>
  C16: A client that polls from a cursor the log still covers reads every event after the
  cursor exactly once and in order, up to the high watermark, whatever the page size: its
  events are those of the consecutive sequence numbers that follow the cursor.
\<close>

theorem poll_complete:
  assumes inv: "sync_inv (st_Pool st)"
    and s: "fmlookup (user_sync_state (st_Pool st)) (sc_UserID scope) = Some s"
    and ss: "server_state (st_Pool st) = Some ss"
    and cur: "min_available_seq s \<le> after + 1" "after \<le> next_seq s"
    and fuel: "nat (next_seq s - after) < fuel"
  shows "\<exists>evs. poll clk scope (sync_epoch ss) limit st fuel after = Some (map change_of_row evs)
    \<and> map fst evs = [after + 1..next_seq s]
    \<and> (\<forall>(q, e) \<in> set evs. fmlookup (sync_events (st_Pool st)) (sc_UserID scope, q) = Some e)"
  by (rule poll_all [OF assms])

theorem poll_complete_witness:
  "\<exists>evs. poll (\<lambda>_. 30) scope1 epoch1 1 store2 3 0 = Some (map change_of_row evs) \<and> map fst evs = [1, 2]"
  using poll_complete [OF sync_inv_db2, of scope1
      "\<lparr>next_seq = 2, min_available_seq = 1, ciphertext_bytes = 20, item_count = 1\<rparr>"
      "\<lparr>server_id = epoch1, sync_epoch = epoch1\<rparr>" 0 3 "\<lambda>_. 30" 1]
  by (auto simp: upto.simps)

section \<open>No update is lost\<close>

text \<open>
  Whenever the database evolved and a client has read the log up to the earlier high watermark,
  every clip whose version or state is no longer the same has its last event after that
  watermark, and if the feed still serves the client it holds that event.
\<close>

lemma feed_covers:
  assumes ev: "evolves (sc_UserID scope) db (st_Pool st)" and inv: "sync_inv (st_Pool st)"
    and s: "fmlookup (user_sync_state db) (sc_UserID scope) = Some s"
    and changed: "tip (st_Pool st) (sc_UserID scope) c \<noteq> tip db (sc_UserID scope) c
      \<or> life_of (st_Pool st) (sc_UserID scope) c \<noteq> life_of db (sc_UserID scope) c"
    and served: "Changes clk scope epoch (next_seq s) limit st = Inr page"
    and s': "fmlookup (user_sync_state (st_Pool st)) (sc_UserID scope) = Some s'"
    and fuel: "nat (next_seq s' - next_seq s) < fuel"
  shows "\<exists>changes ch. poll clk scope epoch limit st fuel (next_seq s) = Some changes \<and> ch \<in> set changes
    \<and> ch_ClipID ch = c \<and> ch_Version ch = tip_version (st_Pool st) (sc_UserID scope) c
    \<and> ch_Kind ch = tip_kind (st_Pool st) (sc_UserID scope) c"
proof -
  let ?u = "sc_UserID scope" and ?db = "st_Pool st"
  from served obtain s1 ss where s1: "fmlookup (user_sync_state ?db) ?u = Some s1"
    and ss: "server_state ?db = Some ss" "epoch = sync_epoch ss"
    and cur: "min_available_seq s1 \<le> next_seq s + 1" "next_seq s \<le> next_seq s1" by (rule Changes_Inr)
  with s' have eq: "s1 = s'" by simp
  from ev s obtain s2 where s2: "fmlookup (user_sync_state ?db) ?u = Some s2"
    "tips_evolve ?u s s2 db ?db" by (rule evolvesD)
  with s' have "s2 = s'" by simp
  with s2 changed obtain v q where t: "tip ?db ?u c = Some (v, q)" "next_seq s < q" "q \<le> next_seq s'"
    unfolding tips_evolve_def by blast
  have "tips_ok ?db ?u s'" using sync_invD [OF inv s'] by (simp add: user_inv_def)
  with t cur eq obtain e where e: "fmlookup (sync_events ?db) (?u, q) = Some e" "e_clip_id e = c"
    "e_version e = v" "e_kind e = tip_kind ?db ?u c" unfolding tips_ok_def by fastforce
  from poll_all [OF inv s1 ss(1) cur, of fuel clk limit] fuel eq ss(2) obtain evs where
    p: "poll clk scope epoch limit st fuel (next_seq s) = Some (map change_of_row evs)"
    and seqs: "map fst evs = [next_seq s + 1..next_seq s']"
    and rows: "\<forall>(q, e) \<in> set evs. fmlookup (sync_events ?db) (?u, q) = Some e" by auto
  have "q \<in> set (map fst evs)" unfolding seqs using t by simp
  then obtain e' where e': "(q, e') \<in> set evs" by auto
  with rows e(1) have "e' = e" by auto
  with e' have "change_of_row (q, e) \<in> set (map change_of_row evs)" by auto
  moreover have "ch_ClipID (change_of_row (q, e)) = c"
    "ch_Version (change_of_row (q, e)) = tip_version ?db ?u c"
    "ch_Kind (change_of_row (q, e)) = tip_kind ?db ?u c"
    using e t by (simp_all add: change_of_row_def tip_version_def)
  ultimately show ?thesis using p by blast
qed

end
