(* ===== verification/Jobs.thy ===== *)
theory Jobs
  imports Feed
begin

text \<open>
  The background jobs (server/internal/store/jobs.go): purging expired trash, retaining a
  bounded log of events, and deleting expired auxiliary rows.  \<open>RunJobs\<close> calls \<open>tick\<close> at start
  and every minute; each transaction of a tick is one step of the system.
\<close>

section \<open>Purging expired trash\<close>

definition expired_trash :: "time \<Rightarrow> clip_row \<Rightarrow> bool" where
  "expired_trash t r \<longleftrightarrow>
     c_status r = ''trash'' \<and> (case c_expires_at r of None \<Rightarrow> False | Some e \<Rightarrow> e \<le> t)"

text \<open>The loop over the selected identifiers; an iteration takes up to three readings.\<close>

primrec purge_ids :: "clock \<Rightarrow> uuid \<Rightarrow> uuid list \<Rightarrow> nat \<Rightarrow> DB \<Rightarrow> failure + (nat \<times> DB)" where
  "purge_ids clk userID [] n db = Inr (n, db)"
| "purge_ids clk userID (i # ids) n db =
     (case fmlookup (clips db) (userID, i) of
        None \<Rightarrow> purge_ids (shift 3 clk) userID ids n db
      | Some row \<Rightarrow>
          if c_status row = ''trash'' \<and> c_expires_at row = None then Inl Other
          else if \<not> expired_trash (clk 0) row then purge_ids (shift 3 clk) userID ids n db
          else
            bind_res
              (purgeLocked (shift 1 clk)
                 \<lparr>sc_UserID = userID, sc_DeviceID = [], sc_SessionID = [], sc_FamilyID = []\<rparr>
                 (clip_of_row i row) db)
            (\<lambda>(_, db). purge_ids (shift 3 clk) userID ids (Suc n) db))"

definition expired_ids :: "time \<Rightarrow> uuid \<Rightarrow> DB \<Rightarrow> uuid list" where
  "expired_ids t userID db =
     map fst (take 100 (sort_key (\<lambda>(c, r). (the (c_expires_at r), c))
       (filter (\<lambda>(c, r). expired_trash t r) (user_clips db userID))))"

definition purgeUserExpired :: "clock \<Rightarrow> uuid \<Rightarrow> Store \<Rightarrow> (failure + nat) \<times> Store" where
  "purgeUserExpired clk userID st =
     run_tx (\<lambda>db. purge_ids (shift 1 clk) userID (expired_ids (clk 0) userID db) 0 db) st"

text \<open>
  \<open>SELECT DISTINCT user_id ... LIMIT 50\<close> leaves the choice and the order of the users open; the
  model takes them by identifier.  A user takes at most 301 readings, a round of 50 users at
  most 20000.
\<close>

definition expired_users :: "time \<Rightarrow> DB \<Rightarrow> uuid list" where
  "expired_users t db =
     take 50 (remdups_adj (map (\<lambda>((u, c), r). u) (filter (\<lambda>(k, r). expired_trash t r) (rows (clips db)))))"

primrec purge_users :: "clock \<Rightarrow> uuid list \<Rightarrow> Store \<Rightarrow> (failure + unit) \<times> Store" where
  "purge_users clk [] st = (Inr (), st)"
| "purge_users clk (u # us) st =
     (case purgeUserExpired clk u st of
        (Inl e, st) \<Rightarrow> (Inl e, st)
      | (Inr n, st) \<Rightarrow> purge_users (shift 400 clk) us (if n > 0 then notify u st else st))"

text \<open>The loop of PurgeExpired with fuel; None is running out of it.\<close>

primrec PurgeExpired :: "nat \<Rightarrow> clock \<Rightarrow> Store \<Rightarrow> ((failure + unit) \<times> Store) option" where
  "PurgeExpired 0 clk st = None"
| "PurgeExpired (Suc fuel) clk st =
     (let users = expired_users (clk 0) (st_Pool st) in
      if users = [] then Some (Inr (), st)
      else case purge_users (shift 1 clk) users st of
        (Inl e, st) \<Rightarrow> Some (Inl e, st)
      | (Inr _, st) \<Rightarrow>
          if length users < 50 then Some (Inr (), st) else PurgeExpired fuel (shift 20001 clk) st)"

section \<open>Retention of events\<close>

definition first_seq :: "DB \<Rightarrow> uuid \<Rightarrow> int option" where
  "first_seq db u = (case user_events db u of [] \<Rightarrow> None | (q, _) # _ \<Rightarrow> Some q)"

definition retain_tx :: "Config \<Rightarrow> clock \<Rightarrow> DB \<Rightarrow> failure + (unit \<times> DB)" where
  "retain_tx cfg clk db =
     (let d = (if EventRetentionDays cfg < 1 then 30 else EventRetentionDays cfg);
          db = db\<lparr>sync_events := delete_where (\<lambda>_ e. e_occurred_at e < clk 0 - days d) (sync_events db)\<rparr>;
          new = (\<lambda>u s. s\<lparr>min_available_seq :=
                   (case first_seq db u of None \<Rightarrow> next_seq s + 1 | Some q \<Rightarrow> q)\<rparr>);
          tab = fmmap_keys new (user_sync_state db)
      in if \<not> list_all (\<lambda>(_, s). in_int8 (min_available_seq s)) (rows tab) then Inl (Db OutOfRange)
         else if \<not> list_all (\<lambda>(_, s). check_sync s) (rows tab) then Inl (Db CheckViolation)
         else Inr ((), db\<lparr>user_sync_state := tab\<rparr>))"

definition RetainEvents :: "clock \<Rightarrow> Store \<Rightarrow> (failure + unit) \<times> Store" where
  "RetainEvents clk st = run_tx (retain_tx (st_Cfg st) clk) st"

section \<open>Auxiliary rows and the tick\<close>

definition CleanupAux :: "clock \<Rightarrow> Store \<Rightarrow> Store" where
  "CleanupAux clk st =
     st\<lparr>st_Pool := (st_Pool st)
       \<lparr>operation_receipts := delete_where (\<lambda>_ r. r_expires_at r \<le> clk 0) (operation_receipts (st_Pool st)),
        snapshot_sessions := delete_where (\<lambda>_ n. n_expires_at n \<le> clk 1) (snapshot_sessions (st_Pool st)),
        used_refresh_tokens := delete_where (\<lambda>_ t. t_expires_at t \<le> clk 2) (used_refresh_tokens (st_Pool st))\<rparr>\<rparr>"

definition tick :: "nat \<Rightarrow> clock \<Rightarrow> clock \<Rightarrow> clock \<Rightarrow> Store \<Rightarrow> Store option" where
  "tick fuel clk1 clk2 clk3 st =
     map_option (\<lambda>(_, st). CleanupAux clk3 (snd (RetainEvents clk2 st))) (PurgeExpired fuel clk1 st)"

text \<open>
  \<open>RunJobs\<close> makes a round at once and one for every value of the ticker, until the context is
  done: a round is given by its three clocks, the list of the later ones by the wakes of the
  ticker before that.
\<close>

primrec job_rounds :: "nat \<Rightarrow> (clock \<times> clock \<times> clock) list \<Rightarrow> Store \<Rightarrow> Store option" where
  "job_rounds fuel [] st = Some st"
| "job_rounds fuel (r # wakes) st =
     (case r of (clk1, clk2, clk3) \<Rightarrow>
        (case tick fuel clk1 clk2 clk3 st of None \<Rightarrow> None | Some st \<Rightarrow> job_rounds fuel wakes st))"

definition RunJobs :: "nat \<Rightarrow> clock \<times> clock \<times> clock \<Rightarrow> (clock \<times> clock \<times> clock) list \<Rightarrow> Store \<Rightarrow> Store option" where
  "RunJobs fuel first wakes st = job_rounds fuel (first # wakes) st"

section \<open>What the purge of a user does\<close>

lemma purgeLocked_clips:
  "purgeLocked clk scope clip db = Inr (r, db') \<Longrightarrow>
     clips db' = fmdrop (sc_UserID scope, env_ID clip) (clips db)"
  by (auto simp: purgeLocked_def delete_clip_def Let_def res split: option.splits)

text \<open>
  The proof rule of the loop: a property J of the time and the database that every purge of an
  expired clip establishes anew holds after it.
\<close>

lemma expired_trash_later: "expired_trash t r \<Longrightarrow> t \<le> t' \<Longrightarrow> expired_trash t' r"
  by (auto simp: expired_trash_def split: option.splits)

lemma purge_ids_rule:
  assumes "purge_ids clk u ids n db = Inr (m, db')" and "mono clk"
    and "\<And>i. i < 3 * length ids \<Longrightarrow> clk i \<le> T" and "J t db" and "t \<le> clk 0" and "t \<le> T"
    and inv: "\<And>t db. J t db \<Longrightarrow> sync_inv db"
    and later: "\<And>t t' db. J t db \<Longrightarrow> t \<le> t' \<Longrightarrow> J t' db"
    and step: "\<And>t t' i row j e db db1. J t db \<Longrightarrow> fmlookup (clips db) (u, i) = Some row \<Longrightarrow>
      expired_trash t' row \<Longrightarrow> log_step u i None j e db db1 \<Longrightarrow> t \<le> e_occurred_at e \<Longrightarrow>
      e_occurred_at e \<le> t' \<Longrightarrow> J t' db1"
  shows "J T db'"
  using assms(1-6)
proof (induction ids arbitrary: clk n db t)
  case Nil
  then show ?case by (auto intro: later)
next
  case (Cons i ids)
  have clk: "mono (shift 3 clk)" "\<And>j. j < 3 * length ids \<Longrightarrow> shift 3 clk j \<le> T"
    using Cons.prems(2,3) by auto
  have t3: "t \<le> shift 3 clk 0" using monoD [OF Cons.prems(2), of 0 3] Cons.prems(5) by simp
  show ?case
  proof (cases "fmlookup (clips db) (u, i)")
    case None
    with Cons.prems(1) have "purge_ids (shift 3 clk) u ids n db = Inr (m, db')" by simp
    from Cons.IH [OF this clk Cons.prems(4) t3 Cons.prems(6)] show ?thesis .
  next
    case (Some row)
    show ?thesis
    proof (cases "expired_trash (clk 0) row")
      case False
      with Some Cons.prems(1) have "purge_ids (shift 3 clk) u ids n db = Inr (m, db')"
        by (simp split: if_splits)
      from Cons.IH [OF this clk Cons.prems(4) t3 Cons.prems(6)] show ?thesis .
    next
      case True
      let ?sc = "\<lparr>sc_UserID = u, sc_DeviceID = [], sc_SessionID = [], sc_FamilyID = []\<rparr>"
      from Cons.prems(1) Some True obtain rc db1
        where p: "purgeLocked (shift 1 clk) ?sc (clip_of_row i row) db = Inr (rc, db1)"
          and rest: "purge_ids (shift 3 clk) u ids (Suc n) db1 = Inr (m, db')"
        by (auto simp: res split: if_splits)
      from True have "c_status row = ''trash''" by (simp add: expired_trash_def)
      then obtain j e where e: "log_step u i None j e db db1" "e_occurred_at e = clk 2"
        using purgeLocked_step [of db ?sc i row, OF inv [OF Cons.prems(4)] _ _ p] Some
        by (auto simp: numeral_2_eq_2)
      have "t \<le> clk 2" "clk 0 \<le> clk 2"
        using monoD [OF Cons.prems(2), of 0 2] Cons.prems(5) by simp_all
      then have "J (clk 2) db1"
        using step [OF Cons.prems(4) Some expired_trash_later [OF True] e(1)] e(2) by simp
      moreover have "clk 2 \<le> shift 3 clk 0" using monoD [OF Cons.prems(2), of 2 3] by simp
      moreover have "clk 2 \<le> T" using Cons.prems(3) by simp
      ultimately show ?thesis
        by (intro Cons.IH [OF rest clk(1), where t = "clk 2"]) (use clk(2) in simp_all)
    qed
  qed
qed

lemma purge_ids_all:
  assumes "distinct ids" and "mono clk"
    and "\<forall>i\<in>set ids. \<exists>r. fmlookup (clips db) (u, i) = Some r \<and> expired_trash (clk 0) r"
    and "purge_ids clk u ids n db = Inr (m, db')"
  shows "m = n + length ids
    \<and> (\<forall>k. fmlookup (clips db') k =
          (if fst k = u \<and> snd k \<in> set ids then None else fmlookup (clips db) k))"
  using assms
proof (induction ids arbitrary: clk n db)
  case (Cons i ids)
  let ?sc = "\<lparr>sc_UserID = u, sc_DeviceID = [], sc_SessionID = [], sc_FamilyID = []\<rparr>"
  from Cons.prems(3) obtain row where row: "fmlookup (clips db) (u, i) = Some row"
    "expired_trash (clk 0) row" by auto
  with Cons.prems(4) obtain rc db1
    where p: "purgeLocked (shift 1 clk) ?sc (clip_of_row i row) db = Inr (rc, db1)"
      and rest: "purge_ids (shift 3 clk) u ids (Suc n) db1 = Inr (m, db')"
    by (auto simp: res split: if_splits)
  have db1: "fmlookup (clips db1) k = (if k = (u, i) then None else fmlookup (clips db) k)" for k
    using purgeLocked_clips [OF p] by simp
  have later: "expired_trash (shift 3 clk 0) r" if "expired_trash (clk 0) r" for r
    using that Cons.prems(2) monoD [of clk 0 3] by (auto simp: expired_trash_def split: option.splits)
  have "\<forall>j\<in>set ids. \<exists>r. fmlookup (clips db1) (u, j) = Some r \<and> expired_trash (shift 3 clk 0) r"
    using Cons.prems(1,3) later by (fastforce simp: db1)
  from Cons.IH [OF _ mono_shift [OF Cons.prems(2)] this rest] Cons.prems(1) show ?case
    by (auto simp: db1)
qed simp

lemma expired_ids_ok:
  "distinct (expired_ids t u db)"
  "i \<in> set (expired_ids t u db) \<Longrightarrow> \<exists>r. fmlookup (clips db) (u, i) = Some r \<and> expired_trash t r"
  "expired_ids t u db = [] \<longleftrightarrow> (\<forall>c r. fmlookup (clips db) (u, c) = Some r \<longrightarrow> \<not> expired_trash t r)"
  "length (expired_ids t u db) \<le> 100"
proof -
  let ?xs = "sort_key (\<lambda>(c, r). (the (c_expires_at r), c))
       (filter (\<lambda>(c, r). expired_trash t r) (user_clips db u))"
  have set: "(c, r) \<in> set ?xs \<longleftrightarrow> fmlookup (clips db) (u, c) = Some r \<and> expired_trash t r" for c r
    by auto
  have "distinct (map fst ?xs)"
    using distinct_user_clips [of db u] by (auto simp: distinct_map inj_on_def)
  then show "distinct (expired_ids t u db)"
    unfolding expired_ids_def by (simp flip: take_map)
  show "\<exists>r. fmlookup (clips db) (u, i) = Some r \<and> expired_trash t r" if "i \<in> set (expired_ids t u db)"
  proof -
    from that obtain r where "(i, r) \<in> set (take 100 ?xs)" by (auto simp: expired_ids_def)
    then have "(i, r) \<in> set ?xs" by (rule in_set_takeD)
    with set show ?thesis by blast
  qed
  have "expired_ids t u db = [] \<longleftrightarrow> ?xs = []" by (simp add: expired_ids_def)
  also have "\<dots> \<longleftrightarrow> (\<forall>c r. (c, r) \<notin> set ?xs)" by (metis last_in_set list.set_intros(1) empty_iff list.set(1) surj_pair)
  finally show "expired_ids t u db = [] \<longleftrightarrow>
      (\<forall>c r. fmlookup (clips db) (u, c) = Some r \<longrightarrow> \<not> expired_trash t r)"
    unfolding set by blast
  show "length (expired_ids t u db) \<le> 100" by (simp add: expired_ids_def)
qed

lemma purgeUserExpired_Inr:
  assumes "purgeUserExpired clk u st = (Inr n, st')" and "mono clk"
  shows "st' = st\<lparr>st_Pool := st_Pool st'\<rparr>" and "n = length (expired_ids (clk 0) u (st_Pool st))"
    and "fmlookup (clips (st_Pool st')) k =
      (if fst k = u \<and> snd k \<in> set (expired_ids (clk 0) u (st_Pool st)) then None
       else fmlookup (clips (st_Pool st)) k)"
proof -
  let ?ids = "expired_ids (clk 0) u (st_Pool st)"
  from assms(1) obtain db where
    p: "purge_ids (shift 1 clk) u ?ids 0 (st_Pool st) = Inr (n, db)" and st': "st' = st\<lparr>st_Pool := db\<rparr>"
    by (auto simp: purgeUserExpired_def res)
  have "\<forall>i\<in>set ?ids. \<exists>r. fmlookup (clips (st_Pool st)) (u, i) = Some r \<and> expired_trash (shift 1 clk 0) r"
  proof
    fix i assume "i \<in> set ?ids"
    from expired_ids_ok(2) [OF this] obtain r where
      "fmlookup (clips (st_Pool st)) (u, i) = Some r" "expired_trash (clk 0) r" by blast
    with monoD [OF assms(2), of 0 1] show "\<exists>r. fmlookup (clips (st_Pool st)) (u, i) = Some r
        \<and> expired_trash (shift 1 clk 0) r"
      by (auto simp: expired_trash_def split: option.splits)
  qed
  from purge_ids_all [OF expired_ids_ok(1) mono_shift [OF assms(2)] this p] st'
  have "n = length ?ids" "fmlookup (clips (st_Pool st')) k =
      (if fst k = u \<and> snd k \<in> set ?ids then None else fmlookup (clips (st_Pool st)) k)"
    by (simp, cases k, simp)
  with st' show "st' = st\<lparr>st_Pool := st_Pool st'\<rparr>" "n = length ?ids"
    "fmlookup (clips (st_Pool st')) k =
      (if fst k = u \<and> snd k \<in> set ?ids then None else fmlookup (clips (st_Pool st)) k)"
    by simp_all
qed

section \<open>PurgeExpired ends\<close>

definition clip_count :: "Store \<Rightarrow> nat" where
  "clip_count st = card (fmdom' (clips (st_Pool st)))"

lemma clip_count_less:
  assumes sub: "\<And>k. fmlookup (clips (st_Pool st')) k \<noteq> None \<Longrightarrow> fmlookup (clips (st_Pool st)) k \<noteq> None"
  shows "clip_count st' \<le> clip_count st"
    and "fmlookup (clips (st_Pool st)) k0 \<noteq> None \<Longrightarrow> fmlookup (clips (st_Pool st')) k0 = None \<Longrightarrow>
      clip_count st' < clip_count st"
proof -
  have "fmdom' (clips (st_Pool st')) \<subseteq> fmdom' (clips (st_Pool st))"
    using sub by (auto simp: fmlookup_dom'_iff)
  then show "clip_count st' \<le> clip_count st"
    unfolding clip_count_def by (intro card_mono) simp_all
  assume "fmlookup (clips (st_Pool st)) k0 \<noteq> None" "fmlookup (clips (st_Pool st')) k0 = None"
  then have "k0 \<in> fmdom' (clips (st_Pool st)) - fmdom' (clips (st_Pool st'))"
    by (auto simp: fmlookup_dom'_iff)
  with \<open>fmdom' _ \<subseteq> _\<close> have "fmdom' (clips (st_Pool st')) \<subset> fmdom' (clips (st_Pool st))"
    by blast
  then show "clip_count st' < clip_count st"
    unfolding clip_count_def by (intro psubset_card_mono) simp_all
qed

lemma clip_count_notify [simp]: "clip_count (notify u st) = clip_count st"
  by (simp add: clip_count_def)

lemma purge_user_count:
  assumes "purgeUserExpired clk u st = (x, st')" and "mono clk"
  shows "clip_count st' \<le> clip_count st"
proof (cases x)
  case (Inl e)
  with assms(1) show ?thesis by (simp add: purgeUserExpired_def res)
next
  case (Inr n)
  show ?thesis
    by (rule clip_count_less(1)) (use purgeUserExpired_Inr(3) [OF assms(1) [unfolded Inr] assms(2)] in \<open>auto split: if_splits\<close>)
qed

lemma purge_users_count: "purge_users clk us st = (x, st') \<Longrightarrow> mono clk \<Longrightarrow> clip_count st' \<le> clip_count st"
proof (induction us arbitrary: clk st)
  case (Cons u us)
  obtain y st1 where p: "purgeUserExpired clk u st = (y, st1)" by fastforce
  note le = purge_user_count [OF p Cons.prems(2)]
  show ?case
  proof (cases y)
    case (Inl e)
    with Cons.prems(1) p le show ?thesis by simp
  next
    case (Inr n)
    with Cons.prems(1) p have "purge_users (shift 400 clk) us (if n > 0 then notify u st1 else st1) = (x, st')" by simp
    from Cons.IH [OF this mono_shift [OF Cons.prems(2)]] le show ?thesis by (auto split: if_splits)
  qed
qed simp

lemma purge_users_progress:
  assumes run: "purge_users clk (u # us) st = (Inr (), st')" and mono: "mono clk"
    and row: "fmlookup (clips (st_Pool st)) (u, c) = Some r" "expired_trash (clk 0) r"
  shows "clip_count st' < clip_count st"
proof -
  from run obtain n st1 where p: "purgeUserExpired clk u st = (Inr n, st1)"
    and rest: "purge_users (shift 400 clk) us (if n > 0 then notify u st1 else st1) = (Inr (), st')"
    by (auto split: prod.splits sum.splits)
  from row have "expired_ids (clk 0) u (st_Pool st) \<noteq> []" by (auto simp: expired_ids_ok(3))
  then obtain i where i: "i \<in> set (expired_ids (clk 0) u (st_Pool st))" by (meson last_in_set)
  have "clip_count st1 < clip_count st"
    by (rule clip_count_less(2) [of _ _ "(u, i)"])
      (use expired_ids_ok(2) [OF i] i in \<open>auto simp: purgeUserExpired_Inr(3) [OF p mono] split: if_splits\<close>)
  with purge_users_count [OF rest mono_shift [OF mono]] show ?thesis by (auto split: if_splits)
qed

lemma expired_users_expired:
  assumes "expired_users t db = u # us"
  shows "\<exists>c r. fmlookup (clips db) (u, c) = Some r \<and> expired_trash t r"
proof -
  from assms have "u \<in> set (expired_users t db)" by simp
  then have "u \<in> set (map (\<lambda>((u, c), r). u) (filter (\<lambda>(k, r). expired_trash t r) (rows (clips db))))"
    unfolding expired_users_def by (metis in_set_takeD remdups_adj_set)
  then obtain c r where "((u, c), r) \<in> set (rows (clips db))" "expired_trash t r" by auto
  then show ?thesis by auto
qed

text \<open>A round that asks for another one has purged at least one clip.\<close>

lemma purge_rounds_end:
  assumes "mono clk" and "clip_count st < fuel"
  shows "\<exists>result. PurgeExpired fuel clk st = Some result"
  using assms
proof (induction fuel arbitrary: clk st)
  case (Suc fuel)
  show ?case
  proof (cases "expired_users (clk 0) (st_Pool st)")
    case Nil
    then show ?thesis by simp
  next
    case (Cons u us)
    show ?thesis
    proof (cases "fst (purge_users (shift 1 clk) (u # us) st)")
      case (Inl e)
      then show ?thesis by (auto simp: Cons Let_def split: prod.splits)
    next
      case (Inr x)
      then obtain st' where run: "purge_users (shift 1 clk) (u # us) st = (Inr (), st')"
        by (metis old.unit.exhaust prod.collapse)
      from expired_users_expired [OF Cons] obtain c r where
        "fmlookup (clips (st_Pool st)) (u, c) = Some r" "expired_trash (clk 0) r" by blast
      moreover from this(2) monoD [OF Suc.prems(1), of 0 1] have "expired_trash (shift 1 clk 0) r"
        by (auto simp: expired_trash_def split: option.splits)
      ultimately have "clip_count st' < clip_count st"
        using purge_users_progress [OF run mono_shift [OF Suc.prems(1)]] by blast
      then have "\<exists>result. PurgeExpired fuel (shift 20001 clk) st' = Some result"
        using Suc.prems by (intro Suc.IH mono_shift) simp_all
      with run show ?thesis by (simp add: Cons Let_def del: purge_users.simps)
    qed
  qed
qed simp

text \<open>
  C19: The purge job ends: with more rounds than there are clips, and a clock that does not run
  backwards, PurgeExpired returns, because a round that asks for another one has purged at
  least one clip.
\<close>

theorem PurgeExpired_ends:
  assumes "mono clk" and "clip_count st < fuel"
  shows "\<exists>result. PurgeExpired fuel clk st = Some result"
  by (rule purge_rounds_end [OF assms])

theorem PurgeExpired_ends_witness:
  "mono (\<lambda>_::nat. 10 ^ 18 :: int) \<and> clip_count store2 < 2
     \<and> (\<exists>result. PurgeExpired 2 (\<lambda>_. 10 ^ 18) store2 = Some result)"
proof -
  have "fmdom' (clips (st_Pool store2)) = {(user1, clip1)}"
    by (auto simp: fmlookup_dom'_iff split: if_splits)
  then have count: "clip_count store2 < 2" by (simp add: clip_count_def)
  moreover have mono: "mono (\<lambda>_::nat. 10 ^ 18 :: int)" by (simp add: mono_def)
  ultimately show ?thesis using PurgeExpired_ends [OF mono count] by blast
qed

text \<open>So every round of the jobs ends, and \<open>RunJobs\<close> comes back to wait for the next one.\<close>

lemma PurgeExpired_count:
  "PurgeExpired fuel clk st = Some (x, st') \<Longrightarrow> mono clk \<Longrightarrow> clip_count st' \<le> clip_count st"
proof (induction fuel arbitrary: clk st)
  case (Suc fuel)
  show ?case
  proof (cases "expired_users (clk 0) (st_Pool st) = []")
    case True
    with Suc.prems(1) show ?thesis by simp
  next
    case False
    obtain y st1 where p: "purge_users (shift 1 clk) (expired_users (clk 0) (st_Pool st)) st = (y, st1)" by fastforce
    note le = purge_users_count [OF p mono_shift [OF Suc.prems(2)]]
    from Suc.prems(1) p False have "st' = st1 \<or> PurgeExpired fuel (shift 20001 clk) st1 = Some (x, st')"
      by (cases y) (auto simp: Let_def split: if_splits)
    with le Suc.IH [OF _ mono_shift [OF Suc.prems(2)]] show ?thesis by (metis le_trans)
  qed
qed simp

lemma tick_ends:
  assumes "mono clk1" and "clip_count st < fuel"
  shows "\<exists>st'. tick fuel clk1 clk2 clk3 st = Some st' \<and> clip_count st' \<le> clip_count st"
proof -
  from purge_rounds_end [OF assms] obtain x st1 where p: "PurgeExpired fuel clk1 st = Some (x, st1)" by fastforce
  have "clip_count (snd (RetainEvents clk2 st1)) = clip_count st1"
    by (auto simp: clip_count_def RetainEvents_def run_tx_def retain_tx_def Let_def split: sum.split)
  then have "clip_count (CleanupAux clk3 (snd (RetainEvents clk2 st1))) = clip_count st1"
    by (simp add: clip_count_def CleanupAux_def)
  with PurgeExpired_count [OF p assms(1)] p show ?thesis by (simp add: tick_def)
qed

lemma RunJobs_ends:
  assumes "\<forall>(clk1, clk2, clk3)\<in>set (first # wakes). mono clk1" and "clip_count st < fuel"
  shows "\<exists>st'. RunJobs fuel first wakes st = Some st'"
proof -
  have "\<exists>st'. job_rounds fuel rounds st = Some st'" if "\<forall>(clk1, clk2, clk3)\<in>set rounds. mono clk1" for rounds
    using that assms(2)
  proof (induction rounds arbitrary: st)
    case (Cons r rounds)
    obtain clk1 clk2 clk3 where c: "r = (clk1, clk2, clk3)" by (cases r)
    with Cons.prems tick_ends [of clk1 st fuel clk2 clk3] obtain st1 where
      "tick fuel clk1 clk2 clk3 st = Some st1" "clip_count st1 \<le> clip_count st" by auto
    with Cons c show ?case by auto
  qed simp
  from this [OF assms(1)] show ?thesis by (simp only: RunJobs_def)
qed

section \<open>The contract of the jobs\<close>

text \<open>
  A property I of the time and the store that the purge of one user and the notification keep
  is kept by the whole purge job; with retention and cleanup, by the tick.  \<open>readings\<close> bounds
  the readings of one transaction.
\<close>

definition readings :: nat where "readings = 400"

locale purge_contract =
  fixes I :: "time \<Rightarrow> Store \<Rightarrow> bool"
  assumes later: "I t st \<Longrightarrow> t \<le> t' \<Longrightarrow> I t' st"
    and notified: "I t st \<Longrightarrow> I t (notify u st)"
    and purge_user: "I t st \<Longrightarrow> mono clk \<Longrightarrow> t \<le> clk 0 \<Longrightarrow> purgeUserExpired clk u st = (x, st') \<Longrightarrow>
      I (clk readings) st'"
begin

lemma users:
  "purge_users clk us st = (x, st') \<Longrightarrow> mono clk \<Longrightarrow> t \<le> clk 0 \<Longrightarrow> I t st \<Longrightarrow>
     I (clk (readings * length us)) st'"
proof (induction us arbitrary: clk t st)
  case Nil
  then show ?case by (auto intro: later)
next
  case (Cons u us)
  obtain y st1 where p: "purgeUserExpired clk u st = (y, st1)" by (cases "purgeUserExpired clk u st")
  have 1: "I (clk readings) st1" by (rule purge_user [OF Cons.prems(4,2,3) p])
  show ?case
  proof (cases y)
    case (Inl e)
    with Cons.prems(1) p have "st' = st1" by simp
    with 1 show ?thesis
      using monoD [OF Cons.prems(2), of readings "readings * length (u # us)"] by (auto intro: later)
  next
    case (Inr n)
    let ?st = "if n > 0 then notify u st1 else st1"
    have run: "purge_users (shift 400 clk) us ?st = (x, st')" using Cons.prems(1) p Inr by simp
    have st: "I (clk readings) ?st" using 1 notified by simp
    have le: "clk readings \<le> shift 400 clk 0" by (simp add: readings_def)
    from Cons.IH [OF run mono_shift [OF Cons.prems(2)] le st] show ?thesis by (simp add: readings_def)
  qed
qed

lemma expired:
  "PurgeExpired fuel clk st = Some (x, st') \<Longrightarrow> mono clk \<Longrightarrow> t \<le> clk 0 \<Longrightarrow> I t st \<Longrightarrow>
     \<exists>n. I (clk n) st'"
proof (induction fuel arbitrary: clk t st)
  case (Suc fuel)
  let ?us = "expired_users (clk 0) (st_Pool st)"
  show ?case
  proof (cases "?us = []")
    case True
    with Suc.prems show ?thesis by (auto intro: later)
  next
    case False
    obtain y st1 where p: "purge_users (shift 1 clk) ?us st = (y, st1)"
      by (cases "purge_users (shift 1 clk) ?us st")
    have len: "length ?us \<le> 50" by (simp add: expired_users_def)
    have "t \<le> shift 1 clk 0" using Suc.prems(3) monoD [OF Suc.prems(2), of 0 1] by simp
    from users [OF p mono_shift [OF Suc.prems(2)] this Suc.prems(4)]
    have 1: "I (clk (1 + readings * length ?us)) st1" by simp
    moreover have "clk (1 + readings * length ?us) \<le> shift 20001 clk 0"
      using len by (simp add: readings_def monoD [OF Suc.prems(2)])
    ultimately have 2: "I (shift 20001 clk 0) st1" by (rule later)
    show ?thesis
    proof (cases "st' = st1")
      case True
      with 1 show ?thesis by blast
    next
      case other: False
      with Suc.prems(1) p False have "PurgeExpired fuel (shift 20001 clk) st1 = Some (x, st')"
        by (cases y) (auto simp: Let_def split: if_splits)
      from Suc.IH [OF this mono_shift [OF Suc.prems(2)] order_refl 2] show ?thesis by auto
    qed
  qed
qed simp

end

text \<open>The clocks of the rounds follow one another.\<close>

fun in_turn :: "time \<Rightarrow> (clock \<times> clock \<times> clock) list \<Rightarrow> bool" where
  "in_turn t [] = True"
| "in_turn t ((clk1, clk2, clk3) # rounds) \<longleftrightarrow>
     mono clk1 \<and> mono clk2 \<and> mono clk3 \<and> t \<le> clk1 0 \<and> (\<forall>n. clk1 n \<le> clk2 0) \<and> (\<forall>n. clk2 n \<le> clk3 0)
     \<and> in_turn (clk3 readings) rounds"

locale job_contract = purge_contract +
  assumes retain: "I t st \<Longrightarrow> mono clk \<Longrightarrow> t \<le> clk 0 \<Longrightarrow> RetainEvents clk st = (x, st') \<Longrightarrow>
      I (clk readings) st'"
    and cleanup: "I t st \<Longrightarrow> mono clk \<Longrightarrow> t \<le> clk 0 \<Longrightarrow> I (clk readings) (CleanupAux clk st)"
begin

lemma ticked:
  assumes "tick fuel clk1 clk2 clk3 st = Some st'" and "I t st"
    and clk: "mono clk1" "mono clk2" "mono clk3" "t \<le> clk1 0" "\<And>n. clk1 n \<le> clk2 0" "\<And>n. clk2 n \<le> clk3 0"
  shows "I (clk3 readings) st'"
proof -
  from assms(1) obtain x st1 where p: "PurgeExpired fuel clk1 st = Some (x, st1)"
    and st': "st' = CleanupAux clk3 (snd (RetainEvents clk2 st1))" by (auto simp: tick_def)
  from expired [OF p clk(1,4) assms(2)] obtain n where "I (clk1 n) st1" by blast
  then have "I (clk2 readings) (snd (RetainEvents clk2 st1))"
    by (rule retain [OF _ clk(2) clk(5) surjective_pairing])
  then show ?thesis unfolding st' by (rule cleanup [OF _ clk(3) clk(6)])
qed

end

end
