(* ===== verification/Retention.thy ===== *)
theory Retention
  imports Jobs
begin

text \<open>
  Retention of events keeps the log contiguous, and the contract of the background jobs holds
  for the invariants of the synchronisation tables.
\<close>

section \<open>What retention does to a user's log\<close>

lemma first_seq_None: "first_seq db u = None \<longleftrightarrow> (\<forall>q. \<not> has_row (sync_events db) (u, q))"
proof -
  have "first_seq db u = None \<longleftrightarrow> user_events db u = []"
    by (auto simp: first_seq_def split: list.split)
  also have "\<dots> \<longleftrightarrow> (\<forall>q e. (q, e) \<notin> set (user_events db u))" by (cases "user_events db u") auto
  finally show ?thesis by (simp add: has_row_def)
qed

lemma first_seq_Some:
  assumes "first_seq db u = Some q"
  shows "has_row (sync_events db) (u, q)"
    and "has_row (sync_events db) (u, q') \<Longrightarrow> q \<le> q'"
proof -
  from assms obtain e rest where l: "user_events db u = (q, e) # rest"
    by (auto simp: first_seq_def split: list.splits)
  then have "(q, e) \<in> set (user_events db u)" by simp
  then show "has_row (sync_events db) (u, q)" by (simp add: has_row_iff)
  assume "has_row (sync_events db) (u, q')"
  then obtain e' where "(q', e') \<in> set (user_events db u)" by (auto simp: has_row_iff)
  then show "q \<le> q'" using user_events_sorted [of db u] unfolding l by auto
qed

definition retained :: "time \<Rightarrow> DB \<Rightarrow> DB" where
  "retained since db =
     db\<lparr>sync_events := delete_where (\<lambda>_ e. e_occurred_at e < since) (sync_events db),
        user_sync_state := fmmap_keys
          (\<lambda>u s. s\<lparr>min_available_seq :=
             (case first_seq (db\<lparr>sync_events := delete_where (\<lambda>_ e. e_occurred_at e < since) (sync_events db)\<rparr>) u
              of None \<Rightarrow> next_seq s + 1 | Some q \<Rightarrow> q)\<rparr>) (user_sync_state db)\<rparr>"

lemma retain_tx_Inr:
  assumes "retain_tx cfg clk db = Inr (x, db')"
  obtains since where "db' = retained since db"
    and "\<And>u s. fmlookup (user_sync_state db') u = Some s \<Longrightarrow> check_sync s \<and> in_int8 (min_available_seq s)"
proof -
  define since where "since = clk 0 - days (if EventRetentionDays cfg < 1 then 30 else EventRetentionDays cfg)"
  have rows: "list_all (\<lambda>(_, s). P s) (rows t) \<longleftrightarrow> (\<forall>u s. fmlookup t u = Some s \<longrightarrow> P s)"
    for P and t :: "(uuid, sync_row) table" by (auto simp: list_all_iff)
  have "retain_tx cfg clk db =
      (if \<not> list_all (\<lambda>(_, s). in_int8 (min_available_seq s)) (rows (user_sync_state (retained since db)))
       then Inl (Db OutOfRange)
       else if \<not> list_all (\<lambda>(_, s). check_sync s) (rows (user_sync_state (retained since db)))
       then Inl (Db CheckViolation) else Inr ((), retained since db))"
    by (simp add: retain_tx_def retained_def since_def Let_def)
  with assms have "db' = retained since db
      \<and> (\<forall>u s. fmlookup (user_sync_state db') u = Some s \<longrightarrow> in_int8 (min_available_seq s))
      \<and> (\<forall>u s. fmlookup (user_sync_state db') u = Some s \<longrightarrow> check_sync s)"
    unfolding rows by (auto split: if_splits)
  then show thesis using that by blast
qed

lemma retained_event:
  "fmlookup (sync_events (retained since db)) k = Some e \<longleftrightarrow>
     fmlookup (sync_events db) k = Some e \<and> since \<le> e_occurred_at e"
  by (simp add: retained_def lookup_delete_where_Some not_less)

lemma retained_simps [simp]:
  "clips (retained since db) = clips db" "clip_ids (retained since db) = clip_ids db"
  "users (retained since db) = users db"
  by (simp_all add: retained_def)

lemma retained_tip [simp]: "tip (retained since db) u c = tip db u c"
  "tip_kind (retained since db) u c = tip_kind db u c" "life_of (retained since db) u c = life_of db u c"
  by (simp_all add: tip_def tip_kind_def life_of_def cong: option.case_cong)

lemma retained_first:
  "first_seq (db\<lparr>sync_events := delete_where (\<lambda>_ e. e_occurred_at e < since) (sync_events db)\<rparr>) u
     = first_seq (retained since db) u"
  by (simp add: first_seq_def user_events_def retained_def)

lemma retained_sync:
  "fmlookup (user_sync_state (retained since db)) u =
     map_option (\<lambda>s. s\<lparr>min_available_seq :=
       (case first_seq (retained since db) u of None \<Rightarrow> next_seq s + 1 | Some q \<Rightarrow> q)\<rparr>)
     (fmlookup (user_sync_state db) u)"
  by (simp only: retained_first [symmetric]) (simp add: retained_def)

lemma retained_has_row:
  "has_row (sync_events (retained since db)) k \<longleftrightarrow>
     (\<exists>e. fmlookup (sync_events db) k = Some e \<and> since \<le> e_occurred_at e)"
  by (simp add: has_row_iff retained_event)

lemma retained_has_row_old: "has_row (sync_events (retained since db)) k \<Longrightarrow> has_row (sync_events db) k"
  by (auto simp: has_row_iff retained_event)

text \<open>The rows that stay are those from the first one on, because events are in order of time.\<close>

lemma retained_contiguous:
  assumes log: "log_ok db u s" and timed: "events_timed t db"
    and s': "s' = s\<lparr>min_available_seq :=
       (case first_seq (retained since db) u of None \<Rightarrow> next_seq s + 1 | Some q \<Rightarrow> q)\<rparr>"
  shows "has_row (sync_events (retained since db)) (u, q) \<longleftrightarrow> min_available_seq s' \<le> q \<and> q \<le> next_seq s'"
    and "min_available_seq s \<le> min_available_seq s'"
proof -
  have old: "has_row (sync_events (retained since db)) (u, q) \<Longrightarrow> min_available_seq s \<le> q \<and> q \<le> next_seq s" for q
    using log_ok_row [OF log, of q] by (blast dest: retained_has_row_old)
  have "(has_row (sync_events (retained since db)) (u, q) \<longleftrightarrow> min_available_seq s' \<le> q \<and> q \<le> next_seq s')
      \<and> min_available_seq s \<le> min_available_seq s'"
  proof (cases "first_seq (retained since db) u")
    case None
    then show ?thesis using first_seq_None [of "retained since db" u] log_ok_bounds [OF log] by (simp add: s')
  next
    case (Some m)
    note m = first_seq_Some [OF Some]
    have "has_row (sync_events (retained since db)) (u, q)" if q: "m \<le> q" "q \<le> next_seq s"
    proof -
      from old [OF m(1)] q obtain e where e: "fmlookup (sync_events db) (u, q) = Some e"
        using log_ok_row [OF log, of q] by (auto simp: has_row_iff)
      from m(1) obtain e0 where "fmlookup (sync_events db) (u, m) = Some e0" "since \<le> e_occurred_at e0"
        by (auto simp: retained_has_row)
      with e q(1) timed have "since \<le> e_occurred_at e" unfolding events_timed_def by (meson order_trans)
      with e show ?thesis by (auto simp: retained_has_row)
    qed
    with m old show ?thesis by (auto simp: s' Some)
  qed
  then show "has_row (sync_events (retained since db)) (u, q) \<longleftrightarrow> min_available_seq s' \<le> q \<and> q \<le> next_seq s'"
    and "min_available_seq s \<le> min_available_seq s'" by blast+
qed

lemma retained_user_inv:
  assumes inv: "user_inv db u s" and timed: "events_timed t db"
    and s': "fmlookup (user_sync_state (retained since db)) u = Some s'"
    and s: "fmlookup (user_sync_state db) u = Some s"
    and chk: "check_sync s'" "in_int8 (min_available_seq s')"
  shows "user_inv (retained since db) u s'"
proof -
  let ?db = "retained since db"
  from inv have old: "counts_ok db u s" "registry_ok db u" "log_ok db u s" "tips_ok db u s" "events_ok db u"
    by (simp_all add: user_inv_def)
  from s s' have eq: "s' = s\<lparr>min_available_seq :=
       (case first_seq ?db u of None \<Rightarrow> next_seq s + 1 | Some q \<Rightarrow> q)\<rparr>" by (simp add: retained_sync)
  note cont = retained_contiguous [OF old(3) timed eq]
  have "counts_ok ?db u s'" using old(1) by (simp add: counts_ok_def clip_set_def eq)
  moreover have "registry_ok ?db u" using old(2) by (simp add: registry_ok_def)
  moreover have "log_ok ?db u s'"
    using old(3) chk cont(1) by (simp add: log_ok_def sync_in_range_def eq)
  moreover have "tips_ok ?db u s'"
    unfolding tips_ok_def retained_tip
  proof (intro allI impI)
    fix c v q assume t: "tip db u c = Some (v, q)"
    with old(4) have 1: "0 < v \<and> 0 < q \<and> q \<le> next_seq s" and 2: "min_available_seq s \<le> q \<longrightarrow>
        (\<exists>e. fmlookup (sync_events db) (u, q) = Some e \<and> e_clip_id e = c \<and> e_version e = v
           \<and> e_kind e = tip_kind db u c)" unfolding tips_ok_def by blast+
    have "\<exists>e. fmlookup (sync_events ?db) (u, q) = Some e \<and> e_clip_id e = c \<and> e_version e = v
           \<and> e_kind e = tip_kind db u c" if "min_available_seq s' \<le> q"
    proof -
      from that 1 cont(1) [of q] have "has_row (sync_events ?db) (u, q)" by (simp add: eq)
      with 2 that cont(2) show ?thesis by (auto simp: has_row_iff retained_event)
    qed
    with 1 show "0 < v \<and> 0 < q \<and> q \<le> next_seq s' \<and> (min_available_seq s' \<le> q \<longrightarrow>
        (\<exists>e. fmlookup (sync_events ?db) (u, q) = Some e \<and> e_clip_id e = c \<and> e_version e = v
           \<and> e_kind e = tip_kind db u c))" by (simp add: eq)
  qed
  moreover have "events_ok ?db u"
    using old(5) unfolding events_ok_def retained_tip retained_event by blast
  ultimately show ?thesis by (simp add: user_inv_def)
qed

lemma retained_inv:
  assumes inv: "sync_inv db" and timed: "events_timed t db"
    and chk: "\<And>u s. fmlookup (user_sync_state (retained since db)) u = Some s \<Longrightarrow>
      check_sync s \<and> in_int8 (min_available_seq s)"
  shows "sync_inv (retained since db)" and "events_timed t (retained since db)"
    and "evolves u db (retained since db)"
proof -
  show "sync_inv (retained since db)"
    unfolding sync_inv_def
  proof
    fix u
    show "case fmlookup (user_sync_state (retained since db)) u of
        Some s \<Rightarrow> user_inv (retained since db) u s | None \<Rightarrow> no_log (retained since db) u"
    proof (cases "fmlookup (user_sync_state db) u")
      case None
      with inv have "no_log db u" unfolding sync_inv_def by (metis option.simps(4))
      then have "no_log (retained since db) u" by (auto simp: no_log_def retained_event option.simps(2) simp flip: not_Some_eq)
      with None show ?thesis by (simp add: retained_sync)
    next
      case (Some s)
      then obtain s' where s': "fmlookup (user_sync_state (retained since db)) u = Some s'"
        by (simp add: retained_sync)
      from retained_user_inv [OF sync_invD [OF inv Some] timed s' Some] chk [OF s'] s'
      show ?thesis by simp
    qed
  qed
  show "events_timed t (retained since db)"
    using timed unfolding events_timed_def retained_event by blast
  show "evolves u db (retained since db)"
    unfolding evolves_def
  proof (intro conjI allI impI)
    fix s assume s: "fmlookup (user_sync_state db) u = Some s"
    let ?s' = "s\<lparr>min_available_seq :=
       (case first_seq (retained since db) u of None \<Rightarrow> next_seq s + 1 | Some q \<Rightarrow> q)\<rparr>"
    show "\<exists>s'. fmlookup (user_sync_state (retained since db)) u = Some s' \<and> next_seq s \<le> next_seq s'
        \<and> min_available_seq s \<le> min_available_seq s' \<and> tips_evolve u s s' db (retained since db)
        \<and> events_kept u s db (retained since db)"
      using s retained_contiguous(2) [OF user_log_ok [OF inv s] timed, of ?s' since]
      by (intro exI [of _ ?s']) (simp add: retained_sync tips_evolve_def events_kept_def retained_event)
  qed (simp_all add: ids_kept_def content_kept_def)
qed

end
