(* ===== verification/AuthFrame.thy ===== *)
theory AuthFrame
  imports Auth Retention
begin

text \<open>
  What the operations on accounts may change.  \<open>log_frame\<close>: the synchronisation tables stay,
  except that a new account gets an empty log.  \<open>account_kept\<close>: accounts, devices, sessions and
  vaults are never removed, a revocation is never undone, and a vault keeps its keys.  Both are
  reflexive and transitive.
\<close>

section \<open>The synchronisation tables\<close>

definition zero_sync :: sync_row where
  "zero_sync = \<lparr>next_seq = 0, min_available_seq = 1, ciphertext_bytes = 0, item_count = 0\<rparr>"

definition log_frame :: "DB \<Rightarrow> DB \<Rightarrow> bool" where
  "log_frame db db' \<longleftrightarrow>
     clips db' = clips db \<and> clip_ids db' = clip_ids db \<and> sync_events db' = sync_events db
     \<and> (\<forall>u. fmlookup (user_sync_state db') u = fmlookup (user_sync_state db) u
          \<or> fmlookup (user_sync_state db) u = None \<and> fmlookup (user_sync_state db') u = Some zero_sync)"

lemma log_frame_refl [simp]: "log_frame db db"
  by (simp add: log_frame_def)

lemma log_frame_trans: "log_frame a b \<Longrightarrow> log_frame b c \<Longrightarrow> log_frame a c"
  unfolding log_frame_def by metis

lemma log_frame_same: "log_frame db db' \<Longrightarrow>
    fmlookup (user_sync_state db') u = fmlookup (user_sync_state db) u \<Longrightarrow> same_log db db' u"
  by (simp add: log_frame_def same_log_def)

lemma user_inv_zero:
  assumes "no_log db u"
  shows "user_inv db u zero_sync"
proof -
  have none: "clip_set db u = {}" "tip db u c = None" for c
    using assms by (auto simp: no_log_def clip_set_def has_row_def tip_def)
  with assms show ?thesis
    by (simp add: user_inv_def counts_ok_def registry_ok_def log_ok_def tips_ok_def events_ok_def
        no_log_def has_row_def zero_sync_def check_sync_def sync_in_range_def in_int8_def in_int4_def)
qed

lemma log_frame_inv:
  assumes fr: "log_frame db db'" and inv: "sync_inv db"
  shows "sync_inv db'"
  unfolding sync_inv_def
proof
  fix u
  from inv have u: "case fmlookup (user_sync_state db) u of Some s \<Rightarrow> user_inv db u s | None \<Rightarrow> no_log db u"
    unfolding sync_inv_def by blast
  show "case fmlookup (user_sync_state db') u of Some s \<Rightarrow> user_inv db' u s | None \<Rightarrow> no_log db' u"
  proof (cases "fmlookup (user_sync_state db') u = fmlookup (user_sync_state db) u")
    case True
    with user_inv_cong [OF log_frame_same [OF fr this]] no_log_cong [OF log_frame_same [OF fr this]] u
    show ?thesis by (simp cong: option.case_cong)
  next
    case False
    with fr have "fmlookup (user_sync_state db) u = None" "fmlookup (user_sync_state db') u = Some zero_sync"
      unfolding log_frame_def by blast+
    with u have "no_log db u" by simp
    with fr have "no_log db' u" by (simp add: no_log_def log_frame_def)
    with \<open>fmlookup (user_sync_state db') u = Some zero_sync\<close> user_inv_zero show ?thesis by simp
  qed
qed

lemma log_frame_evolves:
  assumes fr: "log_frame db db'"
  shows "evolves u db db'"
proof (cases "fmlookup (user_sync_state db') u = fmlookup (user_sync_state db) u")
  case True
  with fr show ?thesis by (intro evolves_same_log log_frame_same)
next
  case False
  with fr have "fmlookup (user_sync_state db) u = None" unfolding log_frame_def by blast
  moreover have "life_of db' u c = life_of db u c" for c
    using fr by (simp add: life_of_def log_frame_def)
  ultimately show ?thesis
    using fr by (simp add: evolves_def ids_kept_def content_kept_def log_frame_def)
qed

lemma log_frame_timed: "log_frame db db' \<Longrightarrow> events_timed t db' = events_timed t db"
  by (rule events_timed_cong) (simp add: log_frame_def)

section \<open>Accounts, devices, sessions and vaults\<close>

definition rows_kept :: "('v \<Rightarrow> 'v \<Rightarrow> bool) \<Rightarrow> ('k, 'v) table \<Rightarrow> ('k, 'v) table \<Rightarrow> bool" where
  "rows_kept R t t' \<longleftrightarrow>
     (\<forall>k v. fmlookup t k = Some v \<longrightarrow> (\<exists>v'. fmlookup t' k = Some v' \<and> R v v'))"

lemma rows_keptD: "rows_kept R t t' \<Longrightarrow> fmlookup t k = Some v \<Longrightarrow> \<exists>v'. fmlookup t' k = Some v' \<and> R v v'"
  by (simp add: rows_kept_def)

lemma rows_kept_refl: "(\<And>v. R v v) \<Longrightarrow> rows_kept R t t"
  by (simp add: rows_kept_def)

lemma rows_kept_trans:
  assumes "\<And>x y z. R x y \<Longrightarrow> R y z \<Longrightarrow> R x z" and "rows_kept R t1 t2" and "rows_kept R t2 t3"
  shows "rows_kept R t1 t3"
  unfolding rows_kept_def
proof (intro allI impI)
  fix k v assume "fmlookup t1 k = Some v"
  with assms(2) obtain v2 where "fmlookup t2 k = Some v2" "R v v2" by (auto dest: rows_keptD)
  moreover from assms(3) this(1) obtain v3 where "fmlookup t3 k = Some v3" "R v2 v3" by (auto dest: rows_keptD)
  ultimately show "\<exists>v3. fmlookup t3 k = Some v3 \<and> R v v3" using assms(1) by blast
qed

lemma rows_kept_insert: "(\<And>v. R v v) \<Longrightarrow> fmlookup t k = None \<Longrightarrow> rows_kept R t (fmupd k v t)"
  by (auto simp: rows_kept_def)

lemma rows_kept_update: "(\<And>v. R v v) \<Longrightarrow> fmlookup t k = Some v \<Longrightarrow> R v v' \<Longrightarrow> rows_kept R t (fmupd k v' t)"
  by (auto simp: rows_kept_def)

lemma rows_kept_update_where:
  "(\<And>v. R v v) \<Longrightarrow> (\<And>k v. P k v \<Longrightarrow> R v (f v)) \<Longrightarrow> rows_kept R t (update_where P f t)"
  by (auto simp: rows_kept_def tab)

definition same_user :: "user_row \<Rightarrow> user_row \<Rightarrow> bool" where
  "same_user r r' \<longleftrightarrow> u_username r' = u_username r \<and> u_status r' = u_status r
     \<and> u_auth_provider r' = u_auth_provider r \<and> u_external_subject r' = u_external_subject r"

definition same_device :: "device_row \<Rightarrow> device_row \<Rightarrow> bool" where
  "same_device d d' \<longleftrightarrow> d_name d' = d_name d \<and> d_platform d' = d_platform d
     \<and> (d_revoked_at d \<noteq> None \<longrightarrow> d_revoked_at d' = d_revoked_at d)"

definition same_session :: "session_row \<Rightarrow> session_row \<Rightarrow> bool" where
  "same_session s s' \<longleftrightarrow> s_user_id s' = s_user_id s \<and> s_device_id s' = s_device_id s
     \<and> s_family_id s' = s_family_id s \<and> s_refresh_expires_at s' = s_refresh_expires_at s
     \<and> (s_revoked_at s \<noteq> None \<longrightarrow> s' = s)"

definition same_vault :: "vault_row \<Rightarrow> vault_row \<Rightarrow> bool" where
  "same_vault v v' \<longleftrightarrow> v' = v\<lparr>v_password := v_password v'\<rparr>"

definition account_kept :: "DB \<Rightarrow> DB \<Rightarrow> bool" where
  "account_kept db db' \<longleftrightarrow>
     rows_kept same_user (users db) (users db') \<and> rows_kept same_device (devices db) (devices db')
     \<and> rows_kept same_session (sessions db) (sessions db') \<and> rows_kept same_vault (vaults db) (vaults db')"

lemma same_refl [simp]: "same_user r r" "same_device d d" "same_session s s" "same_vault v v"
  by (simp_all add: same_user_def same_device_def same_session_def same_vault_def)

lemma same_vault_trans: "same_vault a b \<Longrightarrow> same_vault b c \<Longrightarrow> same_vault a c"
  by (cases a, cases b, cases c) (auto simp: same_vault_def)

lemma account_kept_refl [simp]: "account_kept db db"
  by (simp add: account_kept_def rows_kept_refl)

lemma account_kept_trans: "account_kept a b \<Longrightarrow> account_kept b c \<Longrightarrow> account_kept a c"
  unfolding account_kept_def
  by (intro conjI; elim conjE; erule (1) rows_kept_trans [rotated])
    (auto simp: same_user_def same_device_def same_session_def elim: same_vault_trans)

lemma account_kept_same:
  "users db' = users db \<Longrightarrow> devices db' = devices db \<Longrightarrow> sessions db' = sessions db \<Longrightarrow>
     vaults db' = vaults db \<Longrightarrow> account_kept db db'"
  by (simp add: account_kept_def rows_kept_refl)

section \<open>Integrity of the account tables\<close>

text \<open>
  What the constraints of the schema add up to: rows satisfy their CHECKs, user names and token
  hashes are unique, and every session has its device, every device, vault and log its account.
\<close>

definition users_ok :: "DB \<Rightarrow> bool" where
  "users_ok db \<longleftrightarrow> (\<forall>u r. fmlookup (users db) u = Some r \<longrightarrow> check_user r)
     \<and> (\<forall>u v r r'. fmlookup (users db) u = Some r \<longrightarrow> fmlookup (users db) v = Some r' \<longrightarrow>
          u_username r = u_username r' \<longrightarrow> u = v)"

definition sessions_ok :: "DB \<Rightarrow> bool" where
  "sessions_ok db \<longleftrightarrow>
     (\<forall>i s. fmlookup (sessions db) i = Some s \<longrightarrow> check_session s
        \<and> has_row (devices db) (s_user_id s, s_device_id s))
     \<and> (\<forall>i j s s'. fmlookup (sessions db) i = Some s \<longrightarrow> fmlookup (sessions db) j = Some s' \<longrightarrow>
          session_clash s s' \<longrightarrow> i = j)"

definition owners_ok :: "DB \<Rightarrow> bool" where
  "owners_ok db \<longleftrightarrow> (\<forall>u d. has_row (devices db) (u, d) \<longrightarrow> has_row (users db) u)
     \<and> (\<forall>u. has_row (user_sync_state db) u \<longrightarrow> has_row (users db) u)
     \<and> (\<forall>u v. fmlookup (vaults db) u = Some v \<longrightarrow> check_vault v \<and> has_row (users db) u)"

definition accounts_ok :: "DB \<Rightarrow> bool" where
  "accounts_ok db \<longleftrightarrow> users_ok db \<and> sessions_ok db \<and> owners_ok db"

lemma accounts_ok_same:
  assumes "users db' = users db" and "sessions db' = sessions db" and "devices db' = devices db"
    and "vaults db' = vaults db" and "\<And>u. has_row (user_sync_state db') u \<Longrightarrow> has_row (user_sync_state db) u"
    and "accounts_ok db"
  shows "accounts_ok db'"
  using assms unfolding accounts_ok_def users_ok_def sessions_ok_def owners_ok_def by simp

lemma accounts_ok_frame [simp]:
  "accounts_ok (db\<lparr>used_refresh_tokens := a\<rparr>) = accounts_ok db"
  "accounts_ok (db\<lparr>registration_invites := b\<rparr>) = accounts_ok db"
  "accounts_ok (db\<lparr>email_codes := c\<rparr>) = accounts_ok db"
  "accounts_ok (db\<lparr>snapshot_sessions := d\<rparr>) = accounts_ok db"
  "accounts_ok (db\<lparr>operation_receipts := e\<rparr>) = accounts_ok db"
  "accounts_ok (db\<lparr>server_state := s\<rparr>) = accounts_ok db"
  by (simp_all add: accounts_ok_def users_ok_def sessions_ok_def owners_ok_def)

lemma session_clash_sym: "session_clash a b \<Longrightarrow> session_clash b a"
  by (auto simp: session_clash_def)

lemma accounts_ok_insert_user:
  assumes "insert_user lw u r db = Inr db'" and "accounts_ok db"
  shows "accounts_ok db'"
proof -
  from assms(1) have r: "check_user r" "fmlookup (users db) u = None"
    and new: "fmlookup (users db) v = Some r' \<Longrightarrow> u_username r \<noteq> u_username r'"
    and db': "db' = db\<lparr>users := fmupd u r (users db)\<rparr>" for v r'
    by (auto simp: insert_user_Inr exists_row_iff user_clash_def has_row_def)
  have new': "u_username r' \<noteq> u_username r" if "fmlookup (users db) v = Some r'" for v r'
    using new [OF that] by simp
  have "users_ok db'"
    using assms(2) r(1) unfolding accounts_ok_def users_ok_def db' by (auto dest: new new')
  with assms(2) show ?thesis
    unfolding accounts_ok_def sessions_ok_def owners_ok_def has_row_iff db' by auto
qed

lemma accounts_ok_update_user:
  assumes "update_user lw u f db = Inr db'" and "\<And>r. same_user r (f r)" and "accounts_ok db"
  shows "accounts_ok db'"
proof (cases "fmlookup (users db) u")
  case None
  with assms(1,3) show ?thesis by (simp add: update_user_Inr)
next
  case (Some r)
  with assms(1) have r: "check_user (f r)" and db': "db' = db\<lparr>users := fmupd u (f r) (users db)\<rparr>"
    by (auto simp: update_user_Inr)
  have "u_username (f r) = u_username r" using assms(2) by (simp add: same_user_def)
  then have "users_ok db'"
    using assms(3) r Some unfolding accounts_ok_def users_ok_def db' by (auto split: if_splits)
  with assms(3) show ?thesis
    unfolding accounts_ok_def sessions_ok_def owners_ok_def has_row_iff db' by auto
qed

lemma accounts_ok_insert_sync:
  assumes "insert_sync u db = Inr db'" and "accounts_ok db"
  shows "accounts_ok db'"
  using assms unfolding insert_sync_Inr accounts_ok_def sessions_ok_def users_ok_def owners_ok_def has_row_iff
  by auto

lemma accounts_ok_insert_device:
  assumes "insert_device u d r db = Inr db'" and "accounts_ok db"
  shows "accounts_ok db'"
proof -
  from assms(1) have u: "has_row (users db) u" and db': "db' = db\<lparr>devices := fmupd (u, d) r (devices db)\<rparr>"
    by (auto simp: insert_device_Inr)
  have "has_row (devices db') k \<longleftrightarrow> k = (u, d) \<or> has_row (devices db) k" for k
    by (simp add: db' has_row_iff)
  with assms(2) u show ?thesis
    unfolding accounts_ok_def sessions_ok_def users_ok_def owners_ok_def by (simp add: db')
qed

lemma accounts_ok_devices:
  assumes "accounts_ok db" and "\<And>k. has_row t k = has_row (devices db) k"
  shows "accounts_ok (db\<lparr>devices := t\<rparr>)"
  using assms unfolding accounts_ok_def users_ok_def sessions_ok_def owners_ok_def by simp

lemma accounts_ok_sessions:
  assumes ok: "accounts_ok db"
    and new: "\<And>i s. fmlookup t i = Some s \<Longrightarrow> \<exists>s0. fmlookup (sessions db) i = Some s0 \<and> same_session s0 s
      \<and> s_access_hash s = s_access_hash s0 \<and> s_refresh_hash s = s_refresh_hash s0"
  shows "accounts_ok (db\<lparr>sessions := t\<rparr>)"
proof -
  from ok have old: "\<And>i s. fmlookup (sessions db) i = Some s \<Longrightarrow> check_session s
      \<and> has_row (devices db) (s_user_id s, s_device_id s)"
    and uniq: "\<And>i j s s'. fmlookup (sessions db) i = Some s \<Longrightarrow> fmlookup (sessions db) j = Some s' \<Longrightarrow>
      session_clash s s' \<Longrightarrow> i = j"
    unfolding accounts_ok_def sessions_ok_def by blast+
  have "check_session s \<and> has_row (devices db) (s_user_id s, s_device_id s)" if "fmlookup t i = Some s" for i s
    using new [OF that] old by (fastforce simp: same_session_def check_session_def)
  moreover have "i = j" if i: "fmlookup t i = Some s" and j: "fmlookup t j = Some s'" and c: "session_clash s s'"
    for i j s s'
  proof -
    from new [OF i] new [OF j] obtain a b where "fmlookup (sessions db) i = Some a" "fmlookup (sessions db) j = Some b"
      "session_clash a b" using c by (auto simp: session_clash_def)
    then show ?thesis by (rule uniq)
  qed
  ultimately show ?thesis
    using ok unfolding accounts_ok_def sessions_ok_def users_ok_def owners_ok_def by simp
qed

lemma accounts_ok_set_session:
  assumes ok: "accounts_ok db" and r: "check_session r" "has_row (devices db) (s_user_id r, s_device_id r)"
    and new: "\<And>j r'. fmlookup (sessions db) j = Some r' \<Longrightarrow> j \<noteq> i \<Longrightarrow> \<not> session_clash r r'"
  shows "accounts_ok (db\<lparr>sessions := fmupd i r (sessions db)\<rparr>)"
proof -
  have "sessions_ok (db\<lparr>sessions := fmupd i r (sessions db)\<rparr>)"
    unfolding sessions_ok_def
  proof (intro conjI allI impI)
    fix j s assume s: "fmlookup (sessions (db\<lparr>sessions := fmupd i r (sessions db)\<rparr>)) j = Some s"
    with ok r show "check_session s" "has_row (devices (db\<lparr>sessions := fmupd i r (sessions db)\<rparr>)) (s_user_id s, s_device_id s)"
      by (auto simp: accounts_ok_def sessions_ok_def split: if_splits)
    fix k s' assume s': "fmlookup (sessions (db\<lparr>sessions := fmupd i r (sessions db)\<rparr>)) k = Some s'"
      and c: "session_clash s s'"
    with s new [of j s] new [of k s'] ok show "j = k"
      by (auto simp: accounts_ok_def sessions_ok_def dest: session_clash_sym split: if_splits)
  qed
  with ok show ?thesis by (simp add: accounts_ok_def users_ok_def owners_ok_def)
qed

lemma accounts_ok_insert_session:
  "insert_session i r db = Inr db' \<Longrightarrow> accounts_ok db \<Longrightarrow> accounts_ok db'"
  by (auto simp: insert_session_Inr exists_row_iff intro!: accounts_ok_set_session)

lemma accounts_ok_update_session:
  assumes upd: "update_session_returning i f db = Inr (x, db')" and ok: "accounts_ok db"
    and f: "\<And>s. fmlookup (sessions db) i = Some s \<Longrightarrow> same_session s (f s)"
  shows "accounts_ok db'"
proof -
  from upd obtain r where r: "fmlookup (sessions db) i = Some r" "check_session (f r)"
    and new: "\<And>j r'. fmlookup (sessions db) j = Some r' \<Longrightarrow> j \<noteq> i \<Longrightarrow> \<not> session_clash (f r) r'"
    and db': "db' = db\<lparr>sessions := fmupd i (f r) (sessions db)\<rparr>"
    unfolding update_session_returning_Inr exists_row_iff by blast
  from ok r(1) have "has_row (devices db) (s_user_id r, s_device_id r)"
    by (auto simp: accounts_ok_def sessions_ok_def)
  with f [OF r(1)] have "has_row (devices db) (s_user_id (f r), s_device_id (f r))"
    by (simp add: same_session_def)
  from accounts_ok_set_session [OF ok r(2) this new] show ?thesis by (simp add: db')
qed

lemma accounts_ok_vaults:
  assumes "accounts_ok db" and "check_vault v" and "has_row (users db) u"
  shows "accounts_ok (db\<lparr>vaults := fmupd u v (vaults db)\<rparr>)"
  using assms unfolding accounts_ok_def sessions_ok_def users_ok_def owners_ok_def by simp

lemma accounts_ok_insert_vault: "insert_vault u v db = Inr db' \<Longrightarrow> accounts_ok db \<Longrightarrow> accounts_ok db'"
  by (auto simp: insert_vault_Inr intro: accounts_ok_vaults)

lemma accounts_ok_update_vault_wrap:
  assumes "update_vault_wrap u p db = Inr (n, db')" and ok: "accounts_ok db"
  shows "accounts_ok db'"
proof (cases "fmlookup (vaults db) u")
  case (Some v)
  with ok have "has_row (users db) u" by (auto simp: accounts_ok_def owners_ok_def)
  with assms Some show ?thesis by (auto simp: update_vault_wrap_Inr intro: accounts_ok_vaults)
qed (use assms in \<open>simp add: update_vault_wrap_Inr\<close>)

text \<open>Both frames together, for the statements on accounts; operation receipts stay too.\<close>

definition quiet :: "DB \<Rightarrow> DB \<Rightarrow> bool" where
  "quiet db db' \<longleftrightarrow> log_frame db db' \<and> account_kept db db'
     \<and> operation_receipts db' = operation_receipts db \<and> (accounts_ok db \<longrightarrow> accounts_ok db')"

lemma quiet_refl [simp]: "quiet db db"
  by (simp add: quiet_def)

lemma quiet_trans: "quiet a b \<Longrightarrow> quiet b c \<Longrightarrow> quiet a c"
  unfolding quiet_def by (auto intro: log_frame_trans account_kept_trans)

lemma quiet_insert_user: "insert_user lw u r db = Inr db' \<Longrightarrow> quiet db db'"
  using accounts_ok_insert_user [of lw u r db db']
  by (auto simp: insert_user_Inr quiet_def log_frame_def account_kept_def has_row_def rows_kept_refl
      intro!: rows_kept_insert)

lemma quiet_update_user:
  "update_user lw u f db = Inr db' \<Longrightarrow> (\<And>r. same_user r (f r)) \<Longrightarrow> quiet db db'"
  using accounts_ok_update_user [of lw u f db db']
  by (auto simp: update_user_Inr quiet_def log_frame_def account_kept_def rows_kept_refl
      intro!: rows_kept_update)

lemma quiet_insert_sync: "insert_sync u db = Inr db' \<Longrightarrow> quiet db db'"
  using accounts_ok_insert_sync [of u db db']
  by (auto simp: insert_sync_Inr quiet_def log_frame_def account_kept_def rows_kept_refl has_row_def
      zero_sync_def)

lemma quiet_insert_device: "insert_device u d r db = Inr db' \<Longrightarrow> quiet db db'"
  using accounts_ok_insert_device [of u d r db db']
  by (auto simp: insert_device_Inr quiet_def log_frame_def account_kept_def has_row_def rows_kept_refl
      intro!: rows_kept_insert)

lemma quiet_touch_device: "quiet db (touch_device t u d db)"
  using accounts_ok_devices [of db "devices (touch_device t u d db)"]
  by (auto simp: touch_device_def has_row_def lookup_update_where_None quiet_def log_frame_def account_kept_def rows_kept_refl same_device_def
      intro!: rows_kept_update_where)

lemma quiet_insert_session: "insert_session i r db = Inr db' \<Longrightarrow> quiet db db'"
  using accounts_ok_insert_session [of i r db db']
  by (auto simp: insert_session_Inr quiet_def log_frame_def account_kept_def has_row_def rows_kept_refl
      intro!: rows_kept_insert)

lemma accounts_ok_revoke_sessions: "accounts_ok db \<Longrightarrow> accounts_ok (revoke_sessions t P db)"
  unfolding revoke_sessions_def
  by (rule accounts_ok_sessions) (auto simp: lookup_update_where same_session_def)

lemma quiet_revoke_sessions: "quiet db (revoke_sessions t P db)"
  using accounts_ok_revoke_sessions [of db t P]
  by (auto simp: revoke_sessions_def quiet_def log_frame_def account_kept_def rows_kept_refl same_session_def
      intro!: rows_kept_update_where)

lemma quiet_insert_used: "insert_used_refresh h r db = Inr db' \<Longrightarrow> quiet db db'"
  by (auto simp: insert_used_refresh_Inr quiet_def log_frame_def account_kept_def rows_kept_refl)

lemma quiet_insert_vault: "insert_vault u v db = Inr db' \<Longrightarrow> quiet db db'"
  using accounts_ok_insert_vault [of u v db db']
  by (auto simp: insert_vault_Inr quiet_def log_frame_def account_kept_def has_row_def rows_kept_refl
      intro!: rows_kept_insert)

lemma quiet_update_vault_wrap: "update_vault_wrap u p db = Inr (n, db') \<Longrightarrow> quiet db db'"
  using accounts_ok_update_vault_wrap [of u p db n db']
  by (auto simp: update_vault_wrap_Inr quiet_def log_frame_def account_kept_def rows_kept_refl same_vault_def
      intro!: rows_kept_update)

lemma quiet_insert_invite: "insert_invite h r db = Inr db' \<Longrightarrow> quiet db db'"
  by (auto simp: insert_invite_Inr quiet_def log_frame_def account_kept_def rows_kept_refl)

lemma quiet_consume_invite: "consume_invite clk h db = (n, db') \<Longrightarrow> quiet db db'"
  by (auto simp: consume_invite_def quiet_def log_frame_def account_kept_def rows_kept_refl
      split: option.splits if_splits)

lemma quiet_consumeEmailCode: "consumeEmailCode now e p c db = (x, db') \<Longrightarrow> quiet db db'"
  by (auto simp: consumeEmailCode_def accounts_ok_same Let_def quiet_def log_frame_def account_kept_def rows_kept_refl
      split: option.splits if_splits)

lemma quiet_upsert: "upsert_email_code e r db = Inr db' \<Longrightarrow> quiet db db'"
  by (auto simp: upsert_email_code_Inr quiet_def log_frame_def account_kept_def rows_kept_refl)

lemmas quiet_statements =
  quiet_insert_user quiet_update_user quiet_insert_sync quiet_insert_device quiet_insert_session
  quiet_insert_used quiet_insert_vault quiet_update_vault_wrap quiet_insert_invite
  quiet_consume_invite quiet_consumeEmailCode quiet_upsert

end
