(* ===== verification/AuthQuiet.thy ===== *)
theory AuthQuiet
  imports AuthFrame
begin

text \<open>
  Every operation on accounts, sessions, devices and vaults is \<open>quiet\<close>: it keeps the
  synchronisation tables, adds accounts with an empty log only, and never removes or reactivates
  an account, a device, a session or a vault.  \<open>outcome P m\<close> says that P holds of the result of
  m if m succeeds; its equations push it through a chain of steps, and the rules \<open>steps\<close> pass
  each statement of the database.
\<close>

section \<open>Outcomes of chains of steps\<close>

definition outcome :: "('a \<Rightarrow> bool) \<Rightarrow> 'e + 'a \<Rightarrow> bool" where
  "outcome P m \<longleftrightarrow> (\<forall>y. m = Inr y \<longrightarrow> P y)"

lemma outcomeD: "outcome P m \<Longrightarrow> m = Inr y \<Longrightarrow> P y"
  by (simp add: outcome_def)

lemma outcome_Inl [simp]: "outcome P (Inl e)"
  by (simp add: outcome_def)

lemma outcome_Inr [simp]: "outcome P (Inr y) = P y"
  by (simp add: outcome_def)

lemma outcome_bind [simp]: "outcome P (bind_res m f) = outcome (\<lambda>x. outcome P (f x)) m"
  by (cases m) simp_all

lemma outcome_caught: "outcome P m \<Longrightarrow> outcome P (case m of Inl e \<Rightarrow> Inl (f e) | Inr y \<Rightarrow> Inr y)"
  by (cases m) simp_all

named_theorems steps \<open>rules that pass a statement\<close>

lemma quiet_passes:
  assumes "quiet dba db" and "\<And>db'. quiet dba db' \<Longrightarrow> P db'"
  shows "outcome P (insert_user lw u r db)"
    and "outcome P (insert_sync u db)"
    and "outcome P (insert_device u d dr db)"
    and "outcome P (insert_session i sr db)"
    and "outcome P (insert_used_refresh h tr db)"
    and "outcome P (insert_vault u vr db)"
    and "outcome P (insert_invite h ir db)"
    and "outcome P (upsert_email_code e er db)"
  unfolding outcome_def
  by (blast intro: assms quiet_trans [OF assms(1)] quiet_statements)+

declare quiet_passes [steps]

lemma quiet_after_revoke [steps]: "quiet dba db \<Longrightarrow> quiet dba (revoke_sessions t P db)"
  by (blast intro: quiet_trans quiet_revoke_sessions)

lemma quiet_after_touch [steps]: "quiet dba db \<Longrightarrow> quiet dba (touch_device t u d db)"
  by (blast intro: quiet_trans quiet_touch_device)

section \<open>Transactions\<close>

lemma run_tx_quiet:
  assumes "run_tx f st = (x, st')" and "outcome (\<lambda>(y, db). quiet (st_Pool st) db) (f (st_Pool st))"
  shows "quiet (st_Pool st) (st_Pool st')"
  using assms by (cases "f (st_Pool st)") auto

lemma quiet_issueSession [steps]:
  "quiet dba db \<Longrightarrow> (\<And>x db'. quiet dba db' \<Longrightarrow> P (x, db')) \<Longrightarrow> outcome P (issueSession clk fr u d f db)"
  by (auto simp: issueSession_def Let_def split: prod.split intro!: steps)

lemma quiet_passes_update:
  assumes "quiet dba db" and "\<And>db'. quiet dba db' \<Longrightarrow> P db'" and "\<And>r. same_user r (f r)"
  shows "outcome P (update_user lw u f db)"
  unfolding outcome_def using assms by (blast intro: quiet_trans quiet_update_user)

lemma quiet_register_invite [steps]:
  "quiet dba db \<Longrightarrow> (\<And>db'. quiet dba db' \<Longrightarrow> P db') \<Longrightarrow> outcome P (register_invite cfg clk in' db)"
  by (auto simp: register_invite_def split: prod.split dest: quiet_consume_invite intro: quiet_trans)

lemma quiet_register_code [steps]:
  "quiet dba db \<Longrightarrow> (\<And>v db'. quiet dba db' \<Longrightarrow> P (v, db')) \<Longrightarrow>
     outcome P (register_code cfg now in' email db)"
  by (auto simp: register_code_def split: prod.split sum.split dest: quiet_consumeEmailCode
      intro: quiet_trans)

lemma outcome_unique [steps]: "outcome P m \<Longrightarrow> outcome P (unique_conflict m)"
  by (cases m) (simp_all add: unique_conflict_def)

lemma quiet_register_tx: "outcome (\<lambda>(r, db'). quiet db db') (register_tx cfg w fr clk now in' email db)"
  unfolding register_tx_def
  by (assumption | rule steps quiet_refl
    | simp only: outcome_bind prod.case outcome_Inr split_paired_all)+

lemma quiet_login_device [steps]:
  assumes "quiet dba db" and "\<And>db'. quiet dba db' \<Longrightarrow> P db'"
  shows "outcome P (login_device clk in' u db)"
proof (cases "fmlookup (devices db) (u, li_DeviceID in')")
  case None
  then show ?thesis unfolding login_device_def by (simp add: quiet_passes [OF assms])
next
  case (Some d)
  with assms show ?thesis unfolding login_device_def by (simp add: steps)
qed

lemma quiet_login_finish [steps]:
  "quiet dba db \<Longrightarrow> (\<And>x db'. quiet dba db' \<Longrightarrow> P (x, db')) \<Longrightarrow> outcome P (login_finish fr clk in' u db)"
  unfolding login_finish_def
  by (assumption | rule steps | simp only: outcome_bind prod.case outcome_Inr split_paired_all)+

lemma quiet_loginLocal_tx: "outcome (\<lambda>(r, db'). quiet db db') (loginLocal_tx w fr clk in' db)"
proof -
  have "outcome (\<lambda>(r, db'). quiet db db') (login_finish fr clk in' u db)" for u
    by (rule steps quiet_refl | simp)+
  then show ?thesis by (simp add: loginLocal_tx_def Let_def split: option.split prod.split)
qed

lemma quiet_loginExternal_tx: "outcome (\<lambda>(r, db'). quiet db db') (loginExternal_tx w fr clk in' ext db)"
proof (cases "find_row (\<lambda>_ r. u_auth_provider r = ''external'' \<and> u_external_subject r = Some (xu_Subject ext))
    (users db)")
  case None
  have "outcome P (uniqueExternalUsername w a b db)" if "\<And>n. P n" for P a b
    using that by (simp add: outcome_def)
  note name = this
  show ?thesis
    unfolding loginExternal_tx_def None Let_def option.case outcome_bind
    by (assumption | rule name steps quiet_refl | simp only: outcome_bind prod.case outcome_Inr split_paired_all)+
next
  case (Some ur)
  obtain u r where ur: "ur = (u, r)" by (cases ur)
  let ?upd = "case (if xu_Email ext \<noteq> [] then Email (w_tbl w) (xu_Email ext) else None) of
      None \<Rightarrow> Inr db
    | Some norm \<Rightarrow> update_user (w_lower w) u (\<lambda>r. r\<lparr>u_email := Some norm\<rparr>) db"
  have upd: "outcome (quiet db) ?upd"
    by (auto split: option.split intro!: quiet_passes_update [OF quiet_refl] simp: same_user_def)
  have fin: "quiet db db1 \<Longrightarrow> outcome (\<lambda>(r, db'). quiet db db') (login_finish fr (shift 2 clk) in' u db1)" for db1
    by (rule steps | assumption | simp)+
  show ?thesis
    using upd fin unfolding loginExternal_tx_def Some ur Let_def option.case prod.case
    by (cases ?upd) simp_all
qed

section \<open>Operations\<close>

text \<open>The notification hub after an operation: unchanged, or connections of a user closed.\<close>

lemma close_simps [simp]:
  "st_Pool (close_user u st) = st_Pool st" "st_Pool (close_device u d st) = st_Pool st"
  "st_Cfg (close_user u st) = st_Cfg st" "st_Cfg (close_device u d st) = st_Cfg st"
  by (simp_all add: close_user_def close_device_def)

lemma Register_quiet:
  assumes "Register w fr clk now in' st = (x, st')"
  shows "quiet (st_Pool st) (st_Pool st')"
proof -
  have tx: "run_tx (register_tx (st_Cfg st) w fr clk now in' email) st = (x, st') \<Longrightarrow>
      quiet (st_Pool st) (st_Pool st')" for email
    by (erule run_tx_quiet) (rule quiet_register_tx)
  from assms show ?thesis
    by (auto simp: Register_def Let_def split: if_splits sum.splits intro: tx)
qed

lemma RequestEmailCode_quiet:
  assumes "RequestEmailCode w mailer buf clk now email st = (x, st')"
  shows "quiet (st_Pool st) (st_Pool st')"
  using assms by (auto simp: RequestEmailCode_def Let_def split: if_splits option.splits sum.splits
      intro: quiet_upsert)

lemma Login_quiet:
  assumes "Login w external fr clk in' st = (x, st')"
  shows "quiet (st_Pool st) (st_Pool st')"
proof -
  have loc: "run_tx (loginLocal_tx w fr clk in') st = (x, st') \<Longrightarrow> quiet (st_Pool st) (st_Pool st')"
    by (erule run_tx_quiet) (rule quiet_loginLocal_tx)
  have ext: "run_tx (loginExternal_tx w fr clk in' e) st = (x, st') \<Longrightarrow> quiet (st_Pool st) (st_Pool st')" for e
    by (erule run_tx_quiet) (rule quiet_loginExternal_tx)
  from assms show ?thesis
    by (auto simp: Login_def loginExternal_def split: if_splits option.splits sum.splits intro: loc ext)
qed

lemma LookupAccess_quiet:
  assumes "LookupAccess clk now token st = (x, st')"
  shows "quiet (st_Pool st) (st_Pool st')"
  using assms by (auto simp: LookupAccess_def split: if_splits option.splits prod.splits
      intro: quiet_touch_device)

lemma session_join_Some:
  "session_join P db = Some (i, s, d, u) \<Longrightarrow> fmlookup (sessions db) i = Some s \<and> P s
     \<and> fmlookup (devices db) (s_user_id s, s_device_id s) = Some d \<and> fmlookup (users db) (s_user_id s) = Some u"
  by (auto simp: session_join_def split: option.splits dest: find_row_Some)

lemma quiet_update_session:
  assumes "update_session_returning i f db = Inr (x, db')" and "\<And>s. fmlookup (sessions db) i = Some s \<Longrightarrow>
      same_session s (f s)"
  shows "quiet db db'"
  using assms accounts_ok_update_session [OF assms(1) _ assms(2)]
  by (auto simp: update_session_returning_Inr quiet_def log_frame_def account_kept_def rows_kept_refl
      intro!: rows_kept_update)

lemma quiet_refresh_tx: "outcome (\<lambda>(r, db'). quiet db db') (refresh_tx fr clk now hash db)"
proof (cases "session_join (\<lambda>s. s_refresh_hash s = hash) db")
  case (Some x)
  obtain i s d u where x: "x = (i, s, d, u)" by (cases x)
  note row = session_join_Some [OF Some [unfolded x]]
  let ?upd = "\<lambda>a r. update_session_returning i (\<lambda>s. s\<lparr>s_access_hash := a, s_refresh_hash := r,
      s_expires_at := clk 0 + seconds 900\<rparr>)"
  have "quiet db db2" if ins: "insert_used_refresh hash t db = Inr db1" and upd: "?upd a r db1 = Inr (y, db2)"
    and live: "s_revoked_at s = None" for t db1 a r y db2
  proof (rule quiet_trans)
    show "quiet db db1" using ins by (rule quiet_insert_used)
    have "sessions db1 = sessions db" using ins by (auto simp: insert_used_refresh_Inr)
    then show "quiet db1 db2" using upd row live
      by (auto intro!: quiet_update_session [OF upd] simp: same_session_def)
  qed
  then show ?thesis
    unfolding refresh_tx_def Some x outcome_def Let_def
    by (auto simp: res split: prod.splits)
qed (simp add: refresh_tx_def)

lemma Refresh_quiet:
  assumes "Refresh fr clk now token st = (x, st')"
  shows "quiet (st_Pool st) (st_Pool st')"
proof -
  have tx: "run_tx (refresh_tx fr clk now h) st = (x, st') \<Longrightarrow> quiet (st_Pool st) (st_Pool st')" for h
    by (erule run_tx_quiet) (rule quiet_refresh_tx)
  from assms show ?thesis
    by (auto simp: Refresh_def Let_def quiet_revoke_sessions split: if_splits option.splits intro: tx)
qed

lemma Logout_quiet: "quiet (st_Pool st) (st_Pool (Logout clk scope st))"
  by (simp add: Logout_def quiet_revoke_sessions)

lemma quiet_set_password [steps]:
  assumes "quiet dba db" and "\<And>db'. quiet dba db' \<Longrightarrow> P ((), db')"
  shows "outcome P (set_password w clk hash u db)"
  unfolding set_password_def outcome_bind
  by (rule quiet_passes_update [OF assms(1)]) (auto simp: same_user_def intro: assms(2) steps)

lemma ChangePassword_quiet:
  assumes "ChangePassword w fr clk scope old new st = (x, st')"
  shows "quiet (st_Pool st) (st_Pool st')"
proof -
  from assms obtain y st1 where tx: "run_tx
             (\<lambda>db.
               case fmlookup (users db) (sc_UserID scope) of
                 None \<Rightarrow> Inl (Db NoRows)
               | Some r \<Rightarrow>
                   if u_auth_provider r \<noteq> ''local'' then Inl (App (New 403 RegistrationDisabled))
                   else if Verify (w_idkey w) old (u_password_hash r) \<noteq> Some True
                   then Inl (App (New 401 Unauthenticated))
                   else set_password w clk (Hash (w_idkey w) (f_salt fr) new) (sc_UserID scope) db) st
      = (y, st1)" and pool: "st_Pool st' = st_Pool st1"
    by (auto simp: ChangePassword_def split: prod.splits sum.splits)
  have "quiet (st_Pool st) (st_Pool st1)"
    by (rule run_tx_quiet [OF tx]) (auto split: option.split intro!: steps quiet_refl)
  with pool show ?thesis by simp
qed

lemma ResetPassword_quiet:
  assumes "ResetPassword w fr clk name new st = (x, st')"
  shows "quiet (st_Pool st) (st_Pool st')"
proof -
  from assms obtain y st1 where tx: "run_tx
             (\<lambda>db.
               case find_row (\<lambda>_ r. u_username r = name) (users db) of
                 None \<Rightarrow> Inl (App (New 404 NotFound))
               | Some (u, _) \<Rightarrow>
                   bind_res (set_password w clk (Hash (w_idkey w) (f_salt fr) new) u db)
                   (\<lambda>(_, db). Inr (u, db))) st = (y, st1)" and pool: "st_Pool st' = st_Pool st1"
    by (auto simp: ResetPassword_def split: prod.splits sum.splits)
  have "quiet (st_Pool st) (st_Pool st1)"
    by (rule run_tx_quiet [OF tx]) (auto split: option.split intro!: steps quiet_refl)
  with pool show ?thesis by simp
qed

lemma quiet_revoke_tx: "outcome (\<lambda>(r, db'). quiet db db') (revoke_tx clk u d db)"
proof -
  have "quiet db (db\<lparr>devices := fmupd (u, d) (r\<lparr>d_revoked_at := Some t\<rparr>) (devices db)\<rparr>)"
    if "fmlookup (devices db) (u, d) = Some r" "d_revoked_at r = None" for r t
  proof -
    have "accounts_ok db \<Longrightarrow> accounts_ok (db\<lparr>devices := fmupd (u, d) (r\<lparr>d_revoked_at := Some t\<rparr>) (devices db)\<rparr>)"
      by (rule accounts_ok_devices) (use that in \<open>auto simp: has_row_def\<close>)
    with that show ?thesis
      by (auto simp: quiet_def log_frame_def account_kept_def rows_kept_refl same_device_def
          intro!: rows_kept_update)
  qed
  then show ?thesis
    by (auto simp: revoke_tx_def Let_def split: option.split intro!: steps)
qed

lemma RevokeDevice_quiet:
  assumes "RevokeDevice clk scope d st = (x, st')"
  shows "quiet (st_Pool st) (st_Pool st')"
proof -
  from assms obtain y st1 where tx: "run_tx (revoke_tx clk (sc_UserID scope) d) st = (y, st1)"
    and pool: "st_Pool st' = st_Pool st1"
    by (auto simp: RevokeDevice_def split: prod.splits sum.splits)
  have "quiet (st_Pool st) (st_Pool st1)"
    by (rule run_tx_quiet [OF tx]) (rule quiet_revoke_tx)
  with pool show ?thesis by simp
qed

lemma InitVault_quiet:
  assumes "InitVault scope env salt nonce wrapped pw st = (x, st')"
  shows "quiet (st_Pool st) (st_Pool st')"
  using assms unfolding InitVault_def
  by (rule run_tx_quiet) (auto split: sum.split intro: quiet_insert_vault)

lemma PutPasswordWrap_quiet:
  assumes "PutPasswordWrap scope pw st = (x, st')"
  shows "quiet (st_Pool st) (st_Pool st')"
  using assms unfolding PutPasswordWrap_def
  by (rule run_tx_quiet) (auto simp: outcome_def bind_res_Inr_iff split: if_splits intro: quiet_update_vault_wrap)

lemma CreateInvite_quiet:
  assumes "CreateInvite raw now ttl st = (x, st')"
  shows "quiet (st_Pool st) (st_Pool st')"
  using assms unfolding CreateInvite_def Let_def
  by (auto split: prod.splits elim!: run_tx_quiet intro!: steps quiet_refl)

lemma RotateSyncEpoch_quiet:
  assumes "RotateSyncEpoch clk fresh st = (x, st')"
  shows "quiet (st_Pool st) (st_Pool st')"
proof -
  have "quiet db (db\<lparr>server_state := ss\<rparr>)" "quiet db (db\<lparr>snapshot_sessions := fmempty\<rparr>)" for db ss
    by (auto simp: quiet_def log_frame_def account_kept_same)
  then have "quiet db (revoke_sessions t P (db\<lparr>server_state := ss\<rparr>)\<lparr>snapshot_sessions := fmempty\<rparr>)" for db ss t P
    by (meson quiet_revoke_sessions quiet_trans)
  with assms show ?thesis by (auto simp: RotateSyncEpoch_def Let_def split: option.splits)
qed

end
