(* ===== verification/System.thy ===== *)
theory System
  imports AuthQuiet
begin

text \<open>
  The whole server as a transition system.  A state is the store and a time no clock has yet
  passed; a step is one operation of package \<open>store\<close>, or one transaction of a background job,
  on a database clock that does not run backwards.  \<open>reaches\<close> is any number of steps, from the
  database the migrations leave.  The contract \<open>server_contract\<close> states what a property of
  states has to satisfy to hold in every reachable state; its interpretations are the
  invariants of the synchronisation tables, and what may have changed since an earlier state.
\<close>

section \<open>Steps\<close>

text \<open>The operations on accounts, and those that write no table of the synchronisation.\<close>

inductive account_step :: "clock \<Rightarrow> Store \<Rightarrow> Store \<Rightarrow> bool" where
  register: "Register w fr clk now ri st = (x, st') \<Longrightarrow> account_step clk st st'"
| email_code: "RequestEmailCode w mailer buf clk t email st = (x, st') \<Longrightarrow> account_step clk st st'"
| login: "Login w external fr clk li st = (x, st') \<Longrightarrow> account_step clk st st'"
| lookup: "LookupAccess clk t token st = (x, st') \<Longrightarrow> account_step clk st st'"
| refresh: "Refresh fr clk t token st = (x, st') \<Longrightarrow> account_step clk st st'"
| logout: "account_step clk st (Logout clk scope st)"
| change_password: "ChangePassword w fr clk scope old new st = (x, st') \<Longrightarrow> account_step clk st st'"
| reset_password: "ResetPassword w fr clk name new st = (x, st') \<Longrightarrow> account_step clk st st'"
| revoke_device: "RevokeDevice clk scope d st = (x, st') \<Longrightarrow> account_step clk st st'"
| init_vault: "InitVault scope env salt nonce wrapped pw st = (x, st') \<Longrightarrow> account_step clk st st'"
| put_wrap: "PutPasswordWrap scope p st = (x, st') \<Longrightarrow> account_step clk st st'"
| invite: "CreateInvite raw t ttl st = (x, st') \<Longrightarrow> account_step clk st st'"
| rotate: "RotateSyncEpoch clk fresh st = (x, st') \<Longrightarrow> account_step clk st st'"

inductive sys_step :: "time \<Rightarrow> Store \<Rightarrow> time \<Rightarrow> Store \<Rightarrow> bool" where
  account: "account_step clk st st' \<Longrightarrow> mono clk \<Longrightarrow> t \<le> clk 0 \<Longrightarrow> sys_step t st (clk readings) st'"
| create: "CreateClip clk scope env nonce ciphertext h st = (x, st') \<Longrightarrow> UUID (env_ID env) \<Longrightarrow>
    mono clk \<Longrightarrow> t \<le> clk 0 \<Longrightarrow> sys_step t st (clk readings) st'"
| mutate: "MutateClip clk scope c op kind v h st = (x, st') \<Longrightarrow>
    mono clk \<Longrightarrow> t \<le> clk 0 \<Longrightarrow> sys_step t st (clk readings) st'"
| snapshot: "BeginSnapshot clk raw scope st = (x, st') \<Longrightarrow>
    mono clk \<Longrightarrow> t \<le> clk 0 \<Longrightarrow> sys_step t st (clk readings) st'"
| purge: "purgeUserExpired clk u st = (x, st') \<Longrightarrow>
    mono clk \<Longrightarrow> t \<le> clk 0 \<Longrightarrow> sys_step t st (clk readings) st'"
| retain: "RetainEvents clk st = (x, st') \<Longrightarrow>
    mono clk \<Longrightarrow> t \<le> clk 0 \<Longrightarrow> sys_step t st (clk readings) st'"
| cleanup: "mono clk \<Longrightarrow> t \<le> clk 0 \<Longrightarrow> sys_step t st (clk readings) (CleanupAux clk st)"
| announce: "sys_step t st t (notify u st)"
| sockets: "sys_step t st t (st\<lparr>st_Hub := h\<rparr>)"

inductive reaches :: "time \<Rightarrow> Store \<Rightarrow> time \<Rightarrow> Store \<Rightarrow> bool" where
  start: "reaches t st t st"
| step: "reaches t0 st0 t st \<Longrightarrow> sys_step t st t' st' \<Longrightarrow> reaches t0 st0 t' st'"

inductive_cases reaches_refl: "reaches t st t st"

lemma reaches_trans:
  assumes "reaches t1 st1 t2 st2" and "reaches t0 st0 t1 st1"
  shows "reaches t0 st0 t2 st2"
  using assms by (induction rule: reaches.induct) (auto intro: reaches.step)

text \<open>The database after the migrations and \<open>ensureServerState\<close>.\<close>

definition initial :: "Store \<Rightarrow> bool" where
  "initial st \<longleftrightarrow> (\<exists>s. st_Pool st = empty_db\<lparr>server_state := Some s\<rparr>)"

definition reachable :: "time \<Rightarrow> Store \<Rightarrow> bool" where
  "reachable t st \<longleftrightarrow> (\<exists>t0 st0. initial st0 \<and> reaches t0 st0 t st)"

section \<open>Frames\<close>

lemma account_step_quiet: "account_step clk st st' \<Longrightarrow> quiet (st_Pool st) (st_Pool st')"
  by (cases rule: account_step.cases)
    (auto intro: Register_quiet RequestEmailCode_quiet Login_quiet LookupAccess_quiet Refresh_quiet
      Logout_quiet ChangePassword_quiet ResetPassword_quiet RevokeDevice_quiet InitVault_quiet
      PutPasswordWrap_quiet CreateInvite_quiet RotateSyncEpoch_quiet)

lemma run_tx_Cfg: "run_tx f st = (x, st') \<Longrightarrow> st_Cfg st' = st_Cfg st"
  by (auto simp: run_tx_def split: sum.splits)

lemma account_step_Cfg: "account_step clk st st' \<Longrightarrow> st_Cfg st' = st_Cfg st"
  by (cases rule: account_step.cases)
    (auto simp: Register_def RequestEmailCode_def Login_def loginExternal_def LookupAccess_def Refresh_def
      Logout_def ChangePassword_def ResetPassword_def RevokeDevice_def InitVault_def PutPasswordWrap_def
      CreateInvite_def RotateSyncEpoch_def Let_def
      split: if_splits option.splits sum.splits prod.splits dest!: run_tx_Cfg)

lemma log_step_accounts:
  "log_step u c r i e db db' \<Longrightarrow> account_kept db db' \<and> operation_receipts db' = operation_receipts db
     \<and> (accounts_ok db \<longrightarrow> accounts_ok db')"
  by (auto simp: log_step_def log_write_def has_row_def intro: account_kept_same accounts_ok_same
      split: if_splits)

lemma CreateClip_accounts:
  assumes "CreateClip clk scope env nonce ct h st = (x, st')"
  shows "account_kept (st_Pool st) (st_Pool st')" and "st_Cfg st' = st_Cfg st"
    and "operation_receipts (st_Pool st') = operation_receipts (st_Pool st)"
    and "accounts_ok (st_Pool st) \<Longrightarrow> accounts_ok (st_Pool st')"
  using assms(1)
  by (cases rule: CreateClip_cases; auto dest!: create_tx_step log_step_accounts)+

lemma MutateClip_accounts:
  assumes "MutateClip clk scope c op kind v h st = (x, st')" and inv: "sync_inv (st_Pool st)"
  shows "account_kept (st_Pool st) (st_Pool st')" and "st_Cfg st' = st_Cfg st"
    and "fmlookup (operation_receipts (st_Pool st)) k = Some r \<Longrightarrow>
      fmlookup (operation_receipts (st_Pool st')) k = Some r"
    and "accounts_ok (st_Pool st) \<Longrightarrow> accounts_ok (st_Pool st')"
proof -
  from assms(1) have "account_kept (st_Pool st) (st_Pool st') \<and> st_Cfg st' = st_Cfg st
      \<and> (accounts_ok (st_Pool st) \<longrightarrow> accounts_ok (st_Pool st'))
      \<and> (\<forall>k r. fmlookup (operation_receipts (st_Pool st)) k = Some r \<longrightarrow>
           fmlookup (operation_receipts (st_Pool st')) k = Some r)"
  proof (cases rule: MutateClip_cases)
    case (fresh receipt db)
    from fresh(2) show ?thesis
    proof (cases rule: mutate_tx_cases)
      case (fresh db1 r)
      from applyMutation_step [OF inv fresh(3)]
      have "account_kept (st_Pool st) db1 \<and> operation_receipts db1 = operation_receipts (st_Pool st)
          \<and> (accounts_ok (st_Pool st) \<longrightarrow> accounts_ok db1)"
        by (auto simp: mutated_def Let_def dest: log_step_accounts)
      moreover have "account_kept db1 db" "accounts_ok db1 \<Longrightarrow> accounts_ok db"
        using fresh(6) by (simp_all add: add_receipt_def account_kept_same)
      moreover have "fmlookup (operation_receipts db1) k = Some r' \<Longrightarrow>
          fmlookup (operation_receipts db) k = Some r'" for k r'
        using fresh(5) by (auto simp: insert_receipt_def has_row_def split: if_splits)
      ultimately show ?thesis using \<open>st' = _\<close> by (auto intro: account_kept_trans)
    qed simp
  qed auto
  then show "account_kept (st_Pool st) (st_Pool st')" and "st_Cfg st' = st_Cfg st"
    and "fmlookup (operation_receipts (st_Pool st)) k = Some r \<Longrightarrow>
      fmlookup (operation_receipts (st_Pool st')) k = Some r"
    and "accounts_ok (st_Pool st) \<Longrightarrow> accounts_ok (st_Pool st')" by blast+
qed

lemma BeginSnapshot_quiet:
  assumes "BeginSnapshot clk raw scope st = (x, st')"
  shows "quiet (st_Pool st) (st_Pool st')" and "st_Cfg st' = st_Cfg st"
proof -
  have "quiet db db'" if "insert_snapshot h r db = Inr db'" for h r db db'
    using that by (auto simp: insert_snapshot_def quiet_def log_frame_def account_kept_same split: if_splits)
  then have "outcome (\<lambda>(y, db'). quiet db db') (bind_res (insert_snapshot h r db) (\<lambda>db. Inr (y, db)))" for h r db y
    by (auto simp: outcome_def res)
  with assms show "quiet (st_Pool st) (st_Pool st')"
    by (auto simp: BeginSnapshot_def Let_def split: prod.splits option.splits elim!: run_tx_quiet)
  from assms show "st_Cfg st' = st_Cfg st"
    by (auto simp: BeginSnapshot_def split: prod.splits dest: run_tx_Cfg)
qed

lemma CleanupAux_frame:
  "log_frame (st_Pool st) (st_Pool (CleanupAux clk st))"
  "account_kept (st_Pool st) (st_Pool (CleanupAux clk st))"
  "accounts_ok (st_Pool st) \<Longrightarrow> accounts_ok (st_Pool (CleanupAux clk st))" "st_Cfg (CleanupAux clk st) = st_Cfg st"
  by (simp_all add: CleanupAux_def log_frame_def account_kept_same)

section \<open>The contract\<close>

text \<open>
  A property that survives the operations of the clip life cycle and of the jobs, and every
  change that is \<open>quiet\<close>, survives every step.
\<close>

locale server_contract = job_contract +
  assumes quietly: "I t st \<Longrightarrow> quiet (st_Pool st) (st_Pool st') \<Longrightarrow> st_Cfg st' = st_Cfg st \<Longrightarrow> I t st'"
    and created: "I t st \<Longrightarrow> mono clk \<Longrightarrow> t \<le> clk 0 \<Longrightarrow>
      CreateClip clk scope env nonce ciphertext h st = (x, st') \<Longrightarrow> I (clk readings) st'"
    and mutated_by: "I t st \<Longrightarrow> mono clk \<Longrightarrow> t \<le> clk 0 \<Longrightarrow>
      MutateClip clk scope c op kind v h st = (y, st') \<Longrightarrow> I (clk readings) st'"
begin

lemma step:
  assumes "sys_step t st t' st'" and "I t st"
  shows "I t' st'"
  using assms
proof (cases rule: sys_step.cases)
  case (account clk)
  have "t \<le> t'" using account monoD [of clk 0 readings] by simp
  moreover have "I t st'"
    by (rule quietly [OF assms(2) account_step_quiet account_step_Cfg]) (rule account)+
  ultimately show ?thesis by (blast intro: later)
next
  case (snapshot clk raw scope x)
  have "t \<le> t'" using snapshot monoD [of clk 0 readings] by simp
  moreover have "I t st'" by (rule quietly [OF assms(2) BeginSnapshot_quiet]) (rule snapshot)+
  ultimately show ?thesis by (blast intro: later)
qed (auto intro: created mutated_by purge_user retain cleanup notified quietly)

lemma run: "reaches t st t' st' \<Longrightarrow> I t st \<Longrightarrow> I t' st'"
  by (induction rule: reaches.induct) (auto intro: step)

end

section \<open>The invariants of the synchronisation tables, and what changed since a state\<close>

definition synced :: "time \<Rightarrow> Store \<Rightarrow> bool" where
  "synced t st \<longleftrightarrow> sync_inv (st_Pool st) \<and> events_timed t (st_Pool st)"

text \<open>A receipt stays until it expires.\<close>

definition receipts_kept :: "time \<Rightarrow> DB \<Rightarrow> DB \<Rightarrow> bool" where
  "receipts_kept t db db' \<longleftrightarrow>
     (\<forall>k r. fmlookup (operation_receipts db) k = Some r \<longrightarrow>
        fmlookup (operation_receipts db') k = Some r \<or> r_expires_at r \<le> t)"

lemma receipts_kept_same: "operation_receipts db' = operation_receipts db \<Longrightarrow> receipts_kept t db db'"
  by (simp add: receipts_kept_def)

lemma receipts_kept_trans:
  assumes "receipts_kept t a b" and "receipts_kept t' b c" and "t \<le> t'"
  shows "receipts_kept t' a c"
  using assms unfolding receipts_kept_def by (meson order_trans)

definition since :: "Store \<Rightarrow> time \<Rightarrow> Store \<Rightarrow> bool" where
  "since st0 t st \<longleftrightarrow> synced t st \<and> st_Cfg st = st_Cfg st0
     \<and> (\<forall>u. evolves u (st_Pool st0) (st_Pool st)) \<and> account_kept (st_Pool st0) (st_Pool st)
     \<and> receipts_kept t (st_Pool st0) (st_Pool st)
     \<and> (accounts_ok (st_Pool st0) \<longrightarrow> accounts_ok (st_Pool st))"

lemma since_next:
  assumes "since st0 t st" and "synced t' st'" and "st_Cfg st' = st_Cfg st"
    and "\<And>u. evolves u (st_Pool st) (st_Pool st')" and "account_kept (st_Pool st) (st_Pool st')"
    and "receipts_kept t' (st_Pool st) (st_Pool st')" and "t \<le> t'"
    and "accounts_ok (st_Pool st) \<Longrightarrow> accounts_ok (st_Pool st')"
  shows "since st0 t' st'"
  using assms unfolding since_def by (auto intro: evolves_trans account_kept_trans receipts_kept_trans)

lemma since_later: "since st0 t st \<Longrightarrow> t \<le> t' \<Longrightarrow> since st0 t' st"
  by (rule since_next [where t = t and st = st])
    (auto simp: since_def synced_def receipts_kept_same intro: events_timed_later)

lemma CreateClip_synced:
  assumes "CreateClip clk scope env nonce ct h st = (x, st')" and "synced t st"
    and clk: "mono clk" "t \<le> clk 0"
  shows "synced (clk readings) st'"
proof -
  note le = clk(2) monoD [OF clk(1), of 0 readings]
  from assms(2) have inv: "sync_inv (st_Pool st)" and old: "events_timed t (st_Pool st)"
    by (simp_all add: synced_def)
  from assms(1) have "events_timed (clk readings) (st_Pool st')"
  proof (cases rule: CreateClip_cases)
    case (fresh res db)
    from create_tx_step [OF fresh(3,2)] obtain i r e where
      "log_step (sc_UserID scope) (env_ID env) (Some r) i e (st_Pool st) db" "e_occurred_at e = clk 0" by blast
    with log_step_timed [OF this(1) inv old, of "clk readings"] le fresh(4) show ?thesis by simp
  qed (use old le in \<open>auto intro: events_timed_later\<close>)
  with CreateClip_inv [OF assms(1) inv] show ?thesis by (simp add: synced_def)
qed

lemma MutateClip_synced:
  assumes "MutateClip clk scope c op kind v h st = (x, st')" and "synced t st"
    and clk: "mono clk" "t \<le> clk 0"
  shows "synced (clk readings) st'"
proof -
  have le: "t \<le> clk k" "k \<le> readings \<Longrightarrow> clk k \<le> clk readings" for k
    by (rule order_trans [OF clk(2) monoD [OF clk(1)]], simp) (rule monoD [OF clk(1)])
  from assms(2) have inv: "sync_inv (st_Pool st)" and old: "events_timed t (st_Pool st)"
    by (simp_all add: synced_def)
  from assms(1) have "events_timed (clk readings) (st_Pool st')"
  proof (cases rule: MutateClip_cases)
    case (fresh receipt db)
    from fresh(2) show ?thesis
    proof (cases rule: mutate_tx_cases)
      case (fresh db1 r)
      from applyMutation_step [OF inv fresh(3)] obtain r1 i e k where
        "log_step (sc_UserID scope) c r1 i e (st_Pool st) db1" "e_occurred_at e = clk (1 + k)" "k \<le> 3"
        by (auto simp: mutated_def Let_def)
      with log_step_timed [OF this(1) inv old, of "clk readings"] le [of "1 + k"]
      have "events_timed (clk readings) db1" by (simp add: readings_def)
      then have "events_timed (clk readings) db"
        using fresh(6) events_timed_cong [of db db1] by (simp add: add_receipt_def)
      with \<open>st' = _\<close> show ?thesis by simp
    qed simp
  qed (use old le in \<open>auto intro: events_timed_later\<close>)
  with MutateClip_inv [OF assms(1) inv] show ?thesis by (simp add: synced_def)
qed

lemma purgeUserExpired_since:
  assumes "purgeUserExpired clk u st = (x, st')" and "since st0 t st"
    and clk: "mono clk" "t \<le> clk 0"
  shows "since st0 (clk readings) st'"
proof (cases x)
  case (Inl e)
  with assms(1) have "st' = st" by (simp add: purgeUserExpired_def res)
  with assms(2) clk monoD [OF clk(1), of 0 readings] show ?thesis
    by (auto intro: since_later)
next
  case (Inr n)
  let ?ids = "expired_ids (clk 0) u (st_Pool st)"
  let ?J = "\<lambda>t db. since st0 t (st\<lparr>st_Pool := db\<rparr>)"
  from assms(1) Inr obtain db where
    p: "purge_ids (shift 1 clk) u ?ids 0 (st_Pool st) = Inr (n, db)" and st': "st' = st\<lparr>st_Pool := db\<rparr>"
    by (auto simp: purgeUserExpired_def res)
  have "?J (clk readings) db"
  proof (rule purge_ids_rule [OF p mono_shift [OF clk(1)], where J = ?J and t = t])
    fix i assume "i < 3 * length ?ids"
    with expired_ids_ok(4) [of "clk 0" u "st_Pool st"] have "1 + i \<le> readings" by (simp add: readings_def)
    then show "shift 1 clk i \<le> clk readings" by (simp add: monoD [OF clk(1)])
  next
    show "?J t (st_Pool st)" using assms(2) by simp
    show "t \<le> shift 1 clk 0" using clk(2) monoD [OF clk(1), of 0 1] by simp
    show "t \<le> clk readings" using clk(2) monoD [OF clk(1), of 0 readings] by simp
    show "?J t db \<Longrightarrow> sync_inv db" for t db by (simp add: since_def synced_def)
    show "?J t db \<Longrightarrow> t \<le> t' \<Longrightarrow> ?J t' db" for t t' db by (rule since_later)
    fix t t' i row j e db db1
    assume J: "?J t db" and step: "log_step u i None j e db db1"
      and le: "t \<le> e_occurred_at e" "e_occurred_at e \<le> t'"
    from J have inv: "sync_inv db" "events_timed t db" by (simp_all add: since_def synced_def)
    show "?J t' db1"
      by (rule since_next [OF J])
        (use log_step_inv [OF step inv(1)] log_step_timed [OF step inv le] log_step_evolves [OF step inv(1)]
          log_step_accounts [OF step] le in \<open>simp_all add: synced_def receipts_kept_same\<close>)
  qed
  with st' show ?thesis by simp
qed

lemma frame_since:
  assumes "since st0 t st" and fr: "log_frame (st_Pool st) (st_Pool st')"
    and acc: "account_kept (st_Pool st) (st_Pool st')"
    and ok: "accounts_ok (st_Pool st) \<Longrightarrow> accounts_ok (st_Pool st')" and "st_Cfg st' = st_Cfg st"
    and rec: "receipts_kept t (st_Pool st) (st_Pool st')"
  shows "since st0 t st'"
proof (rule since_next [OF assms(1) _ assms(5) _ _ rec order_refl ok])
  from assms(1) have "sync_inv (st_Pool st)" "events_timed t (st_Pool st)" by (simp_all add: since_def synced_def)
  then show "synced t st'"
    using log_frame_inv [OF fr] log_frame_timed [OF fr] by (simp add: synced_def)
  show "evolves u (st_Pool st) (st_Pool st')" for u by (rule log_frame_evolves [OF fr])
  show "account_kept (st_Pool st) (st_Pool st')" by (rule acc)
qed

lemma retained_accounts: "account_kept db (retained lim db)"
  by (rule account_kept_same) (simp_all add: retained_def)

lemma RetainEvents_since:
  assumes "since st0 t st" and run: "RetainEvents clk st = (x, st')"
  shows "since st0 t st'"
proof (cases x)
  case (Inl e)
  with assms show ?thesis by (simp add: RetainEvents_def res)
next
  case (Inr y)
  with run obtain db where db: "retain_tx (st_Cfg st) clk (st_Pool st) = Inr (y, db)"
    and st': "st' = st\<lparr>st_Pool := db\<rparr>" by (auto simp: RetainEvents_def res)
  from db obtain lim where lim: "db = retained lim (st_Pool st)"
    and chk0: "\<And>u s. fmlookup (user_sync_state db) u = Some s \<Longrightarrow> check_sync s \<and> in_int8 (min_available_seq s)"
    by (rule retain_tx_Inr) (rule that; blast)
  note chk = chk0 [unfolded lim]
  from assms(1) have inv: "sync_inv (st_Pool st)" "events_timed t (st_Pool st)"
    by (simp_all add: since_def synced_def)
  have kept: "sync_inv (retained lim (st_Pool st))" "events_timed t (retained lim (st_Pool st))"
    "evolves u (st_Pool st) (retained lim (st_Pool st))" for u
    by (rule retained_inv [OF inv], rule chk, assumption)+
  show ?thesis
  proof (rule since_next [OF assms(1)])
    show "synced t st'" using kept(1,2) by (simp add: synced_def st' lim)
    show "st_Cfg st' = st_Cfg st" by (simp add: st')
    show "evolves u (st_Pool st) (st_Pool st')" for u using kept(3) by (simp add: st' lim)
    show "account_kept (st_Pool st) (st_Pool st')"
      using retained_accounts by (simp add: st' lim)
    show "receipts_kept t (st_Pool st) (st_Pool st')"
      by (rule receipts_kept_same) (simp add: st' lim retained_def)
    have "accounts_ok db \<Longrightarrow> accounts_ok (retained lim db)" for db
      by (erule accounts_ok_same [rotated -1]) (simp_all add: retained_def has_row_def)
    then show "accounts_ok (st_Pool st) \<Longrightarrow> accounts_ok (st_Pool st')" by (simp add: st' lim)
  qed simp
qed

lemma CleanupAux_since:
  assumes "since st0 t st" and "mono clk" and "t \<le> clk 0"
  shows "since st0 (clk readings) (CleanupAux clk st)"
proof -
  have le: "clk 0 \<le> clk readings" by (simp add: monoD [OF assms(2)])
  have "receipts_kept (clk readings) (st_Pool st) (st_Pool (CleanupAux clk st))"
    using le by (auto simp: receipts_kept_def CleanupAux_def lookup_delete_where)
  with frame_since [OF since_later [OF assms(1)] CleanupAux_frame, of "clk readings"] le assms(3)
  show ?thesis by simp
qed

interpretation srv: server_contract "since st0" for st0
proof
  fix t t' :: time and st :: Store
  show "since st0 t st \<Longrightarrow> t \<le> t' \<Longrightarrow> since st0 t' st" by (rule since_later)
next
  fix t st u
  show "since st0 t st \<Longrightarrow> since st0 t (notify u st)" by (simp add: since_def synced_def)
next
  fix t st u x st' and clk :: clock
  assume "since st0 t st" "mono clk" "t \<le> clk 0" "purgeUserExpired clk u st = (x, st')"
  then show "since st0 (clk readings) st'" by (blast intro: purgeUserExpired_since)
next
  fix t st x st' and clk :: clock
  assume "since st0 t st" "mono clk" "t \<le> clk 0" "RetainEvents clk st = (x, st')"
  then show "since st0 (clk readings) st'"
    using monoD [of clk 0 readings] by (auto intro: since_later RetainEvents_since)
next
  fix t st and clk :: clock
  assume "since st0 t st" "mono clk" "t \<le> clk 0"
  then show "since st0 (clk readings) (CleanupAux clk st)"
    by (rule CleanupAux_since)
next
  fix t and st st' :: Store
  assume "since st0 t st" "quiet (st_Pool st) (st_Pool st')" "st_Cfg st' = st_Cfg st"
  then show "since st0 t st'" by (auto simp: quiet_def intro: frame_since receipts_kept_same)
next
  fix t st scope env nonce ciphertext h x st' and clk :: clock
  assume s: "since st0 t st" and clk: "mono clk" "t \<le> clk 0"
    and c: "CreateClip clk scope env nonce ciphertext h st = (x, st')"
  from s have "synced t st" "sync_inv (st_Pool st)" by (simp_all add: since_def synced_def)
  then show "since st0 (clk readings) st'"
    using since_next [OF s CreateClip_synced [OF c _ clk]] CreateClip_accounts [OF c] CreateClip_evolves [OF c]
      receipts_kept_same [OF CreateClip_accounts(3) [OF c]] order_trans [OF clk(2) monoD [OF clk(1)]]
    by simp
next
  fix t st scope c op kind v h y st' and clk :: clock
  assume s: "since st0 t st" and clk: "mono clk" "t \<le> clk 0"
    and m: "MutateClip clk scope c op kind v h st = (y, st')"
  from s have "synced t st" "sync_inv (st_Pool st)" by (simp_all add: since_def synced_def)
  then show "since st0 (clk readings) st'"
    using since_next [OF s MutateClip_synced [OF m _ clk]] MutateClip_accounts [OF m] MutateClip_evolves [OF m]
      order_trans [OF clk(2) monoD [OF clk(1)]]
    by (simp add: receipts_kept_def)
qed

end
