(* ===== verification/Guarantees.thy ===== *)
theory Guarantees
  imports System
begin

text \<open>
  What holds over any run of the server: each theorem relates an earlier state to every state
  that may follow it, whatever operations of whatever clients and jobs come in between.
\<close>

section \<open>Runs\<close>

lemma synced_start: "synced t st \<Longrightarrow> since st t st"
  by (simp add: since_def receipts_kept_def)

lemma run_since: "reaches t0 st0 t st \<Longrightarrow> synced t0 st0 \<Longrightarrow> since st0 t st"
  by (erule srv.run) (rule synced_start)

lemma run_synced: "reaches t0 st0 t st \<Longrightarrow> synced t0 st0 \<Longrightarrow> synced t st"
  using run_since by (simp add: since_def)

lemma run_inv: "reaches t0 st0 t st \<Longrightarrow> synced t0 st0 \<Longrightarrow> sync_inv (st_Pool st)"
  using run_synced by (simp add: synced_def)

lemma run_evolves: "reaches t0 st0 t st \<Longrightarrow> synced t0 st0 \<Longrightarrow> evolves u (st_Pool st0) (st_Pool st)"
  using run_since by (simp add: since_def)

lemma run_accounts: "reaches t0 st0 t st \<Longrightarrow> synced t0 st0 \<Longrightarrow> account_kept (st_Pool st0) (st_Pool st)"
  using run_since by (simp add: since_def)

lemma initial_synced: "initial st \<Longrightarrow> synced t st"
  by (auto simp: initial_def synced_def sync_inv_def no_log_def events_timed_def empty_db_def)

text \<open>The sample states as a run.\<close>

lemma sample_synced: "synced 0 store0"
  by (simp add: synced_def sync_inv_db0 events_timed_def)

lemma sample_uuids [simp]: "UUID clip1" "UUID clip2" "UUID device1" "UUID vault1" "UUID op1"
  by code_simp+

lemma sample_run1: "reaches 0 store0 10 store1"
  by (rule reaches.step [OF reaches.start sys_step.create [OF create1, simplified]])
    (simp_all add: envelope_def mono_def)

lemma sample_run2: "reaches 10 store1 20 store2"
  by (rule reaches.step [OF reaches.start sys_step.mutate [OF trash1, simplified]]) (simp_all add: mono_def)

lemma sample_run: "reaches 0 store0 20 store2"
  by (rule reaches_trans [OF sample_run2 sample_run1])

text \<open>
  C4: In every state the server can reach from the migrated database the synchronisation tables
  are consistent: per user the counters equal the number and the total size of the clips, the
  log holds exactly the consecutive sequence numbers between the retention bound and the high
  watermark, every clip's last change is its last event, identifiers and clips agree, and the
  events are in order of time.  The account tables are consistent, too: user names and token
  hashes are unique, and sessions, devices, vaults and logs have their owners.
\<close>

theorem reachable_consistent:
  assumes "reachable t st"
  shows "sync_inv (st_Pool st) \<and> events_timed t (st_Pool st) \<and> accounts_ok (st_Pool st)"
proof -
  from assms obtain t0 st0 where st0: "initial st0" "reaches t0 st0 t st" by (auto simp: reachable_def)
  from st0(1) have "accounts_ok (st_Pool st0)"
    by (auto simp: initial_def accounts_ok_def users_ok_def sessions_ok_def owners_ok_def empty_db_def has_row_def)
  with run_since [OF st0(2) initial_synced [OF st0(1)]] show ?thesis by (simp add: since_def synced_def)
qed

theorem reachable_consistent_witness:
  "\<exists>st :: Store. sync_inv (st_Pool st) \<and> has_row (registration_invites (st_Pool st)) (snd (RandomToken nonce1))"
proof -
  let ?st = "store0\<lparr>st_Pool := empty_db\<lparr>server_state := Some \<lparr>server_id = epoch1, sync_epoch = epoch1\<rparr>\<rparr>\<rparr>"
  let ?st' = "snd (CreateInvite nonce1 5 7 ?st)"
  have len: "length (snd (RandomToken nonce1)) = 32" by (simp add: RandomToken_def Let_def)
  have "initial ?st" unfolding initial_def by (intro exI) simp
  moreover have "account_step (\<lambda>_. 9) ?st ?st'" by (rule invite) (rule surjective_pairing)
  then have "sys_step 0 ?st 9 ?st'"
    using sys_step.account [of "\<lambda>_. 9" ?st ?st' 0] by (simp add: mono_def)
  then have "reaches 0 ?st 9 ?st'" by (blast intro: reaches.intros)
  ultimately have "reachable 9 ?st'" unfolding reachable_def by blast
  from reachable_consistent [OF this] have "sync_inv (st_Pool ?st')" by blast
  moreover have "has_row (registration_invites (st_Pool ?st')) (snd (RandomToken nonce1))"
    using len by (auto simp: CreateInvite_def insert_invite_def empty_db_def has_row_def run_tx_def split: prod.split)
  ultimately show ?thesis by blast
qed

section \<open>Creation is idempotent\<close>

lemma create_registered:
  assumes "CreateClip clk scope env nonce ct h st = (Inr res, st')"
  shows "\<exists>i. fmlookup (clip_ids (st_Pool st')) (sc_UserID scope, env_ID env) = Some i \<and> ci_request_hash i = h
    \<and> cr_Receipt res = \<lparr>mr_ID = env_ID env, mr_Status = ''active'', mr_Version = 1,
        mr_Seq = FormatSeq (ci_created_seq i), mr_CreatedAt = Some (ci_created_at i),
        mr_DeletedAt = None, mr_ExpiresAt = None\<rparr>"
  using assms
proof (cases rule: CreateClip_cases)
  case (replay r)
  then show ?thesis by (auto simp: create_tx_def Let_def res split: if_splits option.splits)
next
  case (fresh r db)
  from create_tx_step [OF fresh(3,2)] obtain i row e where
    st: "log_step (sc_UserID scope) (env_ID env) (Some row) i e (st_Pool st) db" "ci_request_hash i = h"
    and rc: "cr_Receipt r = \<lparr>mr_ID = env_ID env, mr_Status = ''active'', mr_Version = 1,
        mr_Seq = FormatSeq (c_created_seq row), mr_CreatedAt = Some (c_created_at row),
        mr_DeletedAt = None, mr_ExpiresAt = None\<rparr>" by blast
  from st(1) have "ci_created_seq i = c_created_seq row" "ci_created_at i = c_created_at row"
    by (auto simp: log_step_def)
  with st rc fresh log_step_rows(2) [OF st(1)] show ?thesis by simp
qed simp

lemma create_tx_registered:
  assumes "fmlookup (clip_ids db) (sc_UserID scope, env_ID env) = Some i"
  shows "create_tx cfg clk scope env nonce ct h db =
      Inr (\<lparr>cr_Receipt = \<lparr>mr_ID = env_ID env, mr_Status = ''active'', mr_Version = 1,
          mr_Seq = FormatSeq (ci_created_seq i), mr_CreatedAt = Some (ci_created_at i),
          mr_DeletedAt = None, mr_ExpiresAt = None\<rparr>, cr_Created = False\<rparr>, db)
      \<and> ci_request_hash i = h
    \<or> create_tx cfg clk scope env nonce ct h db = Inl (App (New 409 IdempotencyConflict)) \<and> ci_request_hash i \<noteq> h
    \<or> create_tx cfg clk scope env nonce ct h db \<in> {Inl (App (New 400 InvalidRequest)), Inl (App (New 403 DeviceRevoked))}"
  using assms unfolding create_tx_def Let_def by (simp split: option.split)

text \<open>
  C8: Creating a clip is idempotent for ever: once a creation has succeeded, every later one of
  the same user for the same identifier, whatever happened in between (the clip may have been
  changed, purged, its events dropped), leaves the store as it is; it returns the receipt of
  the first creation if the request has the same hash, and otherwise the 409; the only other
  answers are the 400 and 403 of the checks on vault and device.
\<close>

theorem create_once:
  assumes syn: "synced t0 st0" and clk: "mono clk" "t0 \<le> clk 0"
    and first: "CreateClip clk scope env nonce ct h st0 = (Inr res, st1)"
    and run: "reaches (clk readings) st1 t st"
    and again: "CreateClip clk' scope' env' nonce' ct' h' st = (x, st')"
    and same: "sc_UserID scope' = sc_UserID scope" "env_ID env' = env_ID env"
  shows "st' = st
    \<and> (x = Inr \<lparr>cr_Receipt = cr_Receipt res, cr_Created = False\<rparr> \<and> h' = h
       \<or> x = Inl (App (New 409 IdempotencyConflict)) \<and> h' \<noteq> h
       \<or> x = Inl (App (New 400 InvalidRequest)) \<or> x = Inl (App (New 403 DeviceRevoked)))"
proof -
  let ?k = "(sc_UserID scope, env_ID env)"
  from create_registered [OF first] obtain i where i: "fmlookup (clip_ids (st_Pool st1)) ?k = Some i"
    "ci_request_hash i = h"
    "cr_Receipt res = \<lparr>mr_ID = env_ID env, mr_Status = ''active'', mr_Version = 1,
        mr_Seq = FormatSeq (ci_created_seq i), mr_CreatedAt = Some (ci_created_at i),
        mr_DeletedAt = None, mr_ExpiresAt = None\<rparr>" by blast
  have "evolves (sc_UserID scope) (st_Pool st1) (st_Pool st)"
    by (rule run_evolves [OF run CreateClip_synced [OF first syn clk]])
  with i(1) obtain i' where i': "fmlookup (clip_ids (st_Pool st)) ?k = Some i'" "same_identity i i'"
    unfolding evolves_def ids_kept_def by blast
  then have eq: "ci_request_hash i' = h" "ci_created_seq i' = ci_created_seq i"
    "ci_created_at i' = ci_created_at i" using i(2) by (simp_all add: same_identity_def)
  from i'(1) have "fmlookup (clip_ids (st_Pool st)) (sc_UserID scope', env_ID env') = Some i'"
    by (simp add: same)
  from create_tx_registered [OF this, of "st_Cfg st" clk' nonce' ct' h'] again show ?thesis
    by (auto simp: CreateClip_def eq i(3) same split: if_splits)
qed

theorem create_once_witness:
  "CreateClip (\<lambda>_. 40) scope1 (envelope clip1) nonce1 cipher1 hash1 store2
     = (Inr \<lparr>cr_Receipt = receipt1, cr_Created = False\<rparr>, store2)"
proof -
  obtain x st' where again: "CreateClip (\<lambda>_. 40) scope1 (envelope clip1) nonce1 cipher1 hash1 store2 = (x, st')"
    by fastforce
  have run: "reaches ((\<lambda>_. 10) readings) store1 20 store2" by (rule sample_run2)
  have "st' = store2" "x \<noteq> Inl e" if "e \<in> {App (New 409 IdempotencyConflict), App (New 400 InvalidRequest),
      App (New 403 DeviceRevoked)}" for e
    using create_once [OF sample_synced _ _ create1 run again] again that
    by (auto simp: mono_def CreateClip_def create_tx_def sample_defs clip_id1_def hash1_def)
  with create_once [OF sample_synced _ _ create1 run again] again show ?thesis
    by (auto simp: mono_def)
qed

section \<open>Mutations: at most once, and never over a change that was not seen\<close>

lemma MutateClip_receipt:
  assumes "MutateClip clk scope c op kind v h st = (Inr rc, st')"
    and "live_receipt (clk 0) (sc_UserID scope) op (st_Pool st) = None"
  shows "fmlookup (operation_receipts (st_Pool st')) (sc_UserID scope, op)
      = Some \<lparr>r_request_hash = h, r_response_status = 200, r_response_body = rc,
              r_expires_at = clk 5 + days 30\<rparr>"
    and "sync_inv (st_Pool st) \<Longrightarrow> \<exists>s'. fmlookup (user_sync_state (st_Pool st')) (sc_UserID scope) = Some s'
      \<and> (\<exists>q. tip (st_Pool st') (sc_UserID scope) c = Some (v + 1, q))"
proof -
  have "fmlookup (operation_receipts (st_Pool st')) (sc_UserID scope, op)
      = Some \<lparr>r_request_hash = h, r_response_status = 200, r_response_body = rc, r_expires_at = clk 5 + days 30\<rparr>
    \<and> (sync_inv (st_Pool st) \<longrightarrow> (\<exists>s'. fmlookup (user_sync_state (st_Pool st')) (sc_UserID scope) = Some s'
      \<and> (\<exists>q. tip (st_Pool st') (sc_UserID scope) c = Some (v + 1, q))))"
    using assms(1)
  proof (cases rule: MutateClip_cases)
    case (replay receipt)
    from replay(3) show ?thesis by (cases rule: mutate_tx_cases) (use assms(2) in auto)
  next
    case (fresh receipt db)
    from fresh(2) show ?thesis
    proof (cases rule: mutate_tx_cases)
      case (fresh db1 r)
      have "\<exists>s' q. fmlookup (user_sync_state db1) (sc_UserID scope) = Some s'
          \<and> tip db1 (sc_UserID scope) c = Some (v + 1, q)" if inv: "sync_inv (st_Pool st)"
        using applyMutation_step [OF inv fresh(3)] log_step_tip by (fastforce simp: mutated_def Let_def)
      moreover have "tip db (sc_UserID scope) c = tip db1 (sc_UserID scope) c"
        using tip_cong [of db1 db] fresh(6) by simp
      ultimately show ?thesis
        using \<open>st' = _\<close> \<open>Inr rc = Inr receipt\<close> fresh(4,6) by (simp add: add_receipt_def)
    qed simp
  qed simp
  then show "fmlookup (operation_receipts (st_Pool st')) (sc_UserID scope, op)
      = Some \<lparr>r_request_hash = h, r_response_status = 200, r_response_body = rc, r_expires_at = clk 5 + days 30\<rparr>"
    and "sync_inv (st_Pool st) \<Longrightarrow> \<exists>s'. fmlookup (user_sync_state (st_Pool st')) (sc_UserID scope) = Some s'
      \<and> (\<exists>q. tip (st_Pool st') (sc_UserID scope) c = Some (v + 1, q))" by blast+
qed

text \<open>
  C7: A mutation takes effect at most once: for thirty days every further request of the user
  with the same Idempotency-Key, whatever happened in between, leaves the store as it is and
  returns the first receipt, or the 409 if the request is a different one.
\<close>

theorem mutate_once:
  assumes syn: "synced t0 st0" and clk: "mono clk" "t0 \<le> clk 0"
    and first: "MutateClip clk scope c op kind v h st0 = (Inr rc, st1)"
    and new: "live_receipt (clk 0) (sc_UserID scope) op (st_Pool st0) = None"
    and run: "reaches (clk readings) st1 t st"
    and soon: "t \<le> clk' 0" "clk' 0 < clk 5 + days 30" and same: "sc_UserID scope' = sc_UserID scope"
  shows "MutateClip clk' scope' c' op kind' v' h' st
    = (if h' = h then Inr rc else Inl (App (New 409 IdempotencyConflict)), st)"
proof -
  let ?r = "\<lparr>r_request_hash = h, r_response_status = 200, r_response_body = rc, r_expires_at = clk 5 + days 30\<rparr>"
  have "receipts_kept t (st_Pool st1) (st_Pool st)"
    using run_since [OF run MutateClip_synced [OF first syn clk]] by (simp add: since_def)
  with MutateClip_receipt(1) [OF first new] soon
  have "fmlookup (operation_receipts (st_Pool st)) (sc_UserID scope, op) = Some ?r"
    unfolding receipts_kept_def by fastforce
  with soon(2) have "live_receipt (clk' 0) (sc_UserID scope') op (st_Pool st) = Some ?r"
    by (simp add: live_receipt_def same)
  then show ?thesis by (simp add: MutateClip_def mutate_tx_def run_tx_def)
qed

theorem mutate_once_witness:
  "MutateClip (\<lambda>_. 50) scope1 clip1 op1 ''purge'' 7 hash1 store2 = (Inr receipt2, store2)"
  using mutate_once [OF run_synced [OF sample_run1 sample_synced] _ _ trash1 _ reaches.start,
      of "\<lambda>_. 50" scope1 clip1 "''purge''" 7 hash1]
  by (simp add: mono_def live_receipt_def db1_def log_write_def days_def hours_def seconds_def)

text \<open>
  C6: No change is overwritten unseen: after a mutation that expected version v has succeeded,
  no other mutation of the clip that expects version v ever succeeds, whatever happened in
  between; it is refused with 412 and the current version, or with 410 once the clip is purged.
\<close>

theorem mutation_exclusive:
  assumes syn: "synced t0 st0" and clk: "mono clk" "t0 \<le> clk 0"
    and first: "MutateClip clk scope c op kind v h st0 = (Inr rc, st1)"
    and new: "live_receipt (clk 0) (sc_UserID scope) op (st_Pool st0) = None"
    and run: "reaches (clk readings) st1 t st"
    and other: "live_receipt (clk' 0) (sc_UserID scope) op' (st_Pool st) = None"
    and same: "sc_UserID scope' = sc_UserID scope"
  shows "\<exists>ds. MutateClip clk' scope' c op' kind' v h' st = (Inl (App (WithDetails 412 VersionConflict ds)), st)
    \<or> MutateClip clk' scope' c op' kind' v h' st = (Inl (App (WithDetails 410 ClipPurged ds)), st)"
proof -
  let ?u = "sc_UserID scope" and ?db = "st_Pool st"
  from syn have inv0: "sync_inv (st_Pool st0)" by (simp add: synced_def)
  note syn1 = MutateClip_synced [OF first syn clk]
  from MutateClip_receipt(2) [OF first new inv0] obtain s1 q1 where
    s1: "fmlookup (user_sync_state (st_Pool st1)) ?u = Some s1" "tip (st_Pool st1) ?u c = Some (v + 1, q1)" by blast
  from run_evolves [OF run syn1] s1(1) obtain s where s: "fmlookup (user_sync_state ?db) ?u = Some s"
    "tips_evolve ?u s1 s (st_Pool st1) ?db" by (rule evolvesD)
  from s(2) have "tip ?db ?u c = tip (st_Pool st1) ?u c
      \<or> (\<exists>v' q. tip ?db ?u c = Some (v', q) \<and> tip_version (st_Pool st1) ?u c < v')"
    unfolding tips_evolve_def by blast
  with s1(2) obtain v1 q where t: "tip ?db ?u c = Some (v1, q)" "v < v1"
    by (auto simp: tip_version_def)
  have "\<exists>ds. applyMutation (shift 1 clk') scope' c kind' v ?db = Inl (App (WithDetails 412 VersionConflict ds))
    \<or> applyMutation (shift 1 clk') scope' c kind' v ?db = Inl (App (WithDetails 410 ClipPurged ds))"
  proof (cases "fmlookup (clips ?db) (?u, c)")
    case (Some r)
    with t have "c_version r \<noteq> v" by (auto simp: tip_def)
    with Some show ?thesis by (auto simp: applyMutation_def scanClip_def same conflict_def)
  next
    case None
    with t(1) obtain i where i: "fmlookup (clip_ids ?db) (?u, c) = Some i" "ci_final_version i = Some v1"
      "ci_final_seq i = Some q" by (auto simp: tip_def split: option.splits)
    have "check_clip_id i"
      using sync_invD [OF run_inv [OF run syn1] s(1)] i(1) by (auto simp: user_inv_def registry_ok_def)
    with i(2) have "ci_purged_at i \<noteq> None" by (auto simp: check_clip_id_def)
    with None i show ?thesis by (auto simp: applyMutation_def scanClip_def same Let_def)
  qed
  with other show ?thesis
    by (auto simp: MutateClip_def mutate_tx_def run_tx_def same Let_def)
qed

theorem mutation_exclusive_witness:
  "\<exists>ds. MutateClip (\<lambda>_. 50) scope1 clip1 clip2 ''trash'' 1 hash1 store2
       = (Inl (App (WithDetails 412 VersionConflict ds)), store2)
     \<or> MutateClip (\<lambda>_. 50) scope1 clip1 clip2 ''trash'' 1 hash1 store2
       = (Inl (App (WithDetails 410 ClipPurged ds)), store2)"
proof -
  have "live_receipt 50 user1 clip2 db2 = None"
    by (simp add: live_receipt_def db2_def add_receipt_def log_write_def db1_def op1_def clip2_def)
  moreover have "live_receipt 20 user1 op1 db1 = None"
    by (simp add: live_receipt_def db1_def log_write_def)
  ultimately show ?thesis
    using mutation_exclusive [OF run_synced [OF sample_run1 sample_synced] _ _ trash1 _ reaches.start,
      of "\<lambda>_. 50" clip2 scope1 "''trash''" hash1] by (simp add: mono_def)
qed

section \<open>Purged clips\<close>

text \<open>The registration of a purged identifier holds its last version and sequence number.\<close>

lemma purged_row:
  assumes inv: "sync_inv db" and purged: "life_of db u c = Purged"
  obtains i p v q where "fmlookup (clip_ids db) (u, c) = Some i" "fmlookup (clips db) (u, c) = None"
    and "ci_purged_at i = Some p" "ci_final_version i = Some v" "ci_final_seq i = Some q"
proof -
  from purged obtain i where i: "fmlookup (clip_ids db) (u, c) = Some i" "fmlookup (clips db) (u, c) = None"
    by (auto simp: life_of_def has_row_def split: option.splits if_splits)
  obtain s where s: "fmlookup (user_sync_state db) u = Some s"
    using inv i(1) by (force simp: sync_inv_def no_log_def split: option.splits)
  from sync_invD [OF inv s] have reg: "registry_ok db u" by (simp add: user_inv_def)
  then have "check_clip_id i" using i(1) unfolding registry_ok_def by blast
  moreover have "ci_purged_at i \<noteq> None"
  proof
    assume "ci_purged_at i = None"
    with reg i(1) have "has_row (clips db) (u, c)" unfolding registry_ok_def by blast
    with i(2) show False by (simp add: has_row_def)
  qed
  ultimately show thesis using i that by (auto simp: check_clip_id_def)
qed

text \<open>
  C13: Purged means purged: once a clip has been purged, in every later state reading it answers
  410 with its final version and sequence number, and no creation under its identifier and no
  mutation of it changes anything.
\<close>

theorem purged_forever:
  assumes syn: "synced t0 st0" and run: "reaches t0 st0 t st"
    and purged: "life_of (st_Pool st0) (sc_UserID scope) c = Purged"
  shows "(\<exists>v q. tip (st_Pool st0) (sc_UserID scope) c = Some (v, q)
      \<and> GetClip clk scope c st = Inl (App (WithDetails 410 ClipPurged
          [(''id'', DStr c), (''status'', DStr ''purged''), (''version'', DInt v), (''seq'', DStr (FormatSeq q))])))
    \<and> snd (CreateClip clk scope (env\<lparr>env_ID := c\<rparr>) nonce ct h st) = st
    \<and> snd (MutateClip clk scope c op kind n h' st) = st"
proof -
  let ?u = "sc_UserID scope" and ?db = "st_Pool st"
  from syn have inv0: "sync_inv (st_Pool st0)" by (simp add: synced_def)
  from purged_row [OF inv0 purged] obtain i0 p v q where
    i0: "fmlookup (clip_ids (st_Pool st0)) (?u, c) = Some i0" "fmlookup (clips (st_Pool st0)) (?u, c) = None"
    and f: "ci_purged_at i0 = Some p" "ci_final_version i0 = Some v" "ci_final_seq i0 = Some q" .
  have ev: "evolves ?u (st_Pool st0) ?db" by (rule run_evolves [OF run syn])
  then have i: "fmlookup (clip_ids ?db) (?u, c) = Some i0"
    using i0(1) f(1) unfolding evolves_def ids_kept_def by fastforce
  from ev purged have "life_of ?db ?u c = Purged" unfolding evolves_def content_kept_def by blast
  then have none: "fmlookup (clips ?db) (?u, c) = None"
    by (auto simp: life_of_def split: option.splits if_splits)
  have "tip (st_Pool st0) ?u c = Some (v, q)" using i0 f by (simp add: tip_def)
  moreover have "GetClip clk scope c st = Inl (App (WithDetails 410 ClipPurged
      [(''id'', DStr c), (''status'', DStr ''purged''), (''version'', DInt v), (''seq'', DStr (FormatSeq q))]))"
    by (simp add: GetClip_def scanClip_def none i f)
  moreover have "snd (CreateClip clk scope (env\<lparr>env_ID := c\<rparr>) nonce ct h st) = st"
    using create_tx_registered [of "st_Pool st" scope "env\<lparr>env_ID := c\<rparr>" i0 "st_Cfg st" clk nonce ct h] i
    by (auto simp: CreateClip_def run_tx_def)
  moreover have "snd (MutateClip clk scope c op kind n h' st) = st"
    by (simp add: MutateClip_def mutate_tx_def run_tx_def applyMutation_def scanClip_def none i f Let_def
        split: option.split)
  ultimately show ?thesis by blast
qed

text \<open>The sample clip purged from the trash.\<close>

definition store3 :: Store where
  "store3 = snd (MutateClip (\<lambda>_. 30) scope1 clip1 clip2 ''purge'' 2 hash1 store2)"

lemma sample_run3: "reaches 20 store2 30 store3"
  unfolding store3_def
  by (rule reaches.step [OF reaches.start sys_step.mutate [OF surjective_pairing, of "\<lambda>_. 30" 20, simplified]])
    (simp add: mono_def)

lemma purged_store3: "life_of (st_Pool store3) user1 clip1 = Purged"
  by (simp add: store3_def MutateClip_def mutate_tx_def live_receipt_def applyMutation_def scanClip_def
      purgeLocked_def clip_of_row_def run_tx_def Let_def statement_defs check_defs sample_defs delete_clip_def
      hash1_def nonce1_def cipher1_def notify_def store2_def db2_def db1_def clip_row1_def clip_id1_def
      log_write_def trashed1_def add_receipt_def life_of_def op1_def clip2_def receipt_row2_def)

theorem purged_forever_witness:
  "snd (CreateClip (\<lambda>_. 40) scope1 ((envelope clip2)\<lparr>env_ID := clip1\<rparr>) nonce1 cipher1 hash1 store3) = store3"
  using purged_forever [OF run_synced [OF sample_run3 run_synced [OF sample_run sample_synced]] reaches.start,
      of scope1 clip1 "\<lambda>_. 40" "envelope clip2" nonce1 cipher1 hash1] purged_store3
  by simp

section \<open>No update is lost\<close>

text \<open>
  C5: No update is lost: let a client have read the change feed up to the high watermark of an
  earlier state.  Whatever happened since, if the feed still serves that cursor, polling it
  from there reports every clip whose version or state is no longer the same, with the version
  the clip now has and the kind of event that made its present state.
\<close>

theorem no_lost_update:
  assumes syn: "synced t0 st0" and run: "reaches t0 st0 t st"
    and s: "fmlookup (user_sync_state (st_Pool st0)) (sc_UserID scope) = Some s"
    and s': "fmlookup (user_sync_state (st_Pool st)) (sc_UserID scope) = Some s'"
    and changed: "tip (st_Pool st) (sc_UserID scope) c \<noteq> tip (st_Pool st0) (sc_UserID scope) c
      \<or> life_of (st_Pool st) (sc_UserID scope) c \<noteq> life_of (st_Pool st0) (sc_UserID scope) c"
    and served: "Changes clk scope epoch (next_seq s) limit st = Inr page"
    and fuel: "nat (next_seq s' - next_seq s) < fuel"
  shows "\<exists>changes ch. poll clk scope epoch limit st fuel (next_seq s) = Some changes \<and> ch \<in> set changes
    \<and> ch_ClipID ch = c \<and> ch_Version ch = tip_version (st_Pool st) (sc_UserID scope) c
    \<and> ch_Kind ch = tip_kind (st_Pool st) (sc_UserID scope) c"
  by (rule feed_covers [OF run_evolves [OF run syn] run_inv [OF run syn] s changed served s' fuel])

theorem no_lost_update_witness:
  "\<exists>changes ch. poll (\<lambda>_. 30) scope1 epoch1 1 store2 2 1 = Some changes \<and> ch \<in> set changes
     \<and> ch_ClipID ch = clip1 \<and> ch_Version ch = 2 \<and> ch_Kind ch = ''clip.trashed''"
proof -
  let ?s = "\<lparr>next_seq = 1, min_available_seq = 1, ciphertext_bytes = 20, item_count = 1\<rparr>"
  have p: "\<exists>page. Changes (\<lambda>_. 30) scope1 epoch1 (next_seq ?s) 1 store2 = Inr page"
    using Changes_store2 [of 1] by simp
  have t: "tip db2 user1 clip1 = Some (2, 2)" "tip db1 user1 clip1 = Some (1, 1)"
    "tip_kind db2 user1 clip1 = ''clip.trashed''"
    by (simp_all add: tip_def tip_kind_def trashed1_def clip_row1_def)
  from p no_lost_update [OF run_synced [OF sample_run1 sample_synced] sample_run2,
      of scope1 ?s _ clip1 "\<lambda>_. 30" epoch1 1 _ 2] show ?thesis
    by (auto simp: t tip_version_def)
qed

end
