(* ===== verification/Access.thy ===== *)
theory Access
  imports Guarantees
begin

text \<open>
  Authentication and revocation: whom an access token authenticates, what refreshing exchanges,
  and that a revoked session or device and a forgotten password are out for good, in every later
  state of the server.
\<close>

section \<open>A sample session\<close>

definition session1 :: uuid where "session1 = ''11111111-1111-4111-8111-111111111111''"
definition token1 :: string where "token1 = Encode (replicate 32 1)"
definition token2 :: string where "token2 = Encode (replicate 32 2)"

definition session_row1 :: session_row where
  "session_row1 =
     \<lparr>s_user_id = user1, s_device_id = device1, s_family_id = epoch1, s_access_hash = HashToken token1,
      s_refresh_hash = HashToken token2, s_expires_at = 1000, s_refresh_expires_at = 2000,
      s_revoked_at = None\<rparr>"

definition store_in :: Store where
  "store_in = store0\<lparr>st_Pool := db0\<lparr>sessions := fmupd session1 session_row1 fmempty\<rparr>\<rparr>"

lemma Token_Encode: "length b = 32 \<Longrightarrow> Token (Encode b)"
  using Decode_sized_iff [of "Encode b" 32 b]
  by (auto simp: Token_def sized_def TokenBytes_def Encode_def length_b64_encode)

lemma sample_tokens [simp]: "Token token1" "Token token2"
  by (simp_all add: token1_def token2_def Token_Encode)

lemma lookup_store_in [simp]:
  "fmlookup (sessions (st_Pool store_in)) i = (if i = session1 then Some session_row1 else None)"
  "users (st_Pool store_in) = users db0" "devices (st_Pool store_in) = devices db0"
  "vaults (st_Pool store_in) = vaults db0" "user_sync_state (st_Pool store_in) = user_sync_state db0"
  "used_refresh_tokens (st_Pool store_in) = used_refresh_tokens db0"
  by (simp_all add: store_in_def)

lemma HashToken_length [simp]: "length (HashToken t) = 32"
  by (simp add: HashToken_def)

lemma usernameRE_alice [simp]: "usernameRE ''alice''"
  by code_simp

lemma accounts_ok_store_in: "accounts_ok (st_Pool store_in)"
  by (auto simp: accounts_ok_def users_ok_def sessions_ok_def owners_ok_def store_in_def db0_def empty_db_def
      session_row1_def check_session_def check_vault_def check_user_def has_row_def split: if_splits)

lemma store_in_synced: "synced 0 store_in"
  using sample_synced sync_inv_cong [of db0 "st_Pool store_in"]
  by (simp add: synced_def store_in_def same_log_def events_timed_def)

section \<open>Finding a session\<close>

lemma session_join_iff:
  assumes ok: "accounts_ok db" and uniq: "\<And>s s'. P s \<Longrightarrow> P s' \<Longrightarrow> session_clash s s'"
  shows "session_join P db = Some (i, s, d, u) \<longleftrightarrow> fmlookup (sessions db) i = Some s \<and> P s
    \<and> fmlookup (devices db) (s_user_id s, s_device_id s) = Some d \<and> fmlookup (users db) (s_user_id s) = Some u"
    (is "?L \<longleftrightarrow> ?R")
proof
  assume ?L
  then show ?R by (rule session_join_Some)
next
  assume r: ?R
  have "find_row (\<lambda>_. P) (sessions db) = Some (i, s)"
  proof (rule find_row_unique)
    show "fmlookup (sessions db) i = Some s" "P s" using r by blast+
    fix j s' assume "fmlookup (sessions db) j = Some s'" "P s'"
    with r uniq ok show "j = i" unfolding accounts_ok_def sessions_ok_def by blast
  qed
  with r show ?L by (simp add: session_join_def)
qed

lemma LookupAccess_char:
  assumes ok: "accounts_ok (st_Pool st)"
  shows "(fst (LookupAccess clk now token st) = Inr scope \<longleftrightarrow>
      Token token \<and>
      (\<exists>s d u. fmlookup (sessions (st_Pool st)) (sc_SessionID scope) = Some s \<and> s_access_hash s = HashToken token
         \<and> s_revoked_at s = None \<and> now < s_expires_at s
         \<and> sc_UserID scope = s_user_id s \<and> sc_DeviceID scope = s_device_id s \<and> sc_FamilyID scope = s_family_id s
         \<and> fmlookup (devices (st_Pool st)) (s_user_id s, s_device_id s) = Some d \<and> d_revoked_at d = None
         \<and> fmlookup (users (st_Pool st)) (s_user_id s) = Some u \<and> u_status u = ''active''))
    \<and> quiet (st_Pool st) (st_Pool (snd (LookupAccess clk now token st)))"
proof
  let ?P = "\<lambda>s. s_access_hash s = HashToken token"
  have iff: "session_join ?P (st_Pool st) = Some (i, s, d, u) \<longleftrightarrow> fmlookup (sessions (st_Pool st)) i = Some s \<and> ?P s
      \<and> fmlookup (devices (st_Pool st)) (s_user_id s, s_device_id s) = Some d
      \<and> fmlookup (users (st_Pool st)) (s_user_id s) = Some u" for i s d u
    by (rule session_join_iff [OF ok]) (simp add: session_clash_def)
  have "fst (LookupAccess clk now token st) = Inr scope \<longleftrightarrow> Token token
      \<and> (\<exists>i s d u. session_join ?P (st_Pool st) = Some (i, s, d, u) \<and> u_status u = ''active''
           \<and> d_revoked_at d = None \<and> s_revoked_at s = None \<and> now < s_expires_at s
           \<and> scope = \<lparr>sc_UserID = s_user_id s, sc_DeviceID = s_device_id s, sc_SessionID = i,
                       sc_FamilyID = s_family_id s\<rparr>)"
    by (auto simp: LookupAccess_def split: option.splits prod.splits)
  then show "fst (LookupAccess clk now token st) = Inr scope \<longleftrightarrow>
      Token token \<and>
      (\<exists>s d u. fmlookup (sessions (st_Pool st)) (sc_SessionID scope) = Some s \<and> s_access_hash s = HashToken token
         \<and> s_revoked_at s = None \<and> now < s_expires_at s
         \<and> sc_UserID scope = s_user_id s \<and> sc_DeviceID scope = s_device_id s \<and> sc_FamilyID scope = s_family_id s
         \<and> fmlookup (devices (st_Pool st)) (s_user_id s, s_device_id s) = Some d \<and> d_revoked_at d = None
         \<and> fmlookup (users (st_Pool st)) (s_user_id s) = Some u \<and> u_status u = ''active'')"
    unfolding iff by (cases scope) auto
  show "quiet (st_Pool st) (st_Pool (snd (LookupAccess clk now token st)))"
    by (rule LookupAccess_quiet) (rule surjective_pairing)
qed

lemma LookupAccess_effect:
  "snd (LookupAccess clk now token st) =
     (case fst (LookupAccess clk now token st) of
        Inl _ \<Rightarrow> st
      | Inr sc \<Rightarrow> st\<lparr>st_Pool := touch_device (clk 0) (sc_UserID sc) (sc_DeviceID sc) (st_Pool st)\<rparr>)"
  by (auto simp: LookupAccess_def split: option.split prod.split)

text \<open>
  C11: An access token authenticates exactly the session it was issued for: LookupAccess returns
  a scope if and only if the token is well formed and some session has its hash, is neither
  revoked nor expired, belongs to an active account and to a device that is not revoked; the
  scope is that session's.  A refused token changes nothing, and one that authenticates nothing
  but the time of last use of the session's device (\<open>touch_device\<close>).
\<close>

theorem LookupAccess_iff:
  assumes ok: "accounts_ok (st_Pool st)"
  shows "(fst (LookupAccess clk now token st) = Inr scope \<longleftrightarrow>
      Token token \<and>
      (\<exists>s d u. fmlookup (sessions (st_Pool st)) (sc_SessionID scope) = Some s \<and> s_access_hash s = HashToken token
         \<and> s_revoked_at s = None \<and> now < s_expires_at s
         \<and> sc_UserID scope = s_user_id s \<and> sc_DeviceID scope = s_device_id s \<and> sc_FamilyID scope = s_family_id s
         \<and> fmlookup (devices (st_Pool st)) (s_user_id s, s_device_id s) = Some d \<and> d_revoked_at d = None
         \<and> fmlookup (users (st_Pool st)) (s_user_id s) = Some u \<and> u_status u = ''active''))
    \<and> quiet (st_Pool st) (st_Pool (snd (LookupAccess clk now token st)))
    \<and> snd (LookupAccess clk now token st) =
        (case fst (LookupAccess clk now token st) of
           Inl _ \<Rightarrow> st
         | Inr sc \<Rightarrow> st\<lparr>st_Pool := touch_device (clk 0) (sc_UserID sc) (sc_DeviceID sc) (st_Pool st)\<rparr>)"
  using LookupAccess_char [OF ok] LookupAccess_effect by blast

definition scope_in :: Scope where
  "scope_in = \<lparr>sc_UserID = user1, sc_DeviceID = device1, sc_SessionID = session1, sc_FamilyID = epoch1\<rparr>"

theorem LookupAccess_iff_witness:
  "fst (LookupAccess (\<lambda>_. 50) 60 token1 store_in) = Inr scope_in"
  using LookupAccess_iff [OF accounts_ok_store_in, of "\<lambda>_. 50" 60 token1 scope_in]
  by (simp add: scope_in_def session_row1_def)

section \<open>What is revoked stays revoked\<close>

lemma kept_session:
  assumes "account_kept db db'" and "fmlookup (sessions db) i = Some s"
  obtains s' where "fmlookup (sessions db') i = Some s'" "same_session s s'"
  using assms unfolding account_kept_def rows_kept_def by blast

lemma kept_device:
  assumes "account_kept db db'" and "fmlookup (devices db) k = Some d"
  obtains d' where "fmlookup (devices db') k = Some d'" "same_device d d'"
  using assms unfolding account_kept_def rows_kept_def by blast

lemma kept_vault:
  assumes "account_kept db db'" and "fmlookup (vaults db) u = Some v"
  obtains v' where "fmlookup (vaults db') u = Some v'" "same_vault v v'"
  using assms unfolding account_kept_def rows_kept_def by blast

lemma LookupAccess_row:
  assumes "LookupAccess clk now token st = (Inr sc, st')"
  obtains s d where "fmlookup (sessions (st_Pool st)) (sc_SessionID sc) = Some s" "s_revoked_at s = None"
    and "s_access_hash s = HashToken token" "sc_UserID sc = s_user_id s" "sc_DeviceID sc = s_device_id s"
    and "fmlookup (devices (st_Pool st)) (s_user_id s, s_device_id s) = Some d" "d_revoked_at d = None"
  using assms by (auto simp: LookupAccess_def split: if_splits option.splits prod.splits dest!: session_join_Some)

text \<open>The session a successful refresh exchanges the token of.\<close>

lemma Refresh_row:
  assumes "Refresh fr clk now token st = (Inr pair, st')"
    and "session_join (\<lambda>s. s_refresh_hash s = HashToken token) (st_Pool st) = Some (i, s, d, u)"
  shows "fmlookup (sessions (st_Pool st)) i = Some s \<and> s_revoked_at s = None \<and> d_revoked_at d = None
    \<and> fmlookup (devices (st_Pool st)) (s_user_id s, s_device_id s) = Some d"
  using assms(1) session_join_Some [OF assms(2)]
  by (auto simp: Refresh_def refresh_tx_def assms(2) Let_def res split: if_splits option.splits prod.splits)

lemma revoke_sessions_dead:
  assumes "fmlookup (sessions (revoke_sessions t P db)) i = Some s" and "\<And>x s. P i (s\<lparr>s_revoked_at := x\<rparr>) = P i s"
    and "P i s"
  shows "s_revoked_at s \<noteq> None"
proof -
  from assms(1) obtain s0 where "s = (if P i s0 \<and> s_revoked_at s0 = None then s0\<lparr>s_revoked_at := Some t\<rparr> else s0)"
    by (auto simp: revoke_sessions_def lookup_update_where)
  with assms(3) assms(2) [of "Some t" s0] show ?thesis by (cases "P i s0 \<and> s_revoked_at s0 = None") auto
qed

lemma revoke_tx_effect:
  assumes "revoke_tx clk u d db = Inr (x, db')"
  shows "\<exists>r. fmlookup (devices db') (u, d) = Some r \<and> d_revoked_at r \<noteq> None"
    and "fmlookup (sessions db') i = Some s \<Longrightarrow> s_user_id s = u \<Longrightarrow> s_device_id s = d \<Longrightarrow> s_revoked_at s \<noteq> None"
proof -
  let ?db1 = "\<lambda>r. if d_revoked_at r = None
      then db\<lparr>devices := fmupd (u, d) (r\<lparr>d_revoked_at := Some (clk 0)\<rparr>) (devices db)\<rparr> else db"
  from assms obtain r0 where r0: "fmlookup (devices db) (u, d) = Some r0"
    and eq: "db' = revoke_sessions (clk 1) (\<lambda>_ s. s_user_id s = u \<and> s_device_id s = d) (?db1 r0)"
    by (auto simp: revoke_tx_def Let_def split: option.splits)
  have "\<exists>r. fmlookup (devices (?db1 r0)) (u, d) = Some r \<and> d_revoked_at r \<noteq> None" using r0 by simp
  with eq obtain r db1 where r: "fmlookup (devices db1) (u, d) = Some r" "d_revoked_at r \<noteq> None"
    and db': "db' = revoke_sessions (clk 1) (\<lambda>_ s. s_user_id s = u \<and> s_device_id s = d) db1"
    by blast
  then show "\<exists>r. fmlookup (devices db') (u, d) = Some r \<and> d_revoked_at r \<noteq> None"
    by (simp add: revoke_sessions_def)
  show "fmlookup (sessions db') i = Some s \<Longrightarrow> s_user_id s = u \<Longrightarrow> s_device_id s = d \<Longrightarrow> s_revoked_at s \<noteq> None"
    unfolding db' by (erule revoke_sessions_dead) simp_all
qed

definition login_on :: "LoginInput \<Rightarrow> (uuid \<times> uuid, device_row) table \<Rightarrow> AuthResult \<times> DB \<Rightarrow> bool" where
  "login_on li devs = (\<lambda>(ar, db). ar_DeviceID ar = li_DeviceID li
     \<and> (\<forall>d. fmlookup devs (ar_UserID ar, li_DeviceID li) = Some d \<longrightarrow> d_revoked_at d = None))"

lemma login_finish_on:
  "login_finish fr clk li u db = Inr y \<Longrightarrow> devices db = devs \<Longrightarrow> login_on li devs y"
  by (auto simp: login_finish_def login_device_def login_on_def auth_result_def res
      split: option.splits if_splits)

lemma loginLocal_on: "loginLocal_tx w fr clk li db = Inr y \<Longrightarrow> login_on li (devices db) y"
  by (auto simp: loginLocal_tx_def Let_def split: option.splits if_splits intro: login_finish_on)

lemma unique_conflict_Inr [res]: "unique_conflict m = Inr y \<longleftrightarrow> m = Inr y"
  by (cases m) (simp_all add: unique_conflict_def)

lemma loginExternal_on:
  assumes "loginExternal_tx w fr clk li ext db = Inr y"
  shows "login_on li (devices db) y"
proof (cases "find_row (\<lambda>_ r. u_auth_provider r = ''external'' \<and> u_external_subject r = Some (xu_Subject ext))
    (users db)")
  case None
  with assms obtain db1 db2 r where "insert_user (w_lower w) (f_user fr) r db = Inr db1"
    "insert_sync (f_user fr) db1 = Inr db2" "login_finish fr (shift 2 clk) li (f_user fr) db2 = Inr y"
    by (auto simp: loginExternal_tx_def bind_res_Inr_iff unique_conflict_Inr Let_def)
  moreover from this(1,2) have "devices db2 = devices db" by (auto simp: insert_user_Inr insert_sync_Inr)
  ultimately show ?thesis by (blast intro: login_finish_on)
next
  case (Some ur)
  obtain u r where ur: "ur = (u, r)" by (cases ur)
  let ?email = "if xu_Email ext \<noteq> [] then Email (w_tbl w) (xu_Email ext) else None"
  let ?upd = "case ?email of None \<Rightarrow> Inr db
    | Some norm \<Rightarrow> update_user (w_lower w) u (\<lambda>r. r\<lparr>u_email := Some norm\<rparr>) db"
  have "\<exists>db1. ?upd = Inr db1 \<and> login_finish fr (shift 2 clk) li u db1 = Inr y"
    using assms unfolding loginExternal_tx_def Some ur Let_def option.case prod.case
    by (cases ?upd) (auto split: if_splits)
  moreover have "devices db1 = devices db" if "?upd = Inr db1" for db1
    using that by (auto simp: update_user_Inr split: option.splits)
  ultimately show ?thesis by (blast intro: login_finish_on)
qed

lemma Login_on:
  assumes "Login w external fr clk li st = (Inr ar, st')"
  shows "login_on li (devices (st_Pool st)) (ar, st_Pool st')"
  using assms
  by (auto simp: Login_def loginExternal_def res split: if_splits option.splits sum.splits
      dest: loginLocal_on loginExternal_on simp: login_on_def)

text \<open>
  C10: A revoked device is out for good.  After RevokeDevice has returned success the device's
  sessions are revoked and its live connections closed, and in every later state no access
  token authenticates it, no refresh token of it is exchanged, and nobody logs in on it.
\<close>

theorem revoked_device_out:
  assumes syn: "synced t0 st0" and clk: "mono clk" "t0 \<le> clk 0"
    and revoke: "RevokeDevice clk scope d st0 = (Inr (), st1)"
    and run: "reaches (clk readings) st1 t st"
  shows "(\<forall>i s. fmlookup (sessions (st_Pool st1)) i = Some s \<longrightarrow> s_user_id s = sc_UserID scope \<longrightarrow>
        s_device_id s = d \<longrightarrow> s_revoked_at s \<noteq> None)
    \<and> (\<forall>h. st_Hub st1 = Some h \<longrightarrow> (\<forall>c\<in>set (conns_of h (sc_UserID scope)). conn_DeviceID c \<noteq> d))
    \<and> (LookupAccess clk2 now token st = (Inr sc, st2) \<longrightarrow> (sc_UserID sc, sc_DeviceID sc) \<noteq> (sc_UserID scope, d))
    \<and> (Refresh fr clk2 now token st = (Inr pair, st2) \<longrightarrow>
        session_join (\<lambda>s. s_refresh_hash s = HashToken token) (st_Pool st) = Some (i, s, dev, u) \<longrightarrow>
        (s_user_id s, s_device_id s) \<noteq> (sc_UserID scope, d))
    \<and> (Login w external fr clk2 li st = (Inr ar, st2) \<longrightarrow> (ar_UserID ar, ar_DeviceID ar) \<noteq> (sc_UserID scope, d))"
proof -
  let ?u = "sc_UserID scope"
  from revoke obtain st' where tx: "run_tx (revoke_tx clk ?u d) st0 = (Inr (), st')"
    and st1: "st1 = close_device ?u d st'" by (auto simp: RevokeDevice_def split: prod.splits sum.splits)
  from tx have db1: "revoke_tx clk ?u d (st_Pool st0) = Inr ((), st_Pool st1)" by (auto simp: st1 res)
  from revoke_tx_effect(1) [OF db1] obtain r where r: "fmlookup (devices (st_Pool st1)) (?u, d) = Some r"
    "d_revoked_at r \<noteq> None" by blast
  note sess = revoke_tx_effect(2) [OF db1]
  have "synced (clk readings) st1"
    using srv.step [OF sys_step.account [OF revoke_device [OF revoke] clk] synced_start [OF syn]]
    by (simp add: since_def)
  from kept_device [OF run_accounts [OF run this] r(1)] obtain r' where
    r': "fmlookup (devices (st_Pool st)) (?u, d) = Some r'" "same_device r r'" .
  from r(2) r'(2) have dead: "d_revoked_at r' \<noteq> None" by (simp add: same_device_def)
  have "\<forall>h. st_Hub st1 = Some h \<longrightarrow> (\<forall>c\<in>set (conns_of h ?u). conn_DeviceID c \<noteq> d)"
    by (auto simp: st1 close_device_def hub)
  moreover have "LookupAccess clk2 now token st = (Inr sc, st2) \<longrightarrow> (sc_UserID sc, sc_DeviceID sc) \<noteq> (?u, d)"
    using r'(1) dead by (auto elim!: LookupAccess_row)
  moreover have "Refresh fr clk2 now token st = (Inr pair, st2) \<longrightarrow>
      session_join (\<lambda>s. s_refresh_hash s = HashToken token) (st_Pool st) = Some (i, s, dev, u) \<longrightarrow>
      (s_user_id s, s_device_id s) \<noteq> (?u, d)"
    using r'(1) dead by (auto dest: Refresh_row)
  moreover have "Login w external fr clk2 li st = (Inr ar, st2) \<longrightarrow> (ar_UserID ar, ar_DeviceID ar) \<noteq> (?u, d)"
    using r'(1) dead by (auto dest!: Login_on simp: login_on_def)
  ultimately show ?thesis using sess by blast
qed

theorem revoked_device_out_witness:
  "LookupAccess (\<lambda>_. 50) 60 token1 (snd (RevokeDevice (\<lambda>_. 40) scope1 device1 store_in))
     \<noteq> (Inr scope_in, snd (RevokeDevice (\<lambda>_. 40) scope1 device1 store_in))"
proof -
  let ?st1 = "snd (RevokeDevice (\<lambda>_. 40) scope1 device1 store_in)"
  have "RevokeDevice (\<lambda>_. 40) scope1 device1 store_in = (Inr (), ?st1)"
    by (simp add: RevokeDevice_def revoke_tx_def run_tx_def Let_def split: prod.split)
  from revoked_device_out [OF store_in_synced _ _ this reaches.start, of "\<lambda>_. 50" 60 token1 scope_in]
  show ?thesis by (auto simp: mono_def scope_in_def)
qed

section \<open>A new password ends every session\<close>

lemma ended_sessions:
  assumes syn: "synced t1 st1" and run: "reaches t1 st1 t st"
    and dead: "\<And>i s. fmlookup (sessions (st_Pool st1)) i = Some s \<Longrightarrow> s_user_id s = u \<Longrightarrow> s_revoked_at s \<noteq> None"
    and s: "fmlookup (sessions (st_Pool st)) i = Some s" "s_user_id s = u" "s_revoked_at s = None"
  shows "fmlookup (sessions (st_Pool st1)) i = None"
proof (rule ccontr)
  assume "fmlookup (sessions (st_Pool st1)) i \<noteq> None"
  then obtain s0 where s0: "fmlookup (sessions (st_Pool st1)) i = Some s0" by blast
  from kept_session [OF run_accounts [OF run syn] this] s(1) have "same_session s0 s" by fastforce
  with dead [OF s0] s(2,3) show False by (auto simp: same_session_def)
qed

lemma set_password_effect:
  assumes "set_password w clk hash u db = Inr (x, db')"
  shows "fmlookup (sessions db') i = Some s \<Longrightarrow> s_user_id s = u \<Longrightarrow> s_revoked_at s \<noteq> None"
    and "fmlookup (users db') u = map_option (\<lambda>r. r\<lparr>u_password_hash := hash\<rparr>) (fmlookup (users db) u)"
proof -
  from assms obtain db1 where upd: "update_user (w_lower w) u (\<lambda>r. r\<lparr>u_password_hash := hash\<rparr>) db = Inr db1"
    and db': "db' = revoke_sessions (clk 0) (\<lambda>_ s. s_user_id s = u) db1"
    by (auto simp: set_password_def bind_res_Inr_iff)
  show "fmlookup (sessions db') i = Some s \<Longrightarrow> s_user_id s = u \<Longrightarrow> s_revoked_at s \<noteq> None"
    unfolding db' by (erule revoke_sessions_dead) simp_all
  show "fmlookup (users db') u = map_option (\<lambda>r. r\<lparr>u_password_hash := hash\<rparr>) (fmlookup (users db) u)"
    using upd by (auto simp: db' revoke_sessions_def update_user_Inr)
qed

definition password_set :: "World \<Rightarrow> Fresh \<Rightarrow> string \<Rightarrow> uuid \<Rightarrow> Store \<Rightarrow> bool" where
  "password_set w fr new u st' \<longleftrightarrow>
     (\<exists>r. fmlookup (users (st_Pool st')) u = Some r \<and> u_password_hash r = Hash (w_idkey w) (f_salt fr) new)
     \<and> (\<forall>i s. fmlookup (sessions (st_Pool st')) i = Some s \<longrightarrow> s_user_id s = u \<longrightarrow> s_revoked_at s \<noteq> None)
     \<and> (\<forall>h. st_Hub st' = Some h \<longrightarrow> conns_of h u = [])"

lemma ChangePassword_sets:
  assumes "ChangePassword w fr clk scope old new st = (Inr (), st')"
  shows "password_set w fr new (sc_UserID scope) st'"
proof -
  from assms obtain r db where r: "fmlookup (users (st_Pool st)) (sc_UserID scope) = Some r"
    and db: "set_password w clk (Hash (w_idkey w) (f_salt fr) new) (sc_UserID scope) (st_Pool st) = Inr ((), db)"
    and st': "st' = close_user (sc_UserID scope) (st\<lparr>st_Pool := db\<rparr>)"
    by (auto simp: ChangePassword_def run_tx_def split: sum.splits option.splits if_splits)
  show ?thesis
    unfolding password_set_def
    using set_password_effect(1) [OF db] set_password_effect(2) [OF db] r
    by (auto simp: st' close_user_def hub)
qed

lemma ResetPassword_sets:
  assumes "ResetPassword w fr clk name new st = (Inr (), st')"
  shows "\<exists>u r. fmlookup (users (st_Pool st)) u = Some r \<and> u_username r = name \<and> password_set w fr new u st'"
proof -
  from assms obtain u r db where u: "find_row (\<lambda>_ r. u_username r = name) (users (st_Pool st)) = Some (u, r)"
    and db: "set_password w clk (Hash (w_idkey w) (f_salt fr) new) u (st_Pool st) = Inr ((), db)"
    and st': "st' = close_user u (st\<lparr>st_Pool := db\<rparr>)"
    by (auto simp: ResetPassword_def run_tx_def bind_res_def split: sum.splits option.splits if_splits)
  note r = find_row_Some [OF u]
  have "password_set w fr new u st'"
    unfolding password_set_def
    using set_password_effect(1) [OF db] set_password_effect(2) [OF db] r
    by (auto simp: st' close_user_def hub)
  with r show ?thesis by blast
qed

text \<open>
  C9: A new password ends every session.  After ChangePassword, or ResetPassword by the
  administrator, the account has the hash of the new password, its live connections are closed
  and all its sessions revoked; whatever happens later, a token that authenticates the account
  or is refreshed belongs to a session opened after the change.
\<close>

theorem new_password_ends_sessions:
  assumes syn: "synced t0 st0" and clk: "mono clk" "t0 \<le> clk 0"
    and change: "ChangePassword w fr clk scope old new st0 = (Inr (), st1) \<and> sc_UserID scope = u
      \<or> ResetPassword w fr clk name new st0 = (Inr (), st1) \<and> accounts_ok (st_Pool st0)
         \<and> fmlookup (users (st_Pool st0)) u = Some r \<and> u_username r = name"
    and run: "reaches (clk readings) st1 t st"
  shows "password_set w fr new u st1
    \<and> (LookupAccess clk2 now token st = (Inr sc, st2) \<longrightarrow> sc_UserID sc = u \<longrightarrow>
         fmlookup (sessions (st_Pool st1)) (sc_SessionID sc) = None)
    \<and> (Refresh fr2 clk2 now token st = (Inr pair, st2) \<longrightarrow>
         session_join (\<lambda>s. s_refresh_hash s = HashToken token) (st_Pool st) = Some (i, s, d, ur) \<longrightarrow>
         s_user_id s = u \<longrightarrow> fmlookup (sessions (st_Pool st1)) i = None)"
proof -
  have set: "password_set w fr new u st1"
    using change
  proof
    assume "ChangePassword w fr clk scope old new st0 = (Inr (), st1) \<and> sc_UserID scope = u"
    then show ?thesis using ChangePassword_sets by blast
  next
    assume r: "ResetPassword w fr clk name new st0 = (Inr (), st1) \<and> accounts_ok (st_Pool st0)
         \<and> fmlookup (users (st_Pool st0)) u = Some r \<and> u_username r = name"
    then obtain v r' where v: "fmlookup (users (st_Pool st0)) v = Some r'" "u_username r' = name"
      "password_set w fr new v st1" using ResetPassword_sets by blast
    with r have "v = u" unfolding accounts_ok_def users_ok_def by metis
    with v(3) show ?thesis by simp
  qed
  have "account_step clk st0 st1" using change by (auto intro: account_step.intros)
  from srv.step [OF sys_step.account [OF this clk] synced_start [OF syn]]
  have syn1: "synced (clk readings) st1" by (simp add: since_def)
  have dead: "\<And>i s. fmlookup (sessions (st_Pool st1)) i = Some s \<Longrightarrow> s_user_id s = u \<Longrightarrow> s_revoked_at s \<noteq> None"
    using set unfolding password_set_def by blast
  note ended = ended_sessions [OF syn1 run dead]
  have "LookupAccess clk2 now token st = (Inr sc, st2) \<longrightarrow> sc_UserID sc = u \<longrightarrow>
      fmlookup (sessions (st_Pool st1)) (sc_SessionID sc) = None"
    by (auto elim!: LookupAccess_row intro: ended)
  moreover have "Refresh fr2 clk2 now token st = (Inr pair, st2) \<longrightarrow>
      session_join (\<lambda>s. s_refresh_hash s = HashToken token) (st_Pool st) = Some (i, s, d, ur) \<longrightarrow>
      s_user_id s = u \<longrightarrow> fmlookup (sessions (st_Pool st1)) i = None"
    by (auto dest!: Refresh_row intro: ended)
  ultimately show ?thesis using set by blast
qed

definition world1 :: World where
  "world1 = \<lparr>w_tbl = (\<lambda>n. n), w_lower = (\<lambda>s. s), w_idkey = (\<lambda>p s t m th n. take (nat n) (p @ replicate (nat n) 0))\<rparr>"

definition fresh1 :: Fresh where
  "fresh1 = \<lparr>f_user = clip1, f_family = clip2, f_session = op1, f_access = replicate 32 3,
     f_refresh = replicate 32 4, f_salt = replicate 16 5\<rparr>"

lemma reset_in:
  assumes "st_Pool st = st_Pool store_in"
  shows "\<exists>st1. ResetPassword world1 fresh1 (\<lambda>_. 40) ''alice'' pw st = (Inr (), st1)"
proof -
  have one: "fmlookup (users db0) u = Some r \<Longrightarrow> u = user1" for u r
    by (simp add: db0_def empty_db_def split: if_splits)
  obtain r where r: "fmlookup (users db0) user1 = Some r" "u_username r = ''alice''" by simp
  have find: "find_row (\<lambda>_ r. u_username r = ''alice'') (users db0) = Some (user1, r)"
    by (rule find_row_unique) (use r one in auto)
  have upd: "\<exists>db. update_user (w_lower world1) user1 (\<lambda>r. r\<lparr>u_password_hash := h\<rparr>) (st_Pool store_in) = Inr db" for h
    using r one by (auto simp: update_user_def check_user_def exists_row_iff db0_def empty_db_def)
  obtain db where "update_user (w_lower world1) user1
      (\<lambda>r. r\<lparr>u_password_hash := Hash (w_idkey world1) (f_salt fresh1) pw\<rparr>) (st_Pool store_in) = Inr db"
    using upd by blast
  then show ?thesis by (simp add: ResetPassword_def run_tx_def set_password_def find assms)
qed

theorem new_password_ends_sessions_witness:
  "\<exists>st1. ResetPassword world1 fresh1 (\<lambda>_. 40) ''alice'' ''new-secret'' store_in = (Inr (), st1)
     \<and> password_set world1 fresh1 ''new-secret'' user1 st1
     \<and> fst (LookupAccess (\<lambda>_. 50) 60 token1 st1) \<noteq> Inr scope_in"
proof -
  from reset_in [of store_in] obtain st1 where st1: "ResetPassword world1 fresh1 (\<lambda>_. 40) ''alice'' ''new-secret'' store_in = (Inr (), st1)"
    by blast
  obtain r where r: "fmlookup (users (st_Pool store_in)) user1 = Some r \<and> u_username r = ''alice''" by simp
  note ends = new_password_ends_sessions [OF store_in_synced _ _ disjI2 [OF conjI [OF st1 conjI [OF accounts_ok_store_in r]]]
      reaches.start, of "\<lambda>_. 50" 60 token1 scope_in "snd (LookupAccess (\<lambda>_. 50) 60 token1 st1)"]
  have "fmlookup (sessions (st_Pool st1)) session1 \<noteq> None"
    using kept_session [of "st_Pool store_in" "st_Pool st1" session1 session_row1] ResetPassword_quiet [OF st1]
    by (auto simp: quiet_def)
  with ends have "password_set world1 fresh1 ''new-secret'' user1 st1
      \<and> fst (LookupAccess (\<lambda>_. 50) 60 token1 st1) \<noteq> Inr scope_in"
    by (auto simp: mono_def scope_in_def prod_eq_iff)
  with st1 show ?thesis by blast
qed

section \<open>Refreshing\<close>

lemma RandomToken_Encode: "RandomToken raw = (Encode raw, HashToken (Encode raw))"
  by (simp add: RandomToken_def HashToken_def Let_def)

lemma refresh_tx_Inr:
  assumes "refresh_tx fr clk now h db = Inr (pair, db')"
  obtains i s d u where "session_join (\<lambda>s. s_refresh_hash s = h) db = Some (i, s, d, u)"
    and "u_status u = ''active''" "s_revoked_at s = None" "d_revoked_at d = None" "now < s_refresh_expires_at s"
    and "tp_AccessToken pair = Encode (f_access fr)" "tp_RefreshToken pair = Encode (f_refresh fr)"
    and "fmlookup (used_refresh_tokens db') h
      = Some \<lparr>t_family_id = s_family_id s, t_expires_at = s_refresh_expires_at s\<rparr>"
    and "sessions db' = fmupd i (s\<lparr>s_access_hash := HashToken (Encode (f_access fr)),
        s_refresh_hash := HashToken (Encode (f_refresh fr)), s_expires_at := clk 0 + seconds 900\<rparr>) (sessions db)"
    and "devices db' = devices db" "users db' = users db"
proof (cases "session_join (\<lambda>s. s_refresh_hash s = h) db")
  case (Some x)
  obtain i s d u where x: "x = (i, s, d, u)" by (cases x)
  note row = session_join_Some [OF Some [unfolded x]]
  from assms row show thesis
    by (intro that [OF Some [unfolded x]])
      (auto simp: refresh_tx_def Some x Let_def RandomToken_Encode bind_res_Inr_iff insert_used_refresh_Inr
        update_session_returning_Inr split: if_splits)
qed (use assms in \<open>simp add: refresh_tx_def\<close>)

text \<open>
  C12: Refreshing rotates the tokens of one session.  After a successful refresh the session
  keeps its account, device and family and has the new tokens; the new access token
  authenticates it at once; and if the exchanged token is presented a second time, which only a
  thief or the victim of one does, the answer is 401 and every session of the family is revoked.
\<close>

theorem refresh_rotates:
  assumes ok: "accounts_ok (st_Pool st)" and ref: "Refresh fr clk now token st = (Inr pair, st1)"
    and random: "length (f_access fr) = 32" and soon: "now2 < clk 0 + seconds 900"
  shows "\<exists>i s. fmlookup (sessions (st_Pool st)) i = Some s \<and> s_refresh_hash s = HashToken token
    \<and> fmlookup (sessions (st_Pool st1)) i = Some (s\<lparr>s_access_hash := HashToken (tp_AccessToken pair),
        s_refresh_hash := HashToken (tp_RefreshToken pair), s_expires_at := clk 0 + seconds 900\<rparr>)
    \<and> fst (LookupAccess clk2 now2 (tp_AccessToken pair) st1)
        = Inr \<lparr>sc_UserID = s_user_id s, sc_DeviceID = s_device_id s, sc_SessionID = i, sc_FamilyID = s_family_id s\<rparr>
    \<and> fst (Refresh fr3 clk3 now3 token st1) = Inl (App (New 401 Unauthenticated))
    \<and> (\<forall>j s'. fmlookup (sessions (st_Pool (snd (Refresh fr3 clk3 now3 token st1)))) j = Some s' \<longrightarrow>
         s_family_id s' = s_family_id s \<longrightarrow> s_revoked_at s' \<noteq> None)"
proof -
  from ref obtain db where tok: "Token token" and tx: "refresh_tx fr clk now (HashToken token) (st_Pool st) = Inr (pair, db)"
    and st1: "st1 = st\<lparr>st_Pool := db\<rparr>"
    by (auto simp: Refresh_def Let_def res split: if_splits option.splits)
  from tx obtain i s d u where join: "session_join (\<lambda>s. s_refresh_hash s = HashToken token) (st_Pool st) = Some (i, s, d, u)"
    and live: "u_status u = ''active''" "s_revoked_at s = None" "d_revoked_at d = None"
    and toks: "tp_AccessToken pair = Encode (f_access fr)" "tp_RefreshToken pair = Encode (f_refresh fr)"
    and used: "fmlookup (used_refresh_tokens db) (HashToken token)
      = Some \<lparr>t_family_id = s_family_id s, t_expires_at = s_refresh_expires_at s\<rparr>"
    and sess: "sessions db = fmupd i (s\<lparr>s_access_hash := HashToken (Encode (f_access fr)),
        s_refresh_hash := HashToken (Encode (f_refresh fr)), s_expires_at := clk 0 + seconds 900\<rparr>) (sessions (st_Pool st))"
    and same: "devices db = devices (st_Pool st)" "users db = users (st_Pool st)"
    by (rule refresh_tx_Inr)
  note row = session_join_Some [OF join]
  have ok1: "accounts_ok (st_Pool st1)" using Refresh_quiet [OF ref] ok by (simp add: quiet_def)
  let ?sc = "\<lparr>sc_UserID = s_user_id s, sc_DeviceID = s_device_id s, sc_SessionID = i, sc_FamilyID = s_family_id s\<rparr>"
  have "fst (LookupAccess clk2 now2 (tp_AccessToken pair) st1) = Inr ?sc"
    using LookupAccess_char [OF ok1, of clk2 now2 "tp_AccessToken pair" ?sc] row live soon random
    by (simp add: st1 toks sess same Token_Encode)
  moreover have again: "Refresh fr3 clk3 now3 token st1 = (Inl (App (New 401 Unauthenticated)),
      st1\<lparr>st_Pool := revoke_sessions (clk3 0) (\<lambda>_ s'. s_family_id s' = s_family_id s) (st_Pool st1)\<rparr>)"
    by (simp add: Refresh_def tok st1 used)
  moreover have "s_revoked_at s' \<noteq> None" if "fmlookup (sessions (st_Pool (snd (Refresh fr3 clk3 now3 token st1)))) j = Some s'"
    "s_family_id s' = s_family_id s" for j s'
  proof (rule revoke_sessions_dead)
    show "fmlookup (sessions (revoke_sessions (clk3 0) (\<lambda>_ s'. s_family_id s' = s_family_id s) (st_Pool st1))) j = Some s'"
      using that(1) unfolding again by simp
  qed (use that(2) in simp_all)
  ultimately show ?thesis
    using row by (intro exI [of _ i] exI [of _ s]) (simp add: st1 sess toks)
qed

lemma refresh_in: "\<exists>pair st1. Refresh fresh1 (\<lambda>_. 40) 60 token2 store_in = (Inr pair, st1)"
proof -
  have ok: "accounts_ok (st_Pool store_in)" by (rule accounts_ok_store_in)
  let ?P = "\<lambda>s. s_refresh_hash s = HashToken token2"
  obtain d u where du: "fmlookup (devices db0) (user1, device1) = Some d" "d_revoked_at d = None"
    "fmlookup (users db0) user1 = Some u" "u_status u = ''active''"
    by (simp add: db0_def empty_db_def)
  have "session_join ?P (st_Pool store_in) = Some (session1, session_row1, d, u)"
    using session_join_iff [OF ok, of ?P session1 session_row1 d u] du
    by (simp add: session_clash_def session_row1_def)
  moreover have "sessions (st_Pool store_in) = fmupd session1 session_row1 fmempty" by (simp add: store_in_def)
  ultimately show ?thesis
    using du by (simp add: Refresh_def refresh_tx_def run_tx_def RandomToken_Encode insert_used_refresh_def
        has_row_def update_session_returning_def check_session_def exists_row_iff session_row1_def db0_def empty_db_def)
qed

theorem refresh_rotates_witness:
  "\<exists>pair st1. Refresh fresh1 (\<lambda>_. 40) 60 token2 store_in = (Inr pair, st1)
     \<and> fst (Refresh fresh1 (\<lambda>_. 70) 80 token2 st1) = Inl (App (New 401 Unauthenticated))"
proof -
  from refresh_in obtain pair st1 where ref: "Refresh fresh1 (\<lambda>_. 40) 60 token2 store_in = (Inr pair, st1)" by blast
  from refresh_rotates [OF accounts_ok_store_in ref, of 0 "\<lambda>_. 70" fresh1 "\<lambda>_. 70" 80] ref
  show ?thesis by (auto simp: fresh1_def seconds_def)
qed

section \<open>The vault\<close>

text \<open>
  C14: The keys of a vault are fixed by the first InitVault.  Once an account has a vault, in
  every later state GetVault answers with the same identifier, versions, salt, nonce and wrapped
  key (only the password wrap may change), and InitVault answers 412 and changes nothing.
\<close>

theorem vault_fixed:
  assumes syn: "synced t0 st0" and run: "reaches t0 st0 t st" and vault: "GetVault scope st0 = Inr env"
    and same: "sc_UserID scope' = sc_UserID scope"
  shows "(\<exists>pw. GetVault scope' st = Inr (env\<lparr>ve_PasswordWrap := pw\<rparr>))
    \<and> InitVault scope' env' salt nonce wrapped pw' st = (Inl (App (New 412 VaultExists)), st)"
proof -
  from vault obtain v where v: "fmlookup (vaults (st_Pool st0)) (sc_UserID scope) = Some v"
    by (auto simp: GetVault_def split: option.splits)
  from kept_vault [OF run_accounts [OF run syn] v] obtain v' where
    v': "fmlookup (vaults (st_Pool st)) (sc_UserID scope) = Some v'" "same_vault v v'" .
  then have "\<exists>pw. GetVault scope' st = Inr (env\<lparr>ve_PasswordWrap := pw\<rparr>)"
    using vault v by (cases v, cases v') (auto simp: GetVault_def same same_vault_def)
  then show ?thesis
    using v'(1) by (simp add: InitVault_def run_tx_def same has_row_def)
qed

theorem vault_fixed_witness:
  "\<exists>pw. GetVault scope1 store2 = Inr (\<lparr>ve_VaultID = vault1, ve_FormatVersion = 1, ve_KeyEpoch = 1,
     ve_WrapSalt = Encode (replicate 32 0), ve_WrapNonce = Encode (replicate 12 0),
     ve_WrappedKey = Encode (replicate 48 0), ve_PasswordWrap = None\<rparr>\<lparr>ve_PasswordWrap := pw\<rparr>)"
proof (rule vault_fixed [OF sample_synced sample_run, THEN conjunct1])
  show "GetVault scope1 store0 = Inr \<lparr>ve_VaultID = vault1, ve_FormatVersion = 1, ve_KeyEpoch = 1,
     ve_WrapSalt = Encode (replicate 32 0), ve_WrapNonce = Encode (replicate 12 0),
     ve_WrappedKey = Encode (replicate 48 0), ve_PasswordWrap = None\<rparr>"
    by (simp add: GetVault_def store0_def db0_def scope1_def)
qed simp

end
