(* ===== verification/Serving.thy ===== *)
theory Serving
  imports Router Access
begin

text \<open>
  What a request does to the server: every request is a run of the transition system of theory
  System, so everything proved about runs holds of what clients observe over HTTP.
\<close>

section \<open>Every request is a run\<close>

definition runs :: "time \<Rightarrow> time \<Rightarrow> Store \<Rightarrow> Store \<Rightarrow> bool" where
  "runs t t' st st' \<longleftrightarrow> (\<exists>t1. t \<le> t1 \<and> t1 \<le> t' \<and> reaches t st t1 st')"

named_theorems runs

lemma runs_refl [runs]: "t \<le> t' \<Longrightarrow> runs t t' st st"
  by (auto simp: runs_def intro: reaches.start)

lemma runs_trans: "runs t t' st st' \<Longrightarrow> (\<And>t1. t \<le> t1 \<Longrightarrow> t1 \<le> t' \<Longrightarrow> runs t1 t2 st' st2) \<Longrightarrow> runs t t2 st st2"
  unfolding runs_def by (meson order_trans reaches_trans)

lemma runs_step: "sys_step t st t' st' \<Longrightarrow> t \<le> t' \<Longrightarrow> runs t t' st st'"
  unfolding runs_def by (blast intro: reaches.step reaches.start)

lemma mono_readings: "mono (clk :: clock) \<Longrightarrow> t \<le> clk 0 \<Longrightarrow> t \<le> clk readings"
  by (meson le0 monoD order_trans)

lemma runs_account [runs]:
  "account_step clk st st' \<Longrightarrow> mono clk \<Longrightarrow> t \<le> clk 0 \<Longrightarrow> runs t (clk readings) st st'"
  by (auto intro: runs_step sys_step.account mono_readings)

lemma runs_create [runs]:
  "CreateClip clk scope env nonce ct h st = (x, st') \<Longrightarrow> UUID (env_ID env) \<Longrightarrow> mono clk \<Longrightarrow> t \<le> clk 0 \<Longrightarrow>
     runs t (clk readings) st st'"
  by (auto intro: runs_step sys_step.create mono_readings)

lemma runs_mutate [runs]:
  "MutateClip clk scope c op kind v h st = (x, st') \<Longrightarrow> mono clk \<Longrightarrow> t \<le> clk 0 \<Longrightarrow> runs t (clk readings) st st'"
  by (auto intro: runs_step sys_step.mutate mono_readings)

lemma runs_snapshot [runs]:
  "BeginSnapshot clk raw scope st = (x, st') \<Longrightarrow> mono clk \<Longrightarrow> t \<le> clk 0 \<Longrightarrow> runs t (clk readings) st st'"
  by (auto intro: runs_step sys_step.snapshot mono_readings)

lemma runs_sockets [runs]: "t \<le> t' \<Longrightarrow> runs t t' st (on_hub f st)"
  unfolding runs_def on_hub_def by (blast intro: reaches.intros sys_step.sockets)

lemma refuse_eq [simp]: "refuse e h = (rs, h') \<longleftrightarrow> rs = writeError [] e \<and> h' = h"
  by (auto simp: refuse_def)

lemma reply_eq [simp]: "reply ok h (x, st) = (rs, h') \<longleftrightarrow>
    rs = (case x of Inl e \<Rightarrow> writeError [] (writeErr e) | Inr y \<Rightarrow> ok y) \<and> h' = h\<lparr>h_store := st\<rparr>"
  by (auto simp: reply_def)

lemma reply_store: "reply ok h res = (rs, h') \<Longrightarrow> h_store h' = snd res"
  by (cases res) simp

lemma runs_op:
  assumes "reply ok h res = (rs, h')" and "\<And>x st'. res = (x, st') \<Longrightarrow> runs t t' st st'"
  shows "runs t t' st (h_store h')"
  using assms(2) [of "fst res" "snd res"] reply_store [OF assms(1)] by simp

text \<open>The time a request may take.\<close>

definition timed :: "time \<Rightarrow> Env \<Rightarrow> bool" where
  "timed t ev \<longleftrightarrow> mono (ev_AuthClk ev) \<and> mono (ev_Clk ev) \<and> t \<le> ev_AuthClk ev 0
     \<and> ev_AuthClk ev readings \<le> ev_Clk ev 0"

definition done_by :: "Env \<Rightarrow> time" where
  "done_by ev = ev_Clk ev readings"

lemma timed_clk: "timed t ev \<Longrightarrow> t \<le> ev_Clk ev 0"
  using mono_readings [of "ev_AuthClk ev" t] by (auto simp: timed_def)

lemma timed_done: "timed t ev \<Longrightarrow> t \<le> done_by ev"
  using timed_clk [of t ev] mono_readings [of "ev_Clk ev" t] by (simp add: timed_def done_by_def)

lemma runs_done:
  "mono (ev_Clk ev) \<Longrightarrow> t \<le> ev_Clk ev 0 \<Longrightarrow> t \<le> done_by ev"
  by (simp add: done_by_def mono_readings)

text \<open>A handler behind the wrapper runs on a clock that starts after \<open>LookupAccess\<close>.\<close>

definition authed_runs :: "authed \<Rightarrow> bool" where
  "authed_runs f \<longleftrightarrow> (\<forall>ev r scope h rs h' t. f ev r scope h = (rs, h') \<longrightarrow> mono (ev_Clk ev) \<longrightarrow> t \<le> ev_Clk ev 0 \<longrightarrow>
     runs t (done_by ev) (h_store h) (h_store h'))"

definition handler_runs :: "handler \<Rightarrow> bool" where
  "handler_runs f \<longleftrightarrow> (\<forall>ev r h rs h' t. f ev r h = (rs, h') \<longrightarrow> timed t ev \<longrightarrow>
     runs t (done_by ev) (h_store h) (h_store h'))"

lemma handler_runsD:
  "handler_runs f \<Longrightarrow> f ev r h = (rs, h') \<Longrightarrow> timed t ev \<Longrightarrow> runs t (done_by ev) (h_store h) (h_store h')"
  by (simp add: handler_runs_def)

lemmas authed_defs = logout_def changePassword_def listDevices_def revokeDevice_def getVault_def
  putVault_def putPasswordWrap_def createClip_def listClips_def getClip_def mutate_def trashClip_def
  restoreClip_def purgeClip_def changes_def beginSnapshot_def snapshotPage_def websocket_def

lemma op_done:
  assumes "reply ok h res = (rs, h')" and "\<And>x st'. res = (x, st') \<Longrightarrow> runs t (ev_Clk ev readings) st st'"
  shows "runs t (done_by ev) st (h_store h')"
  unfolding done_by_def by (rule runs_op [OF assms])

lemma op_account:
  assumes "reply ok h res = (rs, h')" and "\<And>x st'. res = (x, st') \<Longrightarrow> account_step (ev_Clk ev) st st'"
    and "mono (ev_Clk ev)" "t \<le> ev_Clk ev 0"
  shows "runs t (done_by ev) st (h_store h')"
  by (rule op_done [OF assms(1)], rule runs_account [OF assms(2-4)], assumption)

lemma account_done:
  "account_step (ev_Clk ev) st st' \<Longrightarrow> mono (ev_Clk ev) \<Longrightarrow> t \<le> ev_Clk ev 0 \<Longrightarrow> runs t (done_by ev) st st'"
  unfolding done_by_def by (rule runs_account)

lemma authed_runsI:
  assumes "\<And>ev r scope h rs h' t. f ev r scope h = (rs, h') \<Longrightarrow> mono (ev_Clk ev) \<Longrightarrow> t \<le> ev_Clk ev 0 \<Longrightarrow>
     runs t (done_by ev) (h_store h) (h_store h')"
  shows "authed_runs f"
  using assms by (simp add: authed_runs_def)

lemma authed_read:
  assumes "\<And>ev r scope h. h_store (snd (f ev r scope h)) = h_store h"
  shows "authed_runs f"
proof (rule authed_runsI)
  fix ev r scope h rs h' t
  assume "f ev r scope h = (rs, h')" "mono (ev_Clk ev)" "t \<le> ev_Clk ev 0"
  with assms [of ev r scope h] show "runs t (done_by ev) (h_store h) (h_store h')"
    by (auto intro: runs_refl runs_done)
qed

lemma authed_accounts:
  "authed_runs logout" "authed_runs changePassword" "authed_runs (revokeDevice i)" "authed_runs putVault"
  "authed_runs putPasswordWrap"
  by (rule authed_runsI; auto simp: authed_defs Let_def runs_refl runs_done
      split: if_splits sum.splits option.splits prod.splits
      elim!: op_account intro: account_step.intros account_done [OF account_step.logout])+

lemma authed_reads:
  "authed_runs listDevices" "authed_runs getVault" "authed_runs listClips" "authed_runs (getClip i)"
  "authed_runs changes" "authed_runs (snapshotPage i)"
  by (rule authed_read; auto simp: authed_defs Let_def reply_def refuse_def split: sum.splits option.splits)+

lemma authed_socket: "authed_runs websocket"
  by (rule authed_runsI) (auto simp: websocket_def runs_refl runs_done runs_sockets split: sum.splits)

lemma authed_mutate: "authed_runs (mutate kind i)"
  by (rule authed_runsI; auto simp: mutate_def Let_def runs_refl runs_done split: if_splits option.splits
      elim!: op_done intro: runs_mutate)

lemma authed_snapshot: "authed_runs beginSnapshot"
  by (rule authed_runsI; auto simp: beginSnapshot_def elim!: op_done intro: runs_snapshot)

lemma validateEnvelope_UUID: "validateEnvelope env = None \<Longrightarrow> UUID (env_ID env)"
  by (simp add: validateEnvelope_def split: if_splits)

lemma authed_create: "authed_runs createClip"
  by (rule authed_runsI; auto simp: createClip_def Let_def runs_refl runs_done split: if_splits option.splits sum.splits
      elim!: op_done intro: runs_create validateEnvelope_UUID)

lemmas authed_all = authed_accounts authed_reads authed_socket authed_mutate authed_snapshot authed_create

section \<open>The wrapper and the public endpoints\<close>

lemma handler_runsI:
  assumes "\<And>ev r h rs h' t. f ev r h = (rs, h') \<Longrightarrow> timed t ev \<Longrightarrow> runs t (done_by ev) (h_store h) (h_store h')"
  shows "handler_runs f"
  using assms by (simp add: handler_runs_def)

lemma auth_runs:
  assumes "authed_runs f"
  shows "handler_runs (auth f)"
proof (rule handler_runsI)
  fix ev r h rs h' t
  assume run: "auth f ev r h = (rs, h')" and time: "timed t ev"
  let ?token = "TrimPrefix (Get (rq_Header r) ''Authorization'') ''Bearer ''"
  let ?t1 = "ev_AuthClk ev readings"
  obtain x st where look: "LookupAccess (ev_AuthClk ev) (ev_GoClk ev 0) ?token (h_store h) = (x, st)" by fastforce
  have looked: "runs t ?t1 (h_store h) st"
    using time by (intro runs_account account_step.lookup [OF look]) (auto simp: timed_def)
  have later: "runs t1 (done_by ev) st (h_store h')"
    if "f ev r scope (h\<lparr>h_store := st\<rparr>) = (rs, h')" "t1 \<le> ?t1" for scope t1
  proof -
    have "mono (ev_Clk ev)" "t1 \<le> ev_Clk ev 0" using that(2) time by (auto simp: timed_def)
    with assms that(1) have "runs t1 (done_by ev) (h_store (h\<lparr>h_store := st\<rparr>)) (h_store h')"
      unfolding authed_runs_def by blast
    then show ?thesis by simp
  qed
  have idle: "runs t1 (done_by ev) st st" if "t1 \<le> ?t1" for t1
    using that time unfolding timed_def by (meson order_trans runs_done runs_refl)
  from run look looked later idle show "runs t (done_by ev) (h_store h) (h_store h')"
    by (auto simp: auth_def Let_def timed_done [OF time] runs_refl split: if_splits sum.splits elim!: runs_trans)
qed

lemma gated_runs: "handler_runs f \<Longrightarrow> handler_runs (gated n f)"
  by (rule handler_runsI)
    (auto simp: gated_def timed_done runs_refl dest: handler_runsD split: prod.splits option.splits)

lemma public_runs:
  "handler_runs health" "handler_runs readyz" "handler_runs serverInfo" "handler_runs register_passed"
  "handler_runs emailCode_passed" "handler_runs login_passed" "handler_runs refresh"
  "handler_runs (\<lambda>ev r h. refuse (New 404 NotFound) h)"
  by (rule handler_runsI; auto simp: health_def readyz_def serverInfo_def register_passed_def emailCode_passed_def
      login_passed_def refresh_def Let_def timed_done timed_clk timed_def [of t ev for t ev] runs_refl
      split: if_splits sum.splits option.splits prod.splits
      elim!: op_account intro: account_step.intros)+

lemma handle_runs: "handler_runs (handle e)"
  by (cases e) (auto simp: register_def emailCode_def login_def trashClip_def restoreClip_def purgeClip_def
      intro!: auth_runs gated_runs authed_all public_runs)

text \<open>
  C21: Every HTTP request is a run of the server: whatever it is and whoever sends it, answering
  it takes the store from one state to another by the steps of theory System, in the time its
  database clocks allow.  So every property of runs holds of what requests do.
\<close>

theorem serve_run:
  assumes "serve ev r h = (rs, h')" and "timed t ev"
  shows "\<exists>t'. t \<le> t' \<and> t' \<le> done_by ev \<and> reaches t (h_store h) t' (h_store h')"
  using handler_runsD [OF handle_runs, of "route r" ev r h rs h' t] assms by (simp add: serve_def runs_def)

text \<open>A request to log out, with the token of the sample session.\<close>

definition env1 :: Env where
  "env1 = \<lparr>ev_World = world1, ev_Fresh = fresh1, ev_Random = replicate 32 7, ev_AuthClk = (\<lambda>_. 50),
     ev_Clk = (\<lambda>_. 50), ev_GoClk = (\<lambda>_. 60), ev_Mailer = None, ev_External = None, ev_Ping = True,
     ev_Socket = Inr 1\<rparr>"

definition logout1 :: Request where
  "logout1 = \<lparr>rq_Method = ''POST'', rq_Path = [''api'', ''v1'', ''auth'', ''logout''], rq_Query = [],
     rq_Header = [(''Authorization'', ''Bearer '' @ token1)], rq_Body = [], rq_RemoteAddr = ''10.0.0.1:4711''\<rparr>"

definition handler1 :: Handler where
  "handler1 = \<lparr>h_cfg = cfg1, h_store = store_in, h_ready = True, h_loginHits = (\<lambda>_. [])\<rparr>"

lemma sample_env [simp]: "timed 40 env1" "ev_External env1 = None"
  by (simp_all add: timed_def env1_def mono_def)

lemma route_logout1 [simp]: "route logout1 = LogoutE"
  by (simp add: route_def logout1_def api_route_def serves_def Let_def)

theorem serve_run_witness:
  "\<exists>t'\<le>50. reaches 40 store_in t' (h_store (snd (serve env1 logout1 handler1)))"
  using serve_run [of env1 logout1 handler1 _ _ 40, OF surjective_pairing]
  by (auto simp: handler1_def done_by_def env1_def [THEN arg_cong [of _ _ ev_Clk]])

end
