(* ===== verification/Errors.thy ===== *)
theory Errors
  imports Serving
begin

text \<open>
  The error contract of the API: which status goes with which code.  Every operation of the
  store fails only with a pair of the table, or with an error of the database, which the
  handlers report as 503; so no response leaves the table.
\<close>

definition error_table :: "(int \<times> Code) list" where
  "error_table =
     [(400, InvalidRequest), (400, UnsupportedFormat), (401, Unauthenticated), (401, TokenExpired),
      (403, DeviceRevoked), (403, RegistrationDisabled), (404, NotFound), (404, VaultNotInitialized),
      (409, IdempotencyConflict), (409, SyncResetRequired), (409, QuotaExceeded), (410, ClipPurged),
      (410, TrashExpired), (410, CursorExpired), (410, SnapshotExpired), (412, VersionConflict),
      (412, VaultExists), (428, PreconditionRequired), (429, RateLimited), (503, NotReady),
      (503, TemporarilyUnavailable)]"

definition listed :: "failure \<Rightarrow> bool" where
  "listed e \<longleftrightarrow> (case e of App a \<Rightarrow> (err_Status a, err_Code a) \<in> set error_table | _ \<Rightarrow> True)"

definition errs :: "failure + 'a \<Rightarrow> bool" where
  "errs m \<longleftrightarrow> (\<forall>e. m = Inl e \<longrightarrow> listed e)"

lemma listed_simps [simp]:
  "listed (App (New s c)) \<longleftrightarrow> (s, c) \<in> set error_table"
  "listed (App (WithDetails s c ds)) \<longleftrightarrow> (s, c) \<in> set error_table" "listed (Db d)" "listed Other"
  by (simp_all add: listed_def)

lemma in_error_table [simp]:
  "(400, InvalidRequest) \<in> set error_table" "(400, UnsupportedFormat) \<in> set error_table"
  "(401, Unauthenticated) \<in> set error_table" "(401, TokenExpired) \<in> set error_table"
  "(403, DeviceRevoked) \<in> set error_table" "(403, RegistrationDisabled) \<in> set error_table"
  "(404, NotFound) \<in> set error_table" "(404, VaultNotInitialized) \<in> set error_table"
  "(409, IdempotencyConflict) \<in> set error_table" "(409, SyncResetRequired) \<in> set error_table"
  "(409, QuotaExceeded) \<in> set error_table" "(410, ClipPurged) \<in> set error_table"
  "(410, TrashExpired) \<in> set error_table" "(410, CursorExpired) \<in> set error_table"
  "(410, SnapshotExpired) \<in> set error_table" "(412, VersionConflict) \<in> set error_table"
  "(412, VaultExists) \<in> set error_table" "(428, PreconditionRequired) \<in> set error_table"
  "(429, RateLimited) \<in> set error_table" "(503, NotReady) \<in> set error_table"
  "(503, TemporarilyUnavailable) \<in> set error_table"
  by (simp_all add: error_table_def)

lemma errs_simps [simp]: "errs (Inr x)" "errs (Inl e) \<longleftrightarrow> listed e"
  by (simp_all add: errs_def)

lemma errs_bind: "errs m \<Longrightarrow> (\<And>x. errs (f x)) \<Longrightarrow> errs (bind_res m f)"
  by (cases m) (auto simp: errs_def)

lemma errsD: "m = Inl e \<Longrightarrow> errs m \<Longrightarrow> listed e"
  by (simp add: errs_def)

lemma errs_run_tx: "errs (f (st_Pool st)) \<Longrightarrow> errs (fst (run_tx f st))"
  by (auto simp: run_tx_def split: sum.split)

lemmas err_splits = option.split if_split prod.split sum.split

section \<open>Statements\<close>

lemma errs_statements [simp]:
  "errs (insert_user lw u r db)" "errs (update_user lw u f db)" "errs (insert_sync u db)"
  "errs (insert_device u d dr db)" "errs (insert_session i s db)" "errs (update_session_returning i g db)"
  "errs (insert_used_refresh h t db)" "errs (insert_invite h iv db)" "errs (insert_vault u v db)"
  "errs (update_vault_wrap u p db)" "errs (upsert_email_code em ec db)" "errs (update_sync u k db)"
  "errs (insert_clip_id u c ci db)" "errs (update_clip_id u c cf db)" "errs (insert_clip u c cr db)"
  "errs (update_clip u c l db)" "errs (update_clip_returning u c l db)" "errs (insert_event u q e db)"
  "errs (insert_receipt u op rr db)" "errs (insert_snapshot h sr db)"
  by (simp_all add: insert_user_def update_user_def insert_sync_def insert_device_def insert_session_def
      update_session_returning_def insert_used_refresh_def insert_invite_def insert_vault_def
      update_vault_wrap_def upsert_email_code_def update_sync_def insert_clip_id_def update_clip_id_def
      insert_clip_def update_clip_def update_clip_returning_def insert_event_def insert_receipt_def
      insert_snapshot_def Let_def bind_res_def split: err_splits)

section \<open>Operations\<close>

lemma errs_conflict [simp]: "listed (conflict c clip)"
  by (simp add: conflict_def)

lemma errs_clips:
  "errs (create_tx cfg clk scope env nonce ct h db)" "errs (bump clk2 scope clip status kind b db)"
  "errs (purgeLocked clk scope clip db)"
  by (auto simp: create_tx_def bump_def purgeLocked_def Let_def intro!: errs_bind split: err_splits)

lemma errs_applyMutation: "errs (applyMutation clk scope c kind v db)"
  by (auto simp: applyMutation_def Let_def errs_clips split: err_splits)

lemma errs_mutate_tx: "errs (mutate_tx clk scope c op kind v h db)"
  by (auto simp: mutate_tx_def Let_def errs_applyMutation intro!: errs_bind split: err_splits)

lemma errs_clip_ops:
  "errs (fst (CreateClip clk scope env nonce ct h st))" "errs (fst (MutateClip clk scope c op kind v h st))"
  "errs (GetClip clk scope c st)" "errs (fst (BeginSnapshot clk raw scope st))"
  "errs (Changes clk scope epoch cur limit st)" "errs (SnapshotPage clk scope token pos limit st)"
  "errs (ParsePageToken tok)" "errs (parseLimit lim)"
proof -
  show "errs (fst (CreateClip clk scope env nonce ct h st))"
    using errs_clips(1) [of "st_Cfg st" clk scope env nonce ct h "st_Pool st"]
    by (auto simp: CreateClip_def run_tx_def errs_def split: err_splits)
  show "errs (fst (MutateClip clk scope c op kind v h st))"
    using errs_mutate_tx [of clk scope c op kind v h "st_Pool st"]
    by (auto simp: MutateClip_def run_tx_def errs_def split: err_splits)
  show "errs (fst (BeginSnapshot clk raw scope st))"
    by (auto simp: BeginSnapshot_def Let_def intro!: errs_run_tx errs_bind split: err_splits)
qed (auto simp: GetClip_def Changes_def Changes_read_def SnapshotPage_def ParsePageToken_def parseLimit_def
    Let_def split: err_splits bool.split)

lemma errs_unique: "errs m \<Longrightarrow> errs (unique_conflict m)"
  by (auto simp: unique_conflict_def errs_def split: err_splits)

lemma errs_session: "errs (issueSession clk fr u d fam db)"
  by (auto simp: issueSession_def Let_def intro!: errs_bind split: err_splits)

lemma errs_login_finish: "errs (login_finish fr clk li u db)"
  by (auto simp: login_finish_def login_device_def Let_def intro!: errs_bind errs_session split: err_splits)

lemma errs_names: "errs (try_names base subject db name ks)"
  by (induction ks arbitrary: name) auto

lemma errs_register_tx: "errs (register_tx cfg w fr clk now ri email db)"
  by (auto simp: register_tx_def register_invite_def register_code_def consumeEmailCode_def Let_def
      intro!: errs_bind errs_unique errs_session split: err_splits)

lemma errs_login_txs:
  "errs (loginLocal_tx w fr clk li db)" "errs (loginExternal_tx w fr clk li ext db)"
  by (auto simp: loginLocal_tx_def loginExternal_tx_def uniqueExternalUsername_def Let_def
      intro!: errs_bind errs_unique errs_names errs_login_finish split: err_splits)

text \<open>The external account service must answer within the contract, too.\<close>

definition verifier_listed :: "(string \<Rightarrow> string \<Rightarrow> failure + ExtUser) option \<Rightarrow> bool" where
  "verifier_listed external \<longleftrightarrow> (\<forall>verify u p. external = Some verify \<longrightarrow> errs (verify u p))"

lemma errs_Register: "errs (fst (Register w fr clk now ri st))"
  by (auto simp: Register_def register_email_def Let_def intro!: errs_run_tx errs_register_tx split: err_splits)

lemma errs_Login: "verifier_listed external \<Longrightarrow> errs (fst (Login w external fr clk li st))"
  by (auto simp: Login_def loginExternal_def verifier_listed_def errs_def [of "f a b" for f a b]
      intro!: errs_run_tx errs_login_txs split: err_splits)

lemma errs_RequestEmailCode: "errs (fst (RequestEmailCode w mailer buf clk t email st))"
proof -
  have "upsert_email_code e r db = Inl x \<Longrightarrow> listed x" for e r db x by (rule errsD [OF _ errs_statements(11)])
  then show ?thesis by (auto simp: RequestEmailCode_def Let_def split: err_splits)
qed

lemma errs_tokens:
  "errs (fst (LookupAccess clk t token st))" "errs (fst (Refresh fr clk t token st))"
  by (auto simp: LookupAccess_def Refresh_def refresh_tx_def Let_def intro!: errs_run_tx errs_bind split: err_splits)

lemma errs_password:
  "errs (fst (ChangePassword w fr clk scope old new st))" "errs (fst (RevokeDevice clk scope d st))"
proof -
  have "errs (set_password w clk h u db)" for h u db by (auto simp: set_password_def intro!: errs_bind)
  then show "errs (fst (ChangePassword w fr clk scope old new st))"
    by (auto simp: ChangePassword_def run_tx_def errs_def split: err_splits)
  show "errs (fst (RevokeDevice clk scope d st))"
    by (auto simp: RevokeDevice_def revoke_tx_def run_tx_def Let_def split: err_splits)
qed

lemma errs_vault:
  "errs (GetVault scope st)" "errs (fst (InitVault scope env salt nonce wrapped pw st))"
  "errs (fst (PutPasswordWrap scope p st))"
proof -
  have "insert_vault u v db = Inl x \<Longrightarrow> listed x" for u v db x by (rule errsD [OF _ errs_statements(9)])
  then show "errs (fst (InitVault scope env salt nonce wrapped pw st))"
    by (auto simp: InitVault_def intro!: errs_run_tx split: err_splits)
qed (auto simp: GetVault_def PutPasswordWrap_def intro!: errs_run_tx errs_bind split: err_splits)

section \<open>Responses\<close>

text \<open>A response within the contract: an error of the table, or a success without error body.\<close>

definition contract_ok :: "Response \<Rightarrow> bool" where
  "contract_ok rs \<longleftrightarrow>
     (case rs_Body rs of
        Some (PError c ds) \<Rightarrow> (rs_Status rs, c) \<in> set error_table
      | _ \<Rightarrow> rs_Status rs \<in> {101, 200, 201, 204})"

lemma contract_error [simp]: "contract_ok (writeError hs e) \<longleftrightarrow> (err_Status e, err_Code e) \<in> set error_table"
  by (simp add: contract_ok_def writeError_def writeJSON_def)

lemma contract_failure: "listed e \<Longrightarrow> (err_Status (writeErr e), err_Code (writeErr e)) \<in> set error_table"
  by (cases e) (simp_all add: listed_def)

lemma contract_noContent [simp]: "contract_ok noContent"
  by (simp add: contract_ok_def noContent_def)

lemma contract_reply:
  "errs (fst res) \<Longrightarrow> (\<And>x. contract_ok (ok x)) \<Longrightarrow> contract_ok (fst (reply ok h res))"
  by (auto simp: reply_def errs_def contract_failure split: err_splits)

lemma contract_values [simp]:
  "(\<And>c ds. p \<noteq> PError c ds) \<Longrightarrow> contract_ok (writeJSON hs s p) \<longleftrightarrow> s \<in> {101, 200, 201, 204}"
  by (auto simp: contract_ok_def writeJSON_def split: payload.split)

text \<open>The checks refuse with errors of the table.\<close>

definition in_table :: "Error \<Rightarrow> bool" where
  "in_table e \<longleftrightarrow> (err_Status e, err_Code e) \<in> set error_table"

lemma decodeJSON_table: "decodeJSON fs zero r = Inl e \<Longrightarrow> in_table e"
  by (auto simp: decodeJSON_def in_table_def split: option.splits)

lemma parsePasswordWrap_table: "parsePasswordWrap pw = Inl e \<Longrightarrow> in_table e"
  by (auto simp: parsePasswordWrap_def in_table_def split: option.splits if_splits)

lemma validateEnvelope_table: "validateEnvelope env = Some e \<Longrightarrow> in_table e"
  by (auto simp: validateEnvelope_def in_table_def split: if_splits)

lemma parseLimit_table: "parseLimit v = Inl e \<Longrightarrow> in_table (writeErr e)"
  by (auto simp: parseLimit_def in_table_def split: if_splits option.splits)

lemma list_filter_table: "list_filter q = Inl e \<Longrightarrow> in_table e"
  using errs_clip_ops(7) [of "Get q ''page_token''"]
  by (auto simp: list_filter_def query_time_def Let_def errs_def in_table_def contract_failure
      split: if_splits option.splits sum.splits dest!: parseLimit_table)

lemma contract_refuse: "in_table e \<Longrightarrow> contract_ok (fst (refuse e h))"
  by (simp add: refuse_def in_table_def)

lemmas table = contract_refuse decodeJSON_table parsePasswordWrap_table validateEnvelope_table
  parseLimit_table list_filter_table

definition authed_contract :: "authed \<Rightarrow> bool" where
  "authed_contract f \<longleftrightarrow> (\<forall>ev r scope h. contract_ok (fst (f ev r scope h)))"

lemma authed_contracts:
  "authed_contract logout" "authed_contract changePassword" "authed_contract listDevices"
  "authed_contract (revokeDevice i)" "authed_contract getVault" "authed_contract putVault"
  "authed_contract putPasswordWrap" "authed_contract createClip" "authed_contract listClips"
  "authed_contract (getClip i)" "authed_contract (mutate kind i)" "authed_contract changes"
  "authed_contract beginSnapshot" "authed_contract (snapshotPage i)"
  unfolding authed_contract_def
  by (auto simp: authed_defs Let_def refuse_def in_table_def [symmetric]
      intro!: contract_reply errs_password errs_vault errs_clip_ops
      dest!: table(2-) split: err_splits)

lemma auth_contract: "(\<And>scope h. contract_ok (fst (f ev r scope h)) \<or> P (fst (f ev r scope h))) \<Longrightarrow>
    contract_ok (fst (auth f ev r h)) \<or> P (fst (auth f ev r h))"
  using errs_tokens(1) [of "ev_AuthClk ev" "ev_GoClk ev 0" "TrimPrefix (Get (rq_Header r) ''Authorization'') ''Bearer ''" "h_store h"]
  by (auto simp: auth_def Let_def refuse_def errs_def contract_failure split: err_splits)

lemma gate_contract: "gateKey now key n hs = (Some rs, hs') \<Longrightarrow> contract_ok rs"
  by (auto simp: gateKey_def split: if_splits)

lemma gated_contract: "(\<And>h. contract_ok (fst (f ev r h))) \<Longrightarrow> contract_ok (fst (gated n f ev r h))"
  by (auto simp: gated_def gateIP_def dest: gate_contract split: err_splits)

lemma public_contract:
  "contract_ok (fst (health ev r h))" "contract_ok (fst (readyz ev r h))" "contract_ok (fst (serverInfo ev r h))"
  "contract_ok (fst (register_passed ev r h))" "contract_ok (fst (emailCode_passed ev r h))"
  "contract_ok (fst (refresh ev r h))" "contract_ok (fst (refuse (New 404 NotFound) h))"
  by (auto simp: health_def readyz_def serverInfo_def register_passed_def emailCode_passed_def refresh_def
      Let_def refuse_def in_table_def [symmetric]
      intro!: contract_reply errs_Register errs_RequestEmailCode errs_tokens
      dest!: decodeJSON_table split: err_splits)

lemma login_contract: "verifier_listed (ev_External ev) \<Longrightarrow> contract_ok (fst (login_passed ev r h))"
  by (auto simp: login_passed_def Let_def refuse_def in_table_def [symmetric]
      intro!: contract_reply errs_Login dest!: decodeJSON_table dest: gate_contract split: err_splits)

text \<open>Every response, whatever the endpoint.\<close>

lemma served_in_contract:
  assumes "verifier_listed (ev_External ev)"
  shows "contract_ok (fst (serve ev r h))
    \<or> route r = WebsocketE \<and> ev_Socket ev = Inl (fst (serve ev r h))"
proof -
  have plain: "contract_ok (fst (auth f ev r h))" if "authed_contract f" for f
    using auth_contract [of f ev r "\<lambda>_. False" h] that by (simp add: authed_contract_def)
  have socket: "contract_ok (fst (websocket ev r scope h)) \<or> ev_Socket ev = Inl (fst (websocket ev r scope h))" for scope h
    by (auto simp: websocket_def contract_ok_def split: sum.split)
  show ?thesis
    unfolding serve_def
    using auth_contract [of websocket ev r "\<lambda>rs. ev_Socket ev = Inl rs" h] socket
    by (cases "route r") (auto simp: register_def emailCode_def login_def trashClip_def restoreClip_def purgeClip_def
      intro!: plain authed_contracts public_contract gated_contract login_contract assms)
qed

text \<open>
  C22: No response leaves the error contract.  Whatever the request, the answer is a success
  (101, 200, 201, 204) or an error body whose status and code are a pair of the table, provided
  the external account service fails within the table, too; the one other response is that of
  the WebSocket library when it refuses an upgrade.  In particular 413 is never sent.
\<close>

theorem serve_contract:
  assumes "verifier_listed (ev_External ev)"
  shows "contract_ok (fst (serve ev r h))
    \<or> route r = WebsocketE \<and> ev_Socket ev = Inl (fst (serve ev r h))"
  by (rule served_in_contract [OF assms])

theorem serve_contract_witness: "contract_ok (fst (serve env1 logout1 handler1))"
  using serve_contract [of env1 logout1 handler1] by (simp add: verifier_listed_def)

end
