(* ===== verification/Marshal.thy ===== *)
theory Marshal
  imports Json Canon
begin

text \<open>
  \<open>json.Marshal\<close> of flat objects, as the server sends them to the external account service, and
  the round trip: what the decoder of theory Json reads of it is what was encoded.
\<close>

section \<open>Strings\<close>

definition html_safe :: "char \<Rightarrow> bool" where
  "html_safe c \<longleftrightarrow> 32 \<le> ord c \<and> ord c < 128 \<and> c \<noteq> quote \<and> c \<noteq> backslash \<and> c \<notin> set ''&<>''"

definition escape_ascii :: "char \<Rightarrow> string" where
  "escape_ascii c =
     (if html_safe c then [c]
      else if c = quote \<or> c = backslash then [backslash, c]
      else if c = chr 8 then [backslash, CHR ''b'']
      else if c = chr 12 then [backslash, CHR ''f'']
      else if c = chr 10 then [backslash, CHR ''n'']
      else if c = chr 13 then [backslash, CHR ''r'']
      else if c = chr 9 then [backslash, CHR ''t'']
      else backslash # ''u00'' @ [hex_digit (ord c div 16), hex_digit (ord c mod 16)])"

function escape_string :: "string \<Rightarrow> string" where
  "escape_string s =
     (case s of
        [] \<Rightarrow> []
      | c # t \<Rightarrow>
          if ord c < 128 then escape_ascii c @ escape_string t
          else case utf8_width (map ord s) of
            None \<Rightarrow> backslash # ''ufffd'' @ escape_string t
          | Some n \<Rightarrow>
              if take n s = map chr [226, 128, 168] then backslash # ''u2028'' @ escape_string (drop n s)
              else if take n s = map chr [226, 128, 169] then backslash # ''u2029'' @ escape_string (drop n s)
              else take n s @ escape_string (drop n s))"
  by pat_completeness auto
termination
  by (relation "measure length") (auto dest: utf8_width_pos)

declare escape_string.simps [simp del]

definition marshal_string :: "string \<Rightarrow> string" where
  "marshal_string s = quote # escape_string s @ [quote]"

lemma quote_ords [simp]: "ord quote = 34" "ord backslash = 92" "quote \<noteq> backslash" "backslash \<noteq> quote"
  by (simp_all add: quote_def backslash_def ord_eq_iff [symmetric] del: ord_eq_iff)

lemma utf8_width_append: "utf8_width s = Some n \<Longrightarrow> utf8_width (s @ t) = Some n"
  by (cases s rule: utf8_width.cases; cases "tl s"; cases "tl (tl s)"; cases "tl (tl (tl s))")
    (auto simp: utf8_width.simps split: if_splits)

lemma hex_val_digit: "k < 16 \<Longrightarrow> hex_val (hex_digit k) = Some k"
  by (auto simp: hex_val_def hex_digit_def digit_def is_digit_def)

lemma hex_val_literals [simp]:
  "hex_val (CHR ''0'') = Some 0" "hex_val (CHR ''2'') = Some 2" "hex_val (CHR ''8'') = Some 8"
  "hex_val (CHR ''9'') = Some 9" "hex_val (CHR ''f'') = Some 15" "hex_val (CHR ''d'') = Some 13"
  by code_simp+

lemma string_body_quote [simp]: "string_body (quote # r) = Some ([], r)"
  by (simp add: string_body.simps)

lemma string_body_plain:
  "32 \<le> ord c \<Longrightarrow> ord c < 128 \<Longrightarrow> c \<noteq> quote \<Longrightarrow> c \<noteq> backslash \<Longrightarrow>
     string_body (c # r) = map_option (\<lambda>(y, r). (c # y, r)) (string_body r)"
  by (subst string_body.simps) (simp add: utf8_width.simps)

lemma string_body_escape:
  "escape t = Some (x, u) \<Longrightarrow>
     string_body (backslash # t) = map_option (\<lambda>(y, r). (x @ y, r)) (string_body u)"
  by (subst string_body.simps) simp

lemma utf8_width_take: "utf8_width s = Some n \<Longrightarrow> utf8_width (take n s) = Some n"
  by (cases s rule: utf8_width.cases; cases "tl s"; cases "tl (tl s)"; cases "tl (tl (tl s))")
    (auto simp: utf8_width.simps split: if_splits)

lemma utf8_width_ascii: "a < 128 \<Longrightarrow> utf8_width (a # s) = Some 1"
  by (simp add: utf8_width.simps)

lemma rune_string_ascii: "ord c < 128 \<Longrightarrow> rune_string (ord c) = [c]"
  by (simp add: rune_string_def encode_rune_def)

lemma letter_neq [simp]:
  "CHR ''b'' \<noteq> quote" "CHR ''f'' \<noteq> quote" "CHR ''n'' \<noteq> quote" "CHR ''r'' \<noteq> quote" "CHR ''t'' \<noteq> quote"
  "CHR ''u'' \<noteq> quote" "CHR ''b'' \<noteq> backslash" "CHR ''f'' \<noteq> backslash" "CHR ''n'' \<noteq> backslash"
  "CHR ''r'' \<noteq> backslash" "CHR ''t'' \<noteq> backslash" "CHR ''u'' \<noteq> backslash"
  by code_simp+

lemma escape_hex:
  assumes "ord c < 32 \<or> ord c = 38 \<or> ord c = 60 \<or> ord c = 62"
  shows "escape (''u00'' @ hex_digit (ord c div 16) # hex_digit (ord c mod 16) # r) = Some ([c], r)"
proof -
  have k: "ord c div 16 < 16" "ord c mod 16 < 16" "16 * (ord c div 16) + ord c mod 16 = ord c" "ord c < 128"
    using assms by auto
  from k(1,2) have "hex4 (''00'' @ hex_digit (ord c div 16) # hex_digit (ord c mod 16) # r) = Some (ord c)"
    using k(3) by (simp add: hex4_def hex_val_digit)
  with k(4) show ?thesis
    by (simp add: escape_def surrogate_def rune_string_ascii)
qed

lemma escape_short:
  "escape (quote # r) = Some ([quote], r)" "escape (backslash # r) = Some ([backslash], r)"
  "escape (CHR ''b'' # r) = Some ([chr 8], r)" "escape (CHR ''f'' # r) = Some ([chr 12], r)"
  "escape (CHR ''n'' # r) = Some ([chr 10], r)" "escape (CHR ''r'' # r) = Some ([chr 13], r)"
  "escape (CHR ''t'' # r) = Some ([chr 9], r)"
  by (simp_all add: escape_def)

lemma ord_ampersand [simp]: "ord (CHR ''&'') = 38" "ord (CHR ''<'') = 60" "ord (CHR ''>'') = 62"
  by (simp_all add: ord_def)

lemma escape_ascii_decodes:
  assumes "ord c < 128"
  shows "string_body (escape_ascii c @ r) = map_option (\<lambda>(y, r). (c # y, r)) (string_body r)"
proof (cases "html_safe c")
  case True
  then show ?thesis by (simp add: escape_ascii_def html_safe_def string_body_plain)
next
  case False
  with assms have c: "c = quote \<or> c = backslash \<or> ord c < 32 \<or> ord c = 38 \<or> ord c = 60 \<or> ord c = 62"
    by (auto simp: html_safe_def)
  note simps = escape_ascii_def False string_body_escape [OF escape_short(1)] string_body_escape [OF escape_short(2)]
    string_body_escape [OF escape_short(3)] string_body_escape [OF escape_short(4)]
    string_body_escape [OF escape_short(5)] string_body_escape [OF escape_short(6)]
    string_body_escape [OF escape_short(7)]
  show ?thesis
  proof (cases "c = quote \<or> c = backslash \<or> c \<in> {chr 8, chr 12, chr 10, chr 13, chr 9}")
    case True
    then show ?thesis by (auto simp: simps)
  next
    case False
    with c have "ord c < 32 \<or> ord c = 38 \<or> ord c = 60 \<or> ord c = 62" by blast
    from string_body_escape [OF escape_hex [OF this]] False show ?thesis by (simp add: simps)
  qed
qed

lemma hex4_literals [simp]:
  "hex4 (''fffd'' @ r) = Some 65533" "hex4 (''2028'' @ r) = Some 8232" "hex4 (''2029'' @ r) = Some 8233"
  by (simp_all add: hex4_def)

lemma escape_separators:
  "escape (''u2028'' @ r) = Some (map chr [226, 128, 168], r)"
  "escape (''u2029'' @ r) = Some (map chr [226, 128, 169], r)"
  using hex4_literals(2,3) [of r]
  by (simp_all add: escape_def surrogate_def rune_string_def encode_rune_def)

lemma string_body_runes:
  assumes w: "utf8_width (map ord s) = Some n" and big: "128 \<le> ord (hd s)"
  shows "string_body (take n s @ r) = map_option (\<lambda>(y, r). (take n s @ y, r)) (string_body r)"
proof -
  from utf8_width_pos [OF w] have n: "0 < n" "n \<le> length s" by auto
  then obtain c t where ct: "take n s = c # t" "c = hd s" by (cases s; cases n) auto
  have "utf8_width (map ord (take n s @ r)) = Some n"
    using utf8_width_append [OF utf8_width_take [OF w], of "map ord r"] by (simp add: take_map)
  moreover have "c \<noteq> quote" "c \<noteq> backslash" using big ct by auto
  moreover have "n = Suc (length t)" using arg_cong [OF ct(1), of length] n by simp
  ultimately show ?thesis
    using big ct by (subst string_body.simps) simp
qed

lemma ValidString_Cons_ascii: "ord c < 128 \<Longrightarrow> ValidString (c # s) \<longleftrightarrow> ValidString s"
  by (simp add: ValidString_def utf8_width_ascii)

lemma ValidString_ascii: "\<forall>c\<in>set s. ord c < 128 \<Longrightarrow> ValidString s"
  using rune_widths_ascii [of "map ord s"] by (simp add: ValidString_def)

lemma ValidString_drop:
  assumes "ValidString s" and "s \<noteq> []"
  obtains n where "utf8_width (map ord s) = Some n" "ValidString (drop n s)"
proof -
  from assms(2) obtain a t where s: "map ord s = a # t" by (cases s) auto
  with assms(1) obtain n where "utf8_width (map ord s) = Some n"
    by (cases "utf8_width (a # t)") (auto simp: ValidString_def)
  moreover have "drop n (a # t) = map ord (drop n s)" by (metis s drop_map)
  ultimately show thesis using assms(1) s that by (simp add: ValidString_def)
qed

lemma escape_string_decodes:
  "ValidString s \<Longrightarrow> string_body (escape_string s @ quote # r) = Some (s, r)"
proof (induction s rule: escape_string.induct)
  case (1 s)
  show ?case
  proof (cases s)
    case Nil
    then show ?thesis by (simp add: escape_string.simps)
  next
    case (Cons c t)
    show ?thesis
    proof (cases "ord c < 128")
      case True
      with 1(1) [OF Cons True] 1(6) Cons have "string_body (escape_string t @ quote # r) = Some (t, r)"
        by (simp add: ValidString_Cons_ascii)
      with True show ?thesis
        by (subst escape_string.simps) (simp add: Cons escape_ascii_decodes)
    next
      case False
      from ValidString_drop [OF 1(6)] Cons obtain n where
        n: "utf8_width (map ord s) = Some n" "ValidString (drop n s)" by auto
      have tail: "string_body (escape_string (drop n s) @ quote # r) = Some (drop n s, r)"
        using 1(3) [OF Cons False n(1)] 1(4) [OF Cons False n(1)] 1(5) [OF Cons False n(1)] n(2) by blast
      let ?rest = "escape_string (drop n s) @ quote # r"
      have raw: "string_body (take n s @ ?rest) = Some (s, r)"
        using string_body_runes [OF n(1), of ?rest] False Cons tail by simp
      have esc: "string_body (backslash # t @ ?rest) = Some (s, r)"
        if "take n s = x" "escape (t @ ?rest) = Some (x, ?rest)" for t x
        unfolding string_body_escape [OF that(2)] tail that(1) [symmetric] by simp
      have "escape_string s =
          (if take n s = map chr [226, 128, 168] then backslash # ''u2028'' @ escape_string (drop n s)
           else if take n s = map chr [226, 128, 169] then backslash # ''u2029'' @ escape_string (drop n s)
           else take n s @ escape_string (drop n s))"
        by (subst escape_string.simps) (use False Cons n(1) in simp)
      then show ?thesis
        using raw esc [OF _ escape_separators(1)] esc [OF _ escape_separators(2)] by (simp split: if_split)
    qed
  qed
qed

section \<open>Flat objects\<close>

fun marshal_value :: "json \<Rightarrow> string" where
  "marshal_value JNull = ''null''"
| "marshal_value (JBool b) = (if b then ''true'' else ''false'')"
| "marshal_value (JNum x) = x"
| "marshal_value (JStr s) = marshal_string s"
| "marshal_value _ = []"

text \<open>A value whose encoding the decoder reads back: a valid string, or an integer.\<close>

definition flat :: "json \<Rightarrow> bool" where
  "flat v \<longleftrightarrow> (\<exists>s. v = JStr s \<and> ValidString s) \<or> (\<exists>n. v = JNum (FormatInt n))"

definition marshal_member :: "string \<times> json \<Rightarrow> string" where
  "marshal_member m = marshal_string (fst m) @ '':'' @ marshal_value (snd m)"

fun marshal_members :: "(string \<times> json) list \<Rightarrow> string" where
  "marshal_members [] = []"
| "marshal_members [m] = marshal_member m"
| "marshal_members (m # ms) = marshal_member m @ '','' @ marshal_members ms"

definition marshal_object :: "(string \<times> json) list \<Rightarrow> string" where
  "marshal_object ms = ''{'' @ marshal_members ms @ ''}''"

lemma skip_ws_Cons_id [simp]: "\<not> is_ws c \<Longrightarrow> skip_ws (c # s) = c # s"
  by (simp add: skip_ws_def)

lemma not_ws [simp]:
  "\<not> is_ws quote" "\<not> is_ws (CHR '':'')" "\<not> is_ws (CHR '','')" "\<not> is_ws (CHR ''}'')" "\<not> is_ws (CHR ''{'')"
  "\<not> is_ws (CHR ''-'')" "is_digit c \<Longrightarrow> \<not> is_ws c"
  by (auto simp: is_ws_def is_digit_def) (simp_all add: ord_def)

definition ender :: "char \<Rightarrow> bool" where "ender c \<longleftrightarrow> c = CHR '','' \<or> c = CHR ''}''"

lemma ender_props: "ender e \<Longrightarrow> \<not> is_digit e \<and> e \<notin> {CHR ''.'', CHR ''e'', CHR ''E''} \<and> \<not> is_ws e"
  by (auto simp: ender_def) (simp_all add: is_digit_def ord_def)

lemma digits_show_nat: "ender e \<Longrightarrow> digits (show_nat k @ e # r) = show_nat k"
  using show_nat_digits [of k] ender_props [of e]
  by (simp add: digits_def takeWhile_append list_all_iff)

lemma int_part_show_nat: "ender e \<Longrightarrow> int_part (show_nat k @ e # r) = Some (show_nat k)"
  using seqRE_show_nat [of k] by (auto simp: int_part_def digits_show_nat seqRE_def)

lemma number_FormatInt: "ender e \<Longrightarrow> number (FormatInt n @ e # r) = Some (FormatInt n, e # r)"
  using ender_props [of e] is_digit_not_sign [OF hd_show_nat_digit]
  by (auto simp: number_def FormatInt_def Let_def int_part_show_nat frac_part_def exp_part_def hd_append)

lemma hd_FormatInt: "hd (FormatInt n) = CHR ''-'' \<or> is_digit (hd (FormatInt n))" "FormatInt n \<noteq> []"
  using hd_show_nat_digit by (auto simp: FormatInt_def)

lemma parse_flat:
  assumes "flat v" and "ender e"
  shows "parse_value (Suc n) d (marshal_value v @ e # r) = Some (v, e # r)"
proof -
  have q: "quote \<noteq> CHR ''{''" "quote \<noteq> CHR ''[''" "CHR ''-'' \<noteq> quote" by code_simp+
  from assms(1) show ?thesis unfolding flat_def
  proof (elim disjE exE conjE)
    fix s assume "v = JStr s" "ValidString s"
    with q show ?thesis by (simp add: marshal_string_def escape_string_decodes)
  next
    fix k assume v: "v = JNum (FormatInt k)"
    obtain c t where ct: "FormatInt k = c # t" using hd_FormatInt(2) [of k] by (cases "FormatInt k") auto
    then have c: "c = CHR ''-'' \<or> is_digit c" using hd_FormatInt(1) [of k] by simp
    then have "\<not> is_ws c" by auto
    moreover from c have "c \<notin> {CHR ''{'', CHR ''['', quote, CHR ''n'', CHR ''t'', CHR ''f''}"
      using quote_ords(1) q(3) by (auto simp: is_digit_def) (simp_all add: ord_def)
    ultimately show ?thesis
      using number_FormatInt [OF assms(2), of k r] by (simp add: v ct HasPrefix_def)
  qed
qed

lemma parse_member:
  assumes "flat v" and "ValidString k" and "ender e"
  shows "parse_members (Suc (Suc n)) d (marshal_member (k, v) @ e # r)
    = (if e = CHR ''}'' then Some ([(k, v)], r)
       else map_option (\<lambda>(ms, r). ((k, v) # ms, r)) (parse_members (Suc n) d r))"
  using ender_props [OF assms(3)] assms(3)
  by (subst parse_members.simps(2))
    (auto simp: marshal_member_def marshal_string_def escape_string_decodes assms(2) parse_flat [OF assms(1,3)]
      ender_def simp del: parse_members.simps parse_value.simps)

lemma parse_members_flat:
  assumes "ms \<noteq> []" and "\<forall>(k, v)\<in>set ms. ValidString k \<and> flat v" and "length ms < n"
  shows "parse_members n d (marshal_members ms @ ''}'' @ r) = Some (ms, r)"
  using assms
proof (induction ms arbitrary: n rule: marshal_members.induct)
  case (2 m)
  then obtain k v n' where "m = (k, v)" "n = Suc (Suc n')" by (cases m; cases n; cases "n - 1") auto
  with 2 parse_member [of v k "CHR ''}''" n' d r] show ?case by (simp add: ender_def)
next
  case (3 m m' ms)
  then obtain k v n' where m: "m = (k, v)" and n: "n = Suc (Suc n')" by (cases m; cases n; cases "n - 1") auto
  from 3 have "parse_members (Suc n') d (marshal_members (m' # ms) @ ''}'' @ r) = Some (m' # ms, r)"
    by (intro 3(1)) (simp_all add: n)
  with 3(3) parse_member [of v k "CHR '',''" n' d "marshal_members (m' # ms) @ ''}'' @ r"] show ?case
    by (simp add: n m ender_def del: parse_members.simps)
qed simp

lemma marshal_members_length: "length ms \<le> length (marshal_members ms)"
  by (induction ms rule: marshal_members.induct) (auto simp: marshal_member_def)

lemma marshal_members_quote: "ms \<noteq> [] \<Longrightarrow> \<exists>t. marshal_members ms = quote # t"
  by (cases ms rule: marshal_members.cases) (auto simp: marshal_member_def marshal_string_def)

text \<open>
  The decoder reads back what the encoder writes, also when something follows it.
\<close>

lemma parse_marshal:
  assumes "\<forall>(k, v)\<in>set ms. ValidString k \<and> flat v"
  shows "parse_value (2 * length (marshal_object ms @ r) + 1) max_depth (marshal_object ms @ r) = Some (JObj ms, r)"
proof (cases "ms = []")
  case True
  then show ?thesis by (simp add: marshal_object_def max_depth_def)
next
  case False
  then obtain t where t: "marshal_members ms = quote # t" using marshal_members_quote by blast
  have "quote \<noteq> CHR ''}''" by code_simp
  with parse_members_flat [OF False assms, of "2 * length (marshal_object ms @ r)" "max_depth - 1" r]
    marshal_members_length [of ms] t show ?thesis
    by (simp add: marshal_object_def max_depth_def del: parse_members.simps)
qed

lemma read_value_marshal:
  assumes "\<forall>(k, v)\<in>set ms. ValidString k \<and> flat v"
  shows "read_value (marshal_object ms @ r) = Some (JObj ms)"
  using parse_marshal [OF assms, of r] by (simp add: read_value_def)

lemma read_all_marshal:
  assumes "\<forall>(k, v)\<in>set ms. ValidString k \<and> flat v"
  shows "read_all (marshal_object ms) = Some (JObj ms)"
  using parse_marshal [OF assms, of "[]"] by (simp add: read_all_def skip_ws_def)

lemma escape_string_length: "length (escape_string s) \<le> 6 * length s"
proof (induction s rule: escape_string.induct)
  case (1 s)
  have ascii: "length (escape_ascii c) \<le> 6" for c by (simp add: escape_ascii_def)
  show ?case
  proof (cases s)
    case (Cons c t)
    note IH = 1(1,2) [OF Cons] 1(3-5) [OF Cons]
    show ?thesis
    proof (cases "ord c < 128")
      case True
      with IH(1) ascii [of c] show ?thesis by (subst escape_string.simps) (simp add: Cons)
    next
      case False
      show ?thesis
      proof (cases "utf8_width (map ord s)")
        case None
        with IH(2) False show ?thesis by (subst escape_string.simps) (simp add: Cons)
      next
        case (Some n)
        with utf8_width_pos [OF Some] have "0 < n" "n \<le> length s" by auto
        moreover have "length (escape_string (drop n s)) \<le> 6 * (length s - n)"
          using IH(3-5) [OF False Some] by (cases "take n s = map chr [226, 128, 168]";
            cases "take n s = map chr [226, 128, 169]") (simp_all add: length_drop)
        ultimately show ?thesis
          by (subst escape_string.simps) (use False Some Cons in \<open>auto simp: min_def split: list.split\<close>)
      qed
    qed
  qed (simp add: escape_string.simps)
qed

end
