(* ===== verification/Uploads.thy ===== *)
theory Uploads
  imports Errors Marshal
begin

text \<open>
  What a client uploads is what every client of the account downloads: the encodings are
  canonical, the row holds the decoded bytes, and nothing changes the content of a clip.
\<close>

lemma create_tx_content:
  assumes "create_tx cfg clk scope env nonce ct h db = Inr (res, db')" and "cr_Created res"
    and "env_Nonce env = Encode nonce" "env_Ciphertext env = Encode ct"
  shows "\<exists>r. fmlookup (clips db') (sc_UserID scope, env_ID env) = Some r
    \<and> Envelope.truncate (clip_of_row (env_ID env) r) = env"
  using assms
  by (auto simp: create_tx_def Let_def res clip_of_row_def Envelope.truncate_def split: if_splits option.splits)

lemma same_content_envelope:
  "same_content r r' \<Longrightarrow> Envelope.truncate (clip_of_row c r') = Envelope.truncate (clip_of_row c r)"
  by (cases r, cases r') (simp add: same_content_def clip_of_row_def Envelope.truncate_def)

text \<open>What a 201 says of the request.\<close>

lemma createClip_201:
  assumes "createClip ev r scope h = (rs, h1)" and "rs_Status rs = 201"
    and "decodeJSON envelope_fields zero_envelope r = Inr env"
  obtains nonce ct res where "CreateClip (ev_Clk ev) scope env nonce ct
      (CreateRequestHash (env_ID env) (env_VaultID env) (env_SourceDeviceID env) (env_FormatVersion env)
        (env_KeyEpoch env) (env_ContentType env) nonce ct (env_DeliveryIntent env)) (h_store h) = (Inr res, h_store h1)"
    and "cr_Created res" and "env_Nonce env = Encode nonce" "env_Ciphertext env = Encode ct" and "UUID (env_ID env)"
proof -
  have no: "err_Status e \<noteq> 201" if "in_table e" for e
    using that by (auto simp: in_table_def error_table_def)
  from assms(1,2) obtain nonce ct where v: "validateEnvelope env = None" and n: "Decode (env_Nonce env) 12 = Some nonce"
    and c: "Decode (env_Ciphertext env) (- 1) = Some ct" and l: "\<not> (length ct < 17 \<or> length ct > 65552)"
    by (auto simp: createClip_def assms(3) no validateEnvelope_table writeError_def writeJSON_def
        split: option.splits if_splits)
  define hash where "hash = CreateRequestHash (env_ID env) (env_VaultID env) (env_SourceDeviceID env)
    (env_FormatVersion env) (env_KeyEpoch env) (env_ContentType env) nonce ct (env_DeliveryIntent env)"
  obtain x st where op: "CreateClip (ev_Clk ev) scope env nonce ct hash (h_store h) = (x, st)" by fastforce
  have x: "in_table (writeErr e)" if "x = Inl e" for e
    using errs_clip_ops(1) [of "ev_Clk ev" scope env nonce ct hash "h_store h"] that
    by (simp add: op errs_def in_table_def contract_failure)
  from assms(1,2) v n c l op x no obtain res where "x = Inr res" "cr_Created res" "h_store h1 = st"
    by (auto simp: createClip_def assms(3) hash_def [symmetric] Let_def writeError_def writeJSON_def
        split: sum.splits if_splits)
  with op show thesis
    using that [of nonce ct res] Decode_canonical [OF n] Decode_canonical [OF c] validateEnvelope_UUID [OF v]
    by (auto simp: hash_def)
qed

lemma uploaded_served:
  assumes syn: "synced t0 (h_store h)" and clk: "mono (ev_Clk ev)" "t0 \<le> ev_Clk ev 0"
    and post: "createClip ev r scope h = (rs, h1)" "rs_Status rs = 201"
    and body: "decodeJSON envelope_fields zero_envelope r = Inr env"
    and run: "reaches (done_by ev) (h_store h1) t (h_store h2)" and same: "sc_UserID scope' = sc_UserID scope"
  shows "\<exists>rs'. getClip (env_ID env) ev' r' scope' h2 = (rs', h2)
    \<and> ((\<exists>clip. rs_Status rs' = 200 \<and> rs_Body rs' = Some (PClip clip) \<and> Envelope.truncate clip = env)
       \<or> rs_Status rs' = 410)"
proof -
  from createClip_201 [OF post body] obtain nonce ct res hash where
    op: "CreateClip (ev_Clk ev) scope env nonce ct hash (h_store h) = (Inr res, h_store h1)" "cr_Created res"
    and canon: "env_Nonce env = Encode nonce" "env_Ciphertext env = Encode ct" and uuid: "UUID (env_ID env)" by metis
  let ?u = "sc_UserID scope" and ?c = "env_ID env"
  from op obtain db where "create_tx (st_Cfg (h_store h)) (ev_Clk ev) scope env nonce ct hash (st_Pool (h_store h)) = Inr (res, db)"
    "st_Pool (h_store h1) = db"
    by (cases rule: CreateClip_cases) auto
  from create_tx_content [OF this(1) op(2) canon] this(2) obtain r0 where
    r0: "fmlookup (clips (st_Pool (h_store h1))) (?u, ?c) = Some r0" "Envelope.truncate (clip_of_row ?c r0) = env" by blast
  have syn1: "synced (done_by ev) (h_store h1)"
    using srv.step [OF sys_step.create [OF op(1) uuid clk] synced_start [OF syn]] by (simp add: since_def done_by_def)
  from run_evolves [OF run syn1, of ?u] r0(1)
  have "(\<exists>r'. fmlookup (clips (st_Pool (h_store h2))) (?u, ?c) = Some r' \<and> same_content r0 r')
      \<or> life_of (st_Pool (h_store h2)) ?u ?c = Purged"
    unfolding evolves_def content_kept_def by blast
  then show ?thesis
  proof (elim disjE exE conjE)
    fix r' assume r': "fmlookup (clips (st_Pool (h_store h2))) (?u, ?c) = Some r'" "same_content r0 r'"
    from same_content_envelope [OF r'(2), of ?c] r0(2) have "Envelope.truncate (clip_of_row ?c r') = env" by simp
    with r'(1) uuid same show ?thesis
      by (auto simp: getClip_def reply_def GetClip_def scanClip_def writeJSON_def writeError_def
          split: option.split bool.split)
  next
    assume "life_of (st_Pool (h_store h2)) ?u ?c = Purged"
    from purged_row [OF run_inv [OF run syn1] this] obtain i p v q where
      "fmlookup (clip_ids (st_Pool (h_store h2))) (?u, ?c) = Some i" "fmlookup (clips (st_Pool (h_store h2))) (?u, ?c) = None"
      "ci_purged_at i = Some p" "ci_final_version i = Some v" "ci_final_seq i = Some q" .
    with uuid same show ?thesis
      by (simp add: getClip_def reply_def GetClip_def scanClip_def writeError_def writeJSON_def)
  qed
qed

text \<open>
  C27: What is uploaded is what is downloaded.  After a POST of a clip was answered with 201, in
  every later state and for every device of the account a GET of its identifier answers with an
  envelope that is equal to the uploaded one in every field, or with 410 because the clip was
  purged or its time in the trash is over; nothing else.
\<close>

theorem upload_download:
  assumes syn: "synced t0 (h_store h)" and clk: "mono (ev_Clk ev)" "t0 \<le> ev_Clk ev 0"
    and post: "createClip ev r scope h = (rs, h1)" "rs_Status rs = 201"
    and body: "decodeJSON envelope_fields zero_envelope r = Inr env"
    and run: "reaches (done_by ev) (h_store h1) t (h_store h2)" and same: "sc_UserID scope' = sc_UserID scope"
  shows "\<exists>rs'. getClip (env_ID env) ev' r' scope' h2 = (rs', h2)
    \<and> ((\<exists>clip. rs_Status rs' = 200 \<and> rs_Body rs' = Some (PClip clip) \<and> Envelope.truncate clip = env)
       \<or> rs_Status rs' = 410)"
  by (rule uploaded_served [OF assms])

section \<open>The body of a client\<close>

definition envelope_members :: "Envelope \<Rightarrow> (string \<times> json) list" where
  "envelope_members env =
     [(''id'', JStr (env_ID env)), (''vault_id'', JStr (env_VaultID env)),
      (''source_device_id'', JStr (env_SourceDeviceID env)),
      (''format_version'', JNum (FormatInt (env_FormatVersion env))),
      (''key_epoch'', JNum (FormatInt (env_KeyEpoch env))), (''content_type'', JStr (env_ContentType env)),
      (''nonce'', JStr (env_Nonce env)), (''ciphertext'', JStr (env_Ciphertext env)),
      (''delivery_intent'', JStr (env_DeliveryIntent env))]"

definition valid_envelope :: "Envelope \<Rightarrow> bool" where
  "valid_envelope env \<longleftrightarrow>
     (\<forall>s\<in>set [env_ID env, env_VaultID env, env_SourceDeviceID env, env_ContentType env, env_Nonce env,
        env_Ciphertext env, env_DeliveryIntent env]. ValidString s)
     \<and> in_int8 (env_FormatVersion env) \<and> in_int8 (env_KeyEpoch env)"

lemma decode_envelope:
  assumes "valid_envelope env" and "rq_Body r = marshal_object (envelope_members env) @ junk"
    and "length (marshal_object (envelope_members env)) \<le> 131072"
  shows "decodeJSON envelope_fields zero_envelope r = Inr env"
proof -
  let ?b = "marshal_object (envelope_members env)"
  have names: "list_all (\<lambda>c. ord c < 128) k" if "k \<in> fst ` set (envelope_members env)" for k
    using that by (auto simp: envelope_members_def) (simp_all add: ord_def)
  have "take 131072 (rq_Body r) = ?b @ take (131072 - length ?b) junk" using assms(2,3) by simp
  moreover have "\<forall>(k, v)\<in>set (envelope_members env). ValidString k \<and> flat v"
    using assms(1) names by (auto simp: envelope_members_def valid_envelope_def flat_def list_all_iff intro!: ValidString_ascii)
  ultimately have "read_value (take 131072 (rq_Body r)) = Some (JObj (envelope_members env))"
    using read_value_marshal by simp
  with assms(1) show ?thesis
    by (simp add: decodeJSON_def decode_struct_def envelope_members_def envelope_fields_def select_field_def
        string_field_def int_field_def ParseInt_FormatInt valid_envelope_def zero_envelope_def)
qed

text \<open>A sample upload, with any ciphertext of twenty bytes.\<close>

definition sealed :: "bytes \<Rightarrow> Envelope" where
  "sealed ct = (envelope clip1)\<lparr>env_Ciphertext := Encode ct\<rparr>"

definition post_of :: "bytes \<Rightarrow> Request" where
  "post_of ct = \<lparr>rq_Method = ''POST'', rq_Path = [''api'', ''v1'', ''clips''], rq_Query = [],
     rq_Header = [(''Authorization'', ''Bearer '' @ token1)],
     rq_Body = marshal_object (envelope_members (sealed ct)), rq_RemoteAddr = ''10.0.0.1:4711''\<rparr>"

lemma ord_Encode: "c \<in> set (Encode b) \<Longrightarrow> ord c < 128"
  using b64_encode_alphabet [of c True b] by (auto simp: Encode_def ord_b64_char)

lemma sample_text: "\<forall>s\<in>set [clip1, vault1, device1, ''text/plain'', Encode nonce1, Encode ct, ''live''].
    list_all (\<lambda>c. ord c < 128) s"
  using ord_Encode unfolding clip1_def vault1_def device1_def by (simp add: list_all_iff) (simp add: ord_def)

lemma sealed_simps [simp]: "env_ID (sealed ct) = clip1" "env_VaultID (sealed ct) = vault1"
  "env_SourceDeviceID (sealed ct) = device1" "env_FormatVersion (sealed ct) = 1" "env_KeyEpoch (sealed ct) = 1"
  "env_ContentType (sealed ct) = ''text/plain''" "env_Nonce (sealed ct) = Encode nonce1"
  "env_Ciphertext (sealed ct) = Encode ct" "env_DeliveryIntent (sealed ct) = ''live''"
  by (simp_all add: sealed_def envelope_def)

lemma decode_post:
  assumes "length ct = 20"
  shows "decodeJSON envelope_fields zero_envelope (post_of ct) = Inr (sealed ct)"
proof (rule decode_envelope [where junk = "[]"])
  show "valid_envelope (sealed ct)"
    using sample_text [of ct] by (auto simp: valid_envelope_def in_int8_def list_all_iff intro!: ValidString_ascii)
  have len: "length (escape_string s) \<le> 300" if "length s \<le> 50" for s
    using escape_string_length [of s] that by simp
  have enc: "length (Encode nonce1) \<le> 50" "length (Encode ct) \<le> 50"
    using assms by (simp_all add: Encode_def length_b64_encode nonce1_def)
  show "length (marshal_object (envelope_members (sealed ct))) \<le> 131072"
    using len [of clip1] len [of vault1] len [of device1] len [of "''text/plain''"] len [OF enc(1)]
      len [OF enc(2)] len [of "''live''"] len [of "''id''"] len [of "''vault_id''"]
      len [of "''source_device_id''"] len [of "''format_version''"] len [of "''key_epoch''"]
      len [of "''content_type''"] len [of "''nonce''"] len [of "''ciphertext''"] len [of "''delivery_intent''"]
    by (simp add: marshal_object_def envelope_members_def marshal_member_def marshal_string_def
        clip1_def vault1_def device1_def FormatInt_def show_nat.simps)
qed (simp add: post_of_def)

lemma create_any:
  assumes "length h = 32" "length ct = 20"
  shows "\<exists>st. CreateClip (\<lambda>_. 10) scope1 (sealed ct) nonce1 ct h store0
    = (Inr \<lparr>cr_Receipt = receipt1, cr_Created = True\<rparr>, st)"
  using assms
  by (simp add: sealed_def CreateClip_def create_tx_def run_tx_def Let_def statement_defs check_defs sample_defs
      nonce1_def i64_def notify_def receipt1_def)

definition env2 :: Env where "env2 = env1\<lparr>ev_Clk := (\<lambda>_. 10)\<rparr>"

lemma post_created:
  assumes l: "length ct = 20"
  shows "\<exists>rs h1. createClip env2 (post_of ct) scope1 (handler1\<lparr>h_store := store0\<rparr>) = (rs, h1) \<and> rs_Status rs = 201"
proof -
  have "ct \<noteq> []" using l by auto
  then have n: "Decode (Encode nonce1) 12 = Some nonce1" "Decode (Encode ct) (- 1) = Some ct"
    by (simp_all add: nonce1_def Decode_Encode)
  have v: "validateEnvelope (sealed ct) = None" by (simp add: validateEnvelope_def)
  define hash where "hash = CreateRequestHash clip1 vault1 device1 1 1 ''text/plain'' nonce1 ct ''live''"
  have "length hash = 32" by (simp add: hash_def CreateRequestHash_def HashFields_def)
  from create_any [OF this l] obtain st where "CreateClip (\<lambda>_. 10) scope1 (sealed ct) nonce1 ct hash store0
    = (Inr \<lparr>cr_Receipt = receipt1, cr_Created = True\<rparr>, st)" by blast
  then show ?thesis
    by (simp add: createClip_def decode_post [OF l] v n l hash_def [symmetric] env2_def writeJSON_def)
qed

theorem upload_download_witness:
  "\<exists>rs h1. createClip env2 (post_of cipher1) scope1 (handler1\<lparr>h_store := store0\<rparr>) = (rs, h1) \<and> rs_Status rs = 201
     \<and> (rs_Status (fst (getClip clip1 env1 logout1 scope1 h1)) = 410
        \<or> (\<exists>clip. rs_Body (fst (getClip clip1 env1 logout1 scope1 h1)) = Some (PClip clip)
             \<and> Envelope.truncate clip = sealed cipher1))"
proof -
  have l: "length cipher1 = 20" by (simp add: cipher1_def)
  from post_created [OF l] obtain rs h1 where
    post: "createClip env2 (post_of cipher1) scope1 (handler1\<lparr>h_store := store0\<rparr>) = (rs, h1)" "rs_Status rs = 201" by blast
  from upload_download [OF _ _ _ post decode_post [OF l] reaches.start refl, of 0 env1 logout1] sample_synced post
  show ?thesis
    by (auto simp: env2_def mono_def)
qed

end
