(* ===== verification/Aes.thy ===== *)
theory Aes
  imports Sha256
begin

text \<open>
  What package \<open>clipcrypto\<close> takes from Go's standard library, written out: \<open>crypto/hmac\<close> and
  \<open>crypto/hkdf\<close> over SHA-256 (RFC 2104, RFC 5869), the block cipher of \<open>crypto/aes\<close> (FIPS 197),
  and \<open>crypto/cipher\<close>'s GCM with its standard nonce and tag (SP 800-38D).  Nothing is assumed
  about the strength of any of them; what is proved is that opening inverts sealing, and that it
  accepts nothing else.
\<close>

section \<open>HMAC and HKDF\<close>

definition xor_bytes :: "bytes \<Rightarrow> bytes \<Rightarrow> bytes" where
  "xor_bytes a b = map2 (\<lambda>x y. x XOR y) a b"

text \<open>Keys longer than a block are hashed first, shorter ones padded with zeros.\<close>

definition hmac_key :: "bytes \<Rightarrow> bytes" where
  "hmac_key k = (let k' = (if 64 < length k then sha256 k else k) in k' @ replicate (64 - length k') 0)"

definition hmac :: "bytes \<Rightarrow> bytes \<Rightarrow> bytes" where
  "hmac k m =
     sha256 (map (\<lambda>b. b XOR 0x5c) (hmac_key k) @ sha256 (map (\<lambda>b. b XOR 0x36) (hmac_key k) @ m))"

text \<open>\<open>hkdf.Key\<close> for 32 bytes: extract, and one round of expand.  The length is below the limit
  of 8160 bytes, so there is no error.\<close>

definition hkdf_key :: "bytes \<Rightarrow> bytes \<Rightarrow> bytes \<Rightarrow> bytes" where
  "hkdf_key secret salt info = hmac (hmac salt secret) (info @ [1])"

lemma length_hmac [simp]: "length (hmac k m) = 32"
  by (simp add: hmac_def)

lemma length_hkdf_key [simp]: "length (hkdf_key secret salt info) = 32"
  by (simp add: hkdf_key_def)

lemma length_xor_bytes [simp]: "length (xor_bytes a b) = min (length a) (length b)"
  by (simp add: xor_bytes_def)

lemma xor_bytes_twice: "length a \<le> length k \<Longrightarrow> xor_bytes (xor_bytes a k) k = a"
  by (induction a k rule: list_induct2') (auto simp: xor_bytes_def xor.assoc)

section \<open>The block cipher\<close>

definition aes_sbox :: "nat list" where
  "aes_sbox =
    [99, 124, 119, 123, 242, 107, 111, 197, 48, 1, 103, 43, 254, 215, 171, 118, 202, 130, 201,
     125, 250, 89, 71, 240, 173, 212, 162, 175, 156, 164, 114, 192, 183, 253, 147, 38, 54, 63,
     247, 204, 52, 165, 229, 241, 113, 216, 49, 21, 4, 199, 35, 195, 24, 150, 5, 154, 7, 18,
     128, 226, 235, 39, 178, 117, 9, 131, 44, 26, 27, 110, 90, 160, 82, 59, 214, 179, 41, 227,
     47, 132, 83, 209, 0, 237, 32, 252, 177, 91, 106, 203, 190, 57, 74, 76, 88, 207, 208, 239,
     170, 251, 67, 77, 51, 133, 69, 249, 2, 127, 80, 60, 159, 168, 81, 163, 64, 143, 146, 157,
     56, 245, 188, 182, 218, 33, 16, 255, 243, 210, 205, 12, 19, 236, 95, 151, 68, 23, 196, 167,
     126, 61, 100, 93, 25, 115, 96, 129, 79, 220, 34, 42, 144, 136, 70, 238, 184, 20, 222, 94,
     11, 219, 224, 50, 58, 10, 73, 6, 36, 92, 194, 211, 172, 98, 145, 149, 228, 121, 231, 200,
     55, 109, 141, 213, 78, 169, 108, 86, 244, 234, 101, 122, 174, 8, 186, 120, 37, 46, 28, 166,
     180, 198, 232, 221, 116, 31, 75, 189, 139, 138, 112, 62, 181, 102, 72, 3, 246, 14, 97, 53,
     87, 185, 134, 193, 29, 158, 225, 248, 152, 17, 105, 217, 142, 148, 155, 30, 135, 233, 206,
     85, 40, 223, 140, 161, 137, 13, 191, 230, 66, 104, 65, 153, 45, 15, 176, 84, 187, 22]"

definition sub_byte :: "byte \<Rightarrow> byte" where
  "sub_byte b = word_of_nat (aes_sbox ! unat b)"

text \<open>Multiplication by x in the field of the cipher.\<close>

definition xtime :: "byte \<Rightarrow> byte" where
  "xtime b = (if bit b 7 then push_bit 1 b XOR 27 else push_bit 1 b)"

text \<open>The 16 bytes of the state, column by column.\<close>

definition shift_rows :: "bytes \<Rightarrow> bytes" where
  "shift_rows s = map (\<lambda>i. s ! i) [0, 5, 10, 15, 4, 9, 14, 3, 8, 13, 2, 7, 12, 1, 6, 11]"

fun mix_columns :: "bytes \<Rightarrow> bytes" where
  "mix_columns (a # b # c # d # s) =
     (xtime a XOR xtime b XOR b XOR c XOR d) # (a XOR xtime b XOR xtime c XOR c XOR d)
     # (a XOR b XOR xtime c XOR xtime d XOR d) # (xtime a XOR a XOR b XOR c XOR xtime d) # mix_columns s"
| "mix_columns s = []"

text \<open>The key schedule: the words so far, the latest first, and the round constant.\<close>

fun key_words :: "nat \<Rightarrow> nat \<Rightarrow> nat \<Rightarrow> byte \<Rightarrow> bytes list \<Rightarrow> bytes list" where
  "key_words nk i 0 rcon ws = ws"
| "key_words nk i (Suc n) rcon ws =
     (let t = hd ws; old = ws ! (nk - 1) in
      if i mod nk = 0 then
        key_words nk (Suc i) n (xtime rcon)
          (xor_bytes old (xor_bytes (map sub_byte (rotate1 t)) [rcon, 0, 0, 0]) # ws)
      else if 6 < nk \<and> i mod nk = 4 then key_words nk (Suc i) n rcon (xor_bytes old (map sub_byte t) # ws)
      else key_words nk (Suc i) n rcon (xor_bytes old t # ws))"

definition round_keys :: "bytes \<Rightarrow> bytes list" where
  "round_keys key =
     (let nk = length key div 4; rounds = nk + 6 in
      map concat (chunks 4 (rounds + 1)
        (rev (key_words nk nk (4 * (rounds + 1) - nk) 1 (rev (chunks 4 nk key))))))"

fun aes_rounds :: "bytes list \<Rightarrow> bytes \<Rightarrow> bytes" where
  "aes_rounds [] s = s"
| "aes_rounds [k] s = xor_bytes (shift_rows (map sub_byte s)) k"
| "aes_rounds (k # ks) s = aes_rounds ks (xor_bytes (mix_columns (shift_rows (map sub_byte s))) k)"

definition aes_encrypt :: "bytes \<Rightarrow> bytes \<Rightarrow> bytes" where
  "aes_encrypt key b = (let ks = round_keys key in aes_rounds (tl ks) (xor_bytes b (hd ks)))"

text \<open>\<open>aes.NewCipher\<close> accepts keys of these lengths.\<close>

definition aes_key :: "bytes \<Rightarrow> bool" where
  "aes_key key \<longleftrightarrow> length key \<in> {16, 24, 32}"

section \<open>GHASH\<close>

definition block_word :: "bytes \<Rightarrow> 128 word" where
  "block_word b = foldl (\<lambda>n w. push_bit 8 n OR ucast w) 0 b"

definition word_block :: "128 word \<Rightarrow> bytes" where
  "word_block w = map (\<lambda>i. ucast (drop_bit (120 - 8 * i) w)) [0..<16]"

text \<open>Multiplication in GF(2^128), most significant bit first.\<close>

definition gf_step :: "128 word \<Rightarrow> 128 word \<times> 128 word \<Rightarrow> nat \<Rightarrow> 128 word \<times> 128 word" where
  "gf_step x zv i =
     (case zv of (z, v) \<Rightarrow>
       (if bit x (127 - i) then z XOR v else z,
        if bit v 0 then drop_bit 1 v XOR push_bit 120 225 else drop_bit 1 v))"

definition gf_mult :: "128 word \<Rightarrow> 128 word \<Rightarrow> 128 word" where
  "gf_mult x y = fst (foldl (gf_step x) (0, y) [0..<128])"

text \<open>A message is padded with zeros to whole blocks.\<close>

definition gcm_blocks :: "bytes \<Rightarrow> bytes list" where
  "gcm_blocks m = chunks 16 ((length m + 15) div 16) (m @ replicate ((16 - length m mod 16) mod 16) 0)"

definition ghash :: "128 word \<Rightarrow> bytes \<Rightarrow> bytes \<Rightarrow> 128 word" where
  "ghash h aad c =
     foldl (\<lambda>y b. gf_mult (y XOR block_word b) h) 0
       (gcm_blocks aad @ gcm_blocks c @ [be64 (8 * length aad) @ be64 (8 * length c)])"

section \<open>Galois counter mode\<close>

text \<open>Block i of the key stream; block 1 masks the tag, the text starts at block 2.\<close>

definition gcm_stream :: "bytes \<Rightarrow> bytes \<Rightarrow> nat \<Rightarrow> bytes" where
  "gcm_stream key nonce n = take n (concat (map (\<lambda>i. aes_encrypt key (nonce @ be32 (i + 2))) [0..<(n + 15) div 16]))"

definition gcm_tag :: "bytes \<Rightarrow> bytes \<Rightarrow> bytes \<Rightarrow> bytes \<Rightarrow> bytes" where
  "gcm_tag key nonce aad c =
     xor_bytes (word_block (ghash (block_word (aes_encrypt key (replicate 16 0))) aad c))
       (aes_encrypt key (nonce @ be32 1))"

definition gcm_seal :: "bytes \<Rightarrow> bytes \<Rightarrow> bytes \<Rightarrow> bytes \<Rightarrow> bytes" where
  "gcm_seal key nonce plaintext aad =
     (let c = xor_bytes plaintext (gcm_stream key nonce (length plaintext)) in c @ gcm_tag key nonce aad c)"

definition gcm_open :: "bytes \<Rightarrow> bytes \<Rightarrow> bytes \<Rightarrow> bytes \<Rightarrow> bytes option" where
  "gcm_open key nonce sealed aad =
     (if length sealed < 16 then None
      else
        let c = take (length sealed - 16) sealed; tag = drop (length sealed - 16) sealed in
        if tag \<noteq> gcm_tag key nonce aad c then None
        else Some (xor_bytes c (gcm_stream key nonce (length c))))"

section \<open>Lengths\<close>

lemma length_chunks [simp]: "length (chunks n k xs) = k"
  by (induction k arbitrary: xs) simp_all

lemma in_chunks: "c \<in> set (chunks n k xs) \<Longrightarrow> set c \<subseteq> set xs \<and> (n * k \<le> length xs \<longrightarrow> length c = n)"
  by (induction k arbitrary: xs) (fastforce dest: in_set_takeD in_set_dropD)+

lemma length_key_words [simp]: "length (key_words nk i n rcon ws) = n + length ws"
  by (induction nk i n rcon ws rule: key_words.induct) (simp_all add: Let_def)

lemma key_words_sizes:
  assumes "\<forall>w\<in>set ws. length w = 4" and "0 < nk" "nk \<le> length ws"
  shows "\<forall>w\<in>set (key_words nk i n rcon ws). length w = 4"
  using assms
proof (induction nk i n rcon ws rule: key_words.induct)
  case (2 nk i n rcon ws)
  let ?old = "ws ! (nk - 1)"
  have old: "length ?old = 4" and t: "length (hd ws) = 4"
    using "2.prems" nth_mem [of "nk - 1" ws] hd_in_set [of ws] by fastforce+
  note IH = "2.IH" [OF refl refl]
  have step: "\<forall>w\<in>set (x # ws). length w = 4" "nk \<le> length (x # ws)" if "length x = 4" for x
    using that "2.prems" by auto
  show ?case
    unfolding key_words.simps Let_def
    using IH(1) [OF _ step(1) "2.prems"(2) step(2)] IH(2) [OF _ _ step(1) "2.prems"(2) step(2)]
      IH(3) [OF _ _ step(1) "2.prems"(2) step(2)] old t
    by (auto simp del: set_simps)
qed simp

lemma length_concat_const: "\<forall>x\<in>set xs. length x = n \<Longrightarrow> length (concat xs) = n * length xs"
  by (induction xs) simp_all

lemma round_keys_ok:
  assumes "aes_key key"
  shows "\<forall>k\<in>set (round_keys key). length k = 16" and "2 \<le> length (round_keys key)"
proof -
  define nk where "nk = length key div 4"
  have nk: "nk \<in> {4, 6, 8}" "4 * nk = length key" using assms by (auto simp: nk_def aes_key_def)
  let ?ws = "rev (key_words nk nk (4 * (nk + 6 + 1) - nk) 1 (rev (chunks 4 nk key)))"
  have "\<forall>w\<in>set (rev (chunks 4 nk key)). length w = 4" using nk in_chunks [of _ 4 nk key] by auto
  then have sizes: "\<forall>w\<in>set ?ws. length w = 4" using key_words_sizes [of "rev (chunks 4 nk key)" nk] nk by auto
  have len: "length ?ws = 4 * (nk + 6 + 1)" using nk by auto
  have "length (concat c) = 16" if "c \<in> set (chunks 4 (nk + 6 + 1) ?ws)" for c
  proof -
    from in_chunks [OF that] len sizes have "length c = 4" "\<forall>w\<in>set c. length w = 4" by auto
    with length_concat_const [of c 4] show ?thesis by simp
  qed
  then show "\<forall>k\<in>set (round_keys key). length k = 16"
    unfolding round_keys_def Let_def nk_def [symmetric] set_map by blast
  show "2 \<le> length (round_keys key)" by (simp add: round_keys_def Let_def)
qed

lemma length_mix_columns [simp]: "length s = 16 \<Longrightarrow> length (mix_columns s) = 16"
  by (auto simp: length_Suc_conv numeral_eq_Suc)

lemma length_rounds: "ks \<noteq> [] \<Longrightarrow> \<forall>k\<in>set ks. length k = 16 \<Longrightarrow> length (aes_rounds ks s) = 16"
  by (induction ks s rule: aes_rounds.induct) (auto simp: shift_rows_def)

lemma length_aes_encrypt: "aes_key key \<Longrightarrow> length (aes_encrypt key b) = 16"
proof -
  assume ok: "aes_key key"
  from round_keys_ok [OF ok] obtain k k' ks where "round_keys key = k # k' # ks"
    by (cases "round_keys key" rule: list.exhaust; cases "tl (round_keys key)") auto
  with round_keys_ok(1) [OF ok] show ?thesis by (simp add: aes_encrypt_def Let_def length_rounds)
qed

lemma length_gcm_stream [simp]:
  assumes "aes_key key"
  shows "length (gcm_stream key nonce n) = n"
proof -
  have "length (concat (map (\<lambda>i. aes_encrypt key (nonce @ be32 (i + 2))) is)) = 16 * length is" for "is" :: "nat list"
    by (induction "is") (simp_all add: length_aes_encrypt assms)
  moreover have "n \<le> 16 * ((n + 15) div 16)" by simp
  ultimately show ?thesis by (simp add: gcm_stream_def min_def)
qed

lemma length_gcm_tag [simp]: "aes_key key \<Longrightarrow> length (gcm_tag key nonce aad c) = 16"
  by (simp add: gcm_tag_def word_block_def length_aes_encrypt)

lemma length_gcm_seal [simp]: "aes_key key \<Longrightarrow> length (gcm_seal key nonce p aad) = length p + 16"
  by (simp add: gcm_seal_def Let_def)

section \<open>Opening inverts sealing, and accepts nothing else\<close>

lemma gcm_open_iff:
  assumes key: "aes_key key"
  shows "gcm_open key nonce c aad = Some p \<longleftrightarrow> c = gcm_seal key nonce p aad"
proof
  assume "gcm_open key nonce c aad = Some p"
  then have len: "16 \<le> length c" and tag: "drop (length c - 16) c = gcm_tag key nonce aad (take (length c - 16) c)"
    and p: "p = xor_bytes (take (length c - 16) c) (gcm_stream key nonce (length c - 16))"
    by (auto simp: gcm_open_def Let_def split: if_splits)
  have "xor_bytes p (gcm_stream key nonce (length p)) = take (length c - 16) c"
    using key len by (simp add: p xor_bytes_twice)
  with tag show "c = gcm_seal key nonce p aad"
    by (simp add: gcm_seal_def Let_def) (metis append_take_drop_id)
next
  assume c: "c = gcm_seal key nonce p aad"
  let ?x = "xor_bytes p (gcm_stream key nonce (length p))"
  have "length ?x = length p" using key by simp
  with key show "gcm_open key nonce c aad = Some p"
    by (simp add: c gcm_open_def gcm_seal_def Let_def xor_bytes_twice)
qed

end
