(* ===== verification/Clipcrypto.thy ===== *)
theory Clipcrypto
  imports Aes Passwd
begin

text \<open>
  Package \<open>clipcrypto\<close> (server/internal/clipcrypto/clipcrypto.go and genwrap.go): the envelope
  format every client implements.  Argon2id is the parameter \<open>idkey\<close> of theory Passwd; the
  rest rests on theory Aes.  The locale \<open>sealing\<close> is the contract of an encryption: what opens is
  exactly what was sealed.
\<close>

datatype crypto_error = Corrupt | NonCanonical | KeySize | NonceSize | AuthFailed | BadPrefix | BadLength | Panic

definition WrapInfo :: string where "WrapInfo = ''onlineclipboard/v1/wrap''"
definition PasswordWrapInfo :: string where "PasswordWrapInfo = ''onlineclipboard/v1/wrap-password''"
definition PasswordKDFTime :: "32 word" where "PasswordKDFTime = 3"
definition PasswordKDFMemoryKiB :: "32 word" where "PasswordKDFMemoryKiB = 64 * 1024"
definition PasswordKDFParallel :: "8 word" where "PasswordKDFParallel = 1"

section \<open>Encodings and derivation\<close>

text \<open>The functions \<open>Decode\<close> and \<open>Encode\<close> of this package; those of \<open>canon\<close> have these names already.\<close>

definition DecodeRaw :: "string \<Rightarrow> crypto_error + bytes" where
  "DecodeRaw value =
     (case b64_decode True value of
        None \<Rightarrow> Inl Corrupt
      | Some raw \<Rightarrow> if b64_encode True raw \<noteq> value then Inl NonCanonical else Inr raw)"

definition EncodeRaw :: "bytes \<Rightarrow> string" where
  "EncodeRaw raw = b64_encode True raw"

definition Derive :: "bytes \<Rightarrow> bytes \<Rightarrow> bytes \<Rightarrow> crypto_error + bytes" where
  "Derive ikm salt info = Inr (hkdf_key ikm salt info)"

section \<open>Authenticated encryption\<close>

text \<open>
  The wrong nonce is an error of \<open>AESGCM\<close>, but \<open>aead.Open\<close> panics for it; \<open>aead.Seal\<close> panics for
  a text of more than \<open>gcm_max\<close> bytes, and \<open>aead.Open\<close> fails for it.
\<close>

definition gcm_max :: nat where
  "gcm_max = (2 ^ 32 - 2) * 16"

definition AESGCM :: "bytes \<Rightarrow> bytes \<Rightarrow> bytes \<Rightarrow> bytes \<Rightarrow> crypto_error + bytes" where
  "AESGCM key nonce plaintext aad =
     (if \<not> aes_key key then Inl KeySize
      else if length nonce \<noteq> 12 then Inl NonceSize
      else if length plaintext > gcm_max then Inl Panic
      else Inr (gcm_seal key nonce plaintext aad))"

definition OpenAESGCM :: "bytes \<Rightarrow> bytes \<Rightarrow> bytes \<Rightarrow> bytes \<Rightarrow> crypto_error + bytes" where
  "OpenAESGCM key nonce ciphertext aad =
     (if \<not> aes_key key then Inl KeySize
      else if length nonce \<noteq> 12 then Inl Panic
      else if length ciphertext > gcm_max + 16 then Inl AuthFailed
      else case gcm_open key nonce ciphertext aad of None \<Rightarrow> Inl AuthFailed | Some p \<Rightarrow> Inr p)"

section \<open>Contexts\<close>

definition WrapAAD :: "string \<Rightarrow> string \<Rightarrow> bytes" where
  "WrapAAD userID vaultID = bytes_of (''oc-v1|vault|'' @ userID @ ''|'' @ vaultID @ ''|1'')"

definition PasswordWrapAAD :: "string \<Rightarrow> string \<Rightarrow> bytes" where
  "PasswordWrapAAD userID vaultID = bytes_of (''oc-v1|vault-password|'' @ userID @ ''|'' @ vaultID @ ''|1'')"

definition PasswordIKM :: "argon2 \<Rightarrow> string \<Rightarrow> bytes \<Rightarrow> 32 word \<Rightarrow> 32 word \<Rightarrow> 8 word \<Rightarrow> bytes" where
  "PasswordIKM idkey password salt time memory par =
     (let time = (if time = 0 then PasswordKDFTime else time);
          memory = (if memory = 0 then PasswordKDFMemoryKiB else memory);
          par = (if par = 0 then PasswordKDFParallel else par)
      in idkey (bytes_of password) salt (uint time) (uint memory) (uint par) 32)"

definition ItemInfo :: "string \<Rightarrow> int \<Rightarrow> bytes" where
  "ItemInfo clipID keyEpoch = bytes_of (''onlineclipboard/v1/item|'' @ clipID @ ''|'' @ FormatInt keyEpoch)"

text \<open>\<open>strings.Join\<close> with a separator.\<close>

fun Join :: "string list \<Rightarrow> string \<Rightarrow> string" where
  "Join [] sep = []"
| "Join [x] sep = x"
| "Join (x # xs) sep = x @ sep @ Join xs sep"

definition ItemAAD :: "string \<Rightarrow> string \<Rightarrow> string \<Rightarrow> string \<Rightarrow> int \<Rightarrow> bytes" where
  "ItemAAD userID vaultID clipID sourceDeviceID keyEpoch =
     bytes_of (Join [''oc-v1'', ''clip'', userID, vaultID, clipID, sourceDeviceID, FormatInt keyEpoch,
       ''text/plain''] ''|'')"

section \<open>Keys of the vault and items\<close>

definition WrapCMK :: "bytes \<Rightarrow> bytes \<Rightarrow> bytes \<Rightarrow> bytes \<Rightarrow> string \<Rightarrow> string \<Rightarrow> crypto_error + bytes" where
  "WrapCMK rk wrapSalt wrapNonce cmk userID vaultID =
     bind_res (Derive rk wrapSalt (bytes_of WrapInfo))
       (\<lambda>kek. AESGCM kek wrapNonce cmk (WrapAAD userID vaultID))"

definition UnwrapCMK :: "bytes \<Rightarrow> bytes \<Rightarrow> bytes \<Rightarrow> bytes \<Rightarrow> string \<Rightarrow> string \<Rightarrow> crypto_error + bytes" where
  "UnwrapCMK rk wrapSalt wrapNonce wrapped userID vaultID =
     bind_res (Derive rk wrapSalt (bytes_of WrapInfo))
       (\<lambda>kek. OpenAESGCM kek wrapNonce wrapped (WrapAAD userID vaultID))"

definition WrapCMKWithPassword ::
  "argon2 \<Rightarrow> string \<Rightarrow> bytes \<Rightarrow> bytes \<Rightarrow> bytes \<Rightarrow> bytes \<Rightarrow> string \<Rightarrow> string \<Rightarrow> crypto_error + bytes" where
  "WrapCMKWithPassword idkey password kdfSalt wrapSalt wrapNonce cmk userID vaultID =
     (let ikm = PasswordIKM idkey password kdfSalt PasswordKDFTime PasswordKDFMemoryKiB PasswordKDFParallel in
      bind_res (Derive ikm wrapSalt (bytes_of PasswordWrapInfo))
        (\<lambda>kek. AESGCM kek wrapNonce cmk (PasswordWrapAAD userID vaultID)))"

definition UnwrapCMKWithPassword ::
  "argon2 \<Rightarrow> string \<Rightarrow> bytes \<Rightarrow> bytes \<Rightarrow> bytes \<Rightarrow> bytes \<Rightarrow> string \<Rightarrow> string
     \<Rightarrow> 32 word \<Rightarrow> 32 word \<Rightarrow> 8 word \<Rightarrow> crypto_error + bytes" where
  "UnwrapCMKWithPassword idkey password kdfSalt wrapSalt wrapNonce wrapped userID vaultID time memory par =
     (let ikm = PasswordIKM idkey password kdfSalt time memory par in
      bind_res (Derive ikm wrapSalt (bytes_of PasswordWrapInfo))
        (\<lambda>kek. OpenAESGCM kek wrapNonce wrapped (PasswordWrapAAD userID vaultID)))"

definition EncryptItem ::
  "bytes \<Rightarrow> string \<Rightarrow> string \<Rightarrow> string \<Rightarrow> string \<Rightarrow> int \<Rightarrow> bytes \<Rightarrow> bytes \<Rightarrow> crypto_error + bytes" where
  "EncryptItem cmk vaultID userID clipID sourceDeviceID keyEpoch nonce plaintext =
     bind_res (Derive cmk (bytes_of vaultID) (ItemInfo clipID keyEpoch))
       (\<lambda>key. AESGCM key nonce plaintext (ItemAAD userID vaultID clipID sourceDeviceID keyEpoch))"

definition DecryptItem ::
  "bytes \<Rightarrow> string \<Rightarrow> string \<Rightarrow> string \<Rightarrow> string \<Rightarrow> int \<Rightarrow> bytes \<Rightarrow> bytes \<Rightarrow> crypto_error + bytes" where
  "DecryptItem cmk vaultID userID clipID sourceDeviceID keyEpoch nonce ciphertext =
     bind_res (Derive cmk (bytes_of vaultID) (ItemInfo clipID keyEpoch))
       (\<lambda>key. OpenAESGCM key nonce ciphertext (ItemAAD userID vaultID clipID sourceDeviceID keyEpoch))"

section \<open>Recovery codes\<close>

definition RecoveryCode :: "bytes \<Rightarrow> string" where
  "RecoveryCode rk = ''oc1_'' @ EncodeRaw rk"

definition ParseRecoveryCode :: "string \<Rightarrow> crypto_error + bytes" where
  "ParseRecoveryCode code =
     (let code = filter (\<lambda>c. c \<noteq> CHR '' '') code in
      if \<not> HasPrefix code ''oc1_'' then Inl BadPrefix
      else bind_res (DecodeRaw (TrimPrefix code ''oc1_''))
        (\<lambda>raw. if length raw \<noteq> 32 then Inl BadLength else Inr raw))"

section \<open>The vector generator\<close>

text \<open>What the program prints, None when it panics.\<close>

definition genwrap_main :: "argon2 \<Rightarrow> string list option" where
  "genwrap_main idkey =
     (let cmk = map word_of_nat [0..<32]; kdfSalt = map word_of_nat [0x50..<0x60];
          wrapSalt = map word_of_nat [0x60..<0x80]; nonce = map word_of_nat [0x20..<0x2c];
          userID = ''11111111-1111-4111-8111-111111111111'';
          vaultID = ''22222222-2222-4222-8222-222222222222'';
          password = ''correct-horse-battery'' in
      case WrapCMKWithPassword idkey password kdfSalt wrapSalt nonce cmk userID vaultID of
        Inl _ \<Rightarrow> None
      | Inr wrapped \<Rightarrow>
          let ikm = PasswordIKM idkey password kdfSalt PasswordKDFTime PasswordKDFMemoryKiB PasswordKDFParallel in
          (case Derive ikm wrapSalt (bytes_of PasswordWrapInfo) of
             Inl _ \<Rightarrow> None
           | Inr kek \<Rightarrow>
               Some [''kdf_salt '' @ EncodeRaw kdfSalt, ''wrap_salt '' @ EncodeRaw wrapSalt,
                 ''wrap_nonce '' @ EncodeRaw nonce, ''wrap_key_hex '' @ hex_encode kek,
                 ''wrapped_key '' @ EncodeRaw wrapped]))"

section \<open>What opens is what was sealed\<close>

locale sealing =
  fixes seal :: "bytes \<Rightarrow> 'e + bytes" and unseal :: "bytes \<Rightarrow> 'e + bytes"
  assumes unseal_iff: "unseal c = Inr p \<longleftrightarrow> seal p = Inr c"
begin

lemma unseal_seal: "seal p = Inr c \<Longrightarrow> unseal c = Inr p"
  by (simp add: unseal_iff)

lemma seal_unique: "seal p = Inr c \<Longrightarrow> seal q = Inr c \<Longrightarrow> p = q"
  using unseal_iff by (metis sum.inject(2))

text \<open>A sealed text cannot be altered: no other bytes open to the same or to anything that was not sealed.\<close>

lemma not_malleable: "unseal c = Inr p \<Longrightarrow> unseal c' = Inr p \<Longrightarrow> c' = c"
  using unseal_iff by (metis sum.inject(2))

end

interpretation gcm: sealing "\<lambda>p. AESGCM key nonce p aad" "\<lambda>c. OpenAESGCM key nonce c aad" for key nonce aad
proof
  fix c p
  show "OpenAESGCM key nonce c aad = Inr p \<longleftrightarrow> AESGCM key nonce p aad = Inr c"
    using gcm_open_iff [of key nonce c aad p]
    by (auto simp: OpenAESGCM_def AESGCM_def split: option.split)
qed

interpretation item: sealing "EncryptItem cmk vaultID userID clipID device epoch nonce"
  "DecryptItem cmk vaultID userID clipID device epoch nonce" for cmk vaultID userID clipID device epoch nonce
  by unfold_locales (simp add: EncryptItem_def DecryptItem_def Derive_def gcm.unseal_iff)

interpretation recovery: sealing "\<lambda>cmk. WrapCMK rk wrapSalt wrapNonce cmk userID vaultID"
  "\<lambda>c. UnwrapCMK rk wrapSalt wrapNonce c userID vaultID" for rk wrapSalt wrapNonce userID vaultID
  by unfold_locales (simp add: WrapCMK_def UnwrapCMK_def Derive_def gcm.unseal_iff)

interpretation by_password: sealing "\<lambda>cmk. WrapCMKWithPassword idkey pw kdfSalt wrapSalt wrapNonce cmk userID vaultID"
  "\<lambda>c. UnwrapCMKWithPassword idkey pw kdfSalt wrapSalt wrapNonce c userID vaultID
     PasswordKDFTime PasswordKDFMemoryKiB PasswordKDFParallel"
  for idkey pw kdfSalt wrapSalt wrapNonce userID vaultID
  by unfold_locales (simp add: WrapCMKWithPassword_def UnwrapCMKWithPassword_def Derive_def gcm.unseal_iff)

text \<open>The parameters zero stand for the defaults.\<close>

lemma PasswordIKM_defaults:
  "PasswordIKM idkey pw salt 0 0 0 = PasswordIKM idkey pw salt PasswordKDFTime PasswordKDFMemoryKiB PasswordKDFParallel"
  by (simp add: PasswordIKM_def Let_def PasswordKDFTime_def PasswordKDFMemoryKiB_def PasswordKDFParallel_def)

lemma UnwrapCMKWithPassword_defaults:
  "UnwrapCMKWithPassword idkey pw kdfSalt salt nonce c u v 0 0 0
    = UnwrapCMKWithPassword idkey pw kdfSalt salt nonce c u v PasswordKDFTime PasswordKDFMemoryKiB PasswordKDFParallel"
  by (simp add: UnwrapCMKWithPassword_def PasswordIKM_defaults)

text \<open>
  C29: A client opens exactly what was sealed.  Decrypting an item under a content key and the
  identifiers of its place yields a text if and only if encrypting that text there yields those
  very bytes; the same holds of the content key wrapped for the recovery key and for the
  password, with the parameters of the latter also given as zeros.  So every sealed text can be
  read back, and whatever was altered, cut or moved is refused unless it is the sealing of
  another text in the new place.
\<close>

theorem opens_what_was_sealed:
  "(DecryptItem cmk v u c d e nonce ct = Inr text \<longleftrightarrow> EncryptItem cmk v u c d e nonce text = Inr ct)
   \<and> (UnwrapCMK rk salt nonce ct u v = Inr cmk \<longleftrightarrow> WrapCMK rk salt nonce cmk u v = Inr ct)
   \<and> (UnwrapCMKWithPassword idkey pw kdfSalt salt nonce ct u v 0 0 0 = Inr cmk
       \<longleftrightarrow> WrapCMKWithPassword idkey pw kdfSalt salt nonce cmk u v = Inr ct)"
  unfolding UnwrapCMKWithPassword_defaults item.unseal_iff recovery.unseal_iff by_password.unseal_iff by blast

text \<open>Opening panics for a nonce of the wrong length, where sealing fails with an error.\<close>

lemma OpenAESGCM_panics: "OpenAESGCM key nonce c aad = Inl Panic \<longleftrightarrow> aes_key key \<and> length nonce \<noteq> 12"
  by (auto simp: OpenAESGCM_def split: option.split)

lemma EncryptItem_Inr:
  "EncryptItem cmk v u c d e nonce text = Inr ct \<Longrightarrow> length nonce = 12 \<and> length ct = length text + 16"
  by (auto simp: EncryptItem_def Derive_def AESGCM_def split: if_splits)

lemma WrapCMK_Inr: "WrapCMK rk salt nonce cmk u v = Inr w \<Longrightarrow> length w = length cmk + 16"
  by (auto simp: WrapCMK_def Derive_def AESGCM_def split: if_splits)

section \<open>Encodings\<close>

lemma DecodeRaw_iff: "DecodeRaw s = Inr b \<longleftrightarrow> s = EncodeRaw b"
  by (auto simp: DecodeRaw_def EncodeRaw_def b64_decode_encode split: option.splits)

lemma EncodeRaw_eq: "EncodeRaw b = Encode b"
  by (simp add: EncodeRaw_def Encode_def)

lemma space_EncodeRaw: "CHR '' '' \<notin> set (EncodeRaw b)"
proof
  assume "CHR '' '' \<in> set (EncodeRaw b)"
  then obtain n where "n < 64" "CHR '' '' = b64_char True n"
    using b64_encode_alphabet unfolding EncodeRaw_def by blast
  moreover have "sextet True CHR '' '' = None" by (simp add: sextet_def Let_def ord_def)
  ultimately show False using sextet_b64_char by (metis option.discI)
qed

lemma HasPrefix_TrimPrefix: "HasPrefix s p \<and> TrimPrefix s p = t \<longleftrightarrow> s = p @ t"
  by (auto simp: HasPrefix_iff)

text \<open>
  C31: A recovery code is read back however it was spaced, and nothing else is read: what parses
  to a key is, without its spaces, the code of that key, and the key has 32 bytes.
\<close>

theorem recovery_code_iff:
  "ParseRecoveryCode code = Inr rk \<longleftrightarrow> length rk = 32 \<and> filter (\<lambda>c. c \<noteq> CHR '' '') code = RecoveryCode rk"
proof -
  let ?s = "filter (\<lambda>c. c \<noteq> CHR '' '') code"
  have "ParseRecoveryCode code = Inr rk \<longleftrightarrow>
      length rk = 32 \<and> HasPrefix ?s ''oc1_'' \<and> TrimPrefix ?s ''oc1_'' = EncodeRaw rk"
    by (auto simp: ParseRecoveryCode_def Let_def bind_res_Inr_iff DecodeRaw_iff)
  then show ?thesis unfolding HasPrefix_TrimPrefix RecoveryCode_def .
qed

lemma filter_spaces_RecoveryCode: "filter (\<lambda>c. c \<noteq> CHR '' '') (RecoveryCode rk) = RecoveryCode rk"
  using space_EncodeRaw [of rk] by (auto simp: RecoveryCode_def filter_id_conv)

section \<open>Contexts are told apart\<close>

lemma Split_Join:
  "xs \<noteq> [] \<Longrightarrow> \<forall>x\<in>set xs. c \<notin> set x \<Longrightarrow> Split c (Join xs [c]) = xs"
  by (induction xs "[c]" rule: Join.induct) (auto simp: Split_none Split_append)

lemma bar_FormatInt: "CHR ''|'' \<notin> set (FormatInt n)"
  using show_nat_digits [of "nat n"] show_nat_digits [of "nat (- n)"]
  by (auto simp: FormatInt_def list_all_iff is_digit_def ord_def)

lemma bar_not_hex: "\<not> lower_hex (CHR ''|'')"
  by (simp add: lower_hex_def is_digit_def ord_def)

lemma bar_UUID:
  assumes "UUID s"
  shows "CHR ''|'' \<notin> set s"
proof
  assume "CHR ''|'' \<in> set s"
  then obtain i where "i < length s" "s ! i = CHR ''|''" by (auto simp: in_set_conv_nth)
  moreover from assms have "length s = 36" "\<forall>i<36. if i \<in> {8, 13, 18, 23} then s ! i = CHR ''-'' else lower_hex (s ! i)"
    by (auto simp: UUID_def uuidRE_def list_all_iff)
  ultimately have "CHR ''|'' = CHR ''-'' \<or> lower_hex (CHR ''|'')" by (metis (no_types))
  with bar_not_hex show False by simp
qed

text \<open>The contexts as lists of fields; \<open>fields\<close> recovers them.\<close>

definition fields :: "bytes \<Rightarrow> string list" where
  "fields b = Split CHR ''|'' (string_of b)"

lemma fields_Join: "xs \<noteq> [] \<Longrightarrow> \<forall>x\<in>set xs. CHR ''|'' \<notin> set x \<Longrightarrow> fields (bytes_of (Join xs ''|'')) = xs"
  by (simp add: fields_def Split_Join)

lemma fields_contexts:
  assumes "CHR ''|'' \<notin> set u" "CHR ''|'' \<notin> set v"
  shows "fields (WrapAAD u v) = [''oc-v1'', ''vault'', u, v, ''1'']"
    and "fields (PasswordWrapAAD u v) = [''oc-v1'', ''vault-password'', u, v, ''1'']"
    and "CHR ''|'' \<notin> set c \<Longrightarrow> CHR ''|'' \<notin> set d \<Longrightarrow>
       fields (ItemAAD u v c d e) = [''oc-v1'', ''clip'', u, v, c, d, FormatInt e, ''text/plain'']"
proof -
  show "fields (WrapAAD u v) = [''oc-v1'', ''vault'', u, v, ''1'']"
    using fields_Join [of "[''oc-v1'', ''vault'', u, v, ''1'']"] assms by (simp add: WrapAAD_def)
  show "fields (PasswordWrapAAD u v) = [''oc-v1'', ''vault-password'', u, v, ''1'']"
    using fields_Join [of "[''oc-v1'', ''vault-password'', u, v, ''1'']"] assms by (simp add: PasswordWrapAAD_def)
  assume "CHR ''|'' \<notin> set c" "CHR ''|'' \<notin> set d"
  with assms show "fields (ItemAAD u v c d e) = [''oc-v1'', ''clip'', u, v, c, d, FormatInt e, ''text/plain'']"
    unfolding ItemAAD_def by (intro fields_Join) (auto simp: bar_FormatInt)
qed

text \<open>
  C30: Every context is authenticated as itself.  For canonical identifiers the associated data of
  two items are equal only for the same account, vault, clip, source device and epoch, those of
  two wrapped keys only for the same account and vault, and data of different purposes, an
  item, a key wrapped for recovery, a key wrapped by a password, are never equal.  So a
  ciphertext that is moved to another place is opened with other associated data.
\<close>

theorem contexts_distinct:
  assumes "list_all UUID [u, v, c, d, u', v', c', d']"
  shows "(ItemAAD u v c d e = ItemAAD u' v' c' d' e' \<longleftrightarrow> (u, v, c, d, e) = (u', v', c', d', e'))
    \<and> (WrapAAD u v = WrapAAD u' v' \<longleftrightarrow> (u, v) = (u', v'))
    \<and> (PasswordWrapAAD u v = PasswordWrapAAD u' v' \<longleftrightarrow> (u, v) = (u', v'))
    \<and> distinct [ItemAAD u v c d e, WrapAAD u' v', PasswordWrapAAD u' v']"
proof -
  note f = fields_contexts [OF bar_UUID bar_UUID] fields_contexts(3) [OF bar_UUID bar_UUID bar_UUID bar_UUID]
  have ids: "UUID u" "UUID v" "UUID c" "UUID d" "UUID u'" "UUID v'" "UUID c'" "UUID d'" using assms by simp_all
  have "a = b" if "fields x = a" "fields y = b" "x = y" for a b x y using that by simp
  note eq = this
  show ?thesis
    using eq [OF f(4) [OF ids(1,2,3,4)] f(4) [OF ids(5,6,7,8)], of e e'] eq [OF f(1) [OF ids(1,2)] f(1) [OF ids(5,6)]]
      eq [OF f(2) [OF ids(1,2)] f(2) [OF ids(5,6)]] eq [OF f(4) [OF ids(1,2,3,4)] f(1) [OF ids(5,6)], of e]
      eq [OF f(4) [OF ids(1,2,3,4)] f(2) [OF ids(5,6)], of e] eq [OF f(1) [OF ids(5,6)] f(2) [OF ids(5,6)]]
    by auto
qed

theorem contexts_distinct_witness:
  "ItemAAD ''11111111-1111-4111-8111-111111111111'' ''22222222-2222-4222-8222-222222222222''
     ''44444444-4444-4444-8444-000000000001'' ''55555555-5555-4555-8555-555555555555'' 1
   \<noteq> ItemAAD ''11111111-1111-4111-8111-111111111111'' ''22222222-2222-4222-8222-222222222222''
     ''44444444-4444-4444-8444-000000000002'' ''55555555-5555-4555-8555-555555555555'' 1"
  using contexts_distinct [of "''11111111-1111-4111-8111-111111111111''" "''22222222-2222-4222-8222-222222222222''"
      "''44444444-4444-4444-8444-000000000001''" "''55555555-5555-4555-8555-555555555555''"
      "''11111111-1111-4111-8111-111111111111''" "''22222222-2222-4222-8222-222222222222''"
      "''44444444-4444-4444-8444-000000000002''" "''55555555-5555-4555-8555-555555555555''" 1 1]
  by (simp add: UUID_def uuidRE_def lower_hex_def is_digit_def ord_def upt_rec)

end
