(* ===== verification/EndToEnd.thy ===== *)
theory EndToEnd
  imports Uploads Clipcrypto
begin

text \<open>
  The clients' cryptography and the server together: what one device encrypts and uploads, every
  device that holds the content key reads.
\<close>

text \<open>
  C28: End to end.  A device encrypts a text under the content key for the place its envelope
  names and uploads it with status 201.  In every later state, a device of the same account that
  holds the content key and gets the clip with any answer but 410 decodes nonce and ciphertext
  of what it got, and decrypting them under the identifiers it got yields the text.
\<close>

theorem end_to_end:
  assumes syn: "synced t0 (h_store h)" and clk: "mono (ev_Clk ev)" "t0 \<le> ev_Clk ev 0"
    and body: "decodeJSON envelope_fields zero_envelope r = Inr env"
    and enc: "EncryptItem cmk (env_VaultID env) (sc_UserID scope) (env_ID env) (env_SourceDeviceID env)
      (env_KeyEpoch env) nonce text = Inr ct" "env_Nonce env = EncodeRaw nonce" "env_Ciphertext env = EncodeRaw ct"
    and post: "createClip ev r scope h = (rs, h1)" "rs_Status rs = 201"
    and run: "reaches (done_by ev) (h_store h1) t (h_store h2)" and same: "sc_UserID scope' = sc_UserID scope"
    and got: "getClip (env_ID env) ev' r' scope' h2 = (rs', h2')" "rs_Status rs' \<noteq> 410"
  shows "\<exists>clip nonce' ct'. rs_Body rs' = Some (PClip clip)
    \<and> DecodeRaw (env_Nonce clip) = Inr nonce' \<and> DecodeRaw (env_Ciphertext clip) = Inr ct'
    \<and> DecryptItem cmk (env_VaultID clip) (sc_UserID scope') (env_ID clip) (env_SourceDeviceID clip)
        (env_KeyEpoch clip) nonce' ct' = Inr text"
proof -
  from uploaded_served [OF syn clk post body run same, of ev' r'] got
  obtain clip where "rs_Body rs' = Some (PClip clip)" and env: "Envelope.truncate clip = env" by auto
  moreover have "env_VaultID clip = env_VaultID env" "env_ID clip = env_ID env"
    "env_SourceDeviceID clip = env_SourceDeviceID env" "env_KeyEpoch clip = env_KeyEpoch env"
    "env_Nonce clip = env_Nonce env" "env_Ciphertext clip = env_Ciphertext env"
    using env by (auto simp: Envelope.truncate_def)
  ultimately show ?thesis using enc
    by (intro exI [of _ clip] exI [of _ nonce] exI [of _ ct]) (simp add: same DecodeRaw_iff item.unseal_iff)
qed

text \<open>The sample device encrypts a text of four bytes and another gets it at once.\<close>

lemma sample_encrypts:
  "\<exists>ct. EncryptItem cmk vault1 user1 clip1 device1 1 nonce1 [1, 2, 3, 4] = Inr ct \<and> length ct = 20"
  by (simp add: EncryptItem_def Derive_def AESGCM_def aes_key_def nonce1_def gcm_max_def)

theorem end_to_end_witness:
  "\<exists>ct rs h1. EncryptItem [7] vault1 user1 clip1 device1 1 nonce1 [1, 2, 3, 4] = Inr ct
    \<and> createClip env2 (post_of ct) scope1 (handler1\<lparr>h_store := store0\<rparr>) = (rs, h1)
    \<and> (rs_Status (fst (getClip clip1 env1 logout1 scope1 h1)) \<noteq> 410 \<longrightarrow>
        (\<exists>clip nonce' ct'. rs_Body (fst (getClip clip1 env1 logout1 scope1 h1)) = Some (PClip clip)
          \<and> DecodeRaw (env_Nonce clip) = Inr nonce' \<and> DecodeRaw (env_Ciphertext clip) = Inr ct'
          \<and> DecryptItem [7] (env_VaultID clip) (sc_UserID scope1) (env_ID clip) (env_SourceDeviceID clip)
              (env_KeyEpoch clip) nonce' ct' = Inr [1, 2, 3, 4]))"
proof -
  from sample_encrypts [of "[7]"] obtain ct where
    ct: "EncryptItem [7] vault1 user1 clip1 device1 1 nonce1 [1, 2, 3, 4] = Inr ct" "length ct = 20" by blast
  from post_created [OF ct(2)] obtain rs h1 where
    post: "createClip env2 (post_of ct) scope1 (handler1\<lparr>h_store := store0\<rparr>) = (rs, h1)" "rs_Status rs = 201" by blast
  have enc: "EncryptItem [7] (env_VaultID (sealed ct)) (sc_UserID scope1) (env_ID (sealed ct))
      (env_SourceDeviceID (sealed ct)) (env_KeyEpoch (sealed ct)) nonce1 [1, 2, 3, 4] = Inr ct"
    using ct(1) by (simp add: scope1_def)
  have start: "synced 0 (h_store (handler1\<lparr>h_store := store0\<rparr>))" "mono (ev_Clk env2)" "0 \<le> ev_Clk env2 0"
    using sample_synced by (simp_all add: env2_def mono_def)
  note e2e = end_to_end [OF start decode_post [OF ct(2)] enc _ _ post reaches.start refl surjective_pairing]
  show ?thesis using ct(1) post e2e [of env1 logout1] by (auto simp: EncodeRaw_eq)
qed

section \<open>Sizes\<close>

text \<open>
  Requests of a device: an envelope with an encrypted text, a vault with the content key wrapped
  by the recovery key, and a password wrap with the content key wrapped by a password under the
  parameters of \<open>clipcrypto\<close>.
\<close>

definition seals_text :: "bytes \<Rightarrow> Scope \<Rightarrow> bytes \<Rightarrow> bytes \<Rightarrow> bytes \<Rightarrow> Envelope \<Rightarrow> bool" where
  "seals_text cmk scope nonce txt ct env \<longleftrightarrow>
     EncryptItem cmk (env_VaultID env) (sc_UserID scope) (env_ID env) (env_SourceDeviceID env) (env_KeyEpoch env)
       nonce txt = Inr ct
     \<and> env_Nonce env = EncodeRaw nonce \<and> env_Ciphertext env = EncodeRaw ct"

definition seals_key :: "bytes \<Rightarrow> bytes \<Rightarrow> Scope \<Rightarrow> bytes \<Rightarrow> bytes \<Rightarrow> bytes \<Rightarrow> VaultEnvelope \<Rightarrow> bool" where
  "seals_key rk cmk scope salt nonce w ve \<longleftrightarrow>
     WrapCMK rk salt nonce cmk (sc_UserID scope) (ve_VaultID ve) = Inr w \<and> length salt = 32
     \<and> ve_WrapSalt ve = EncodeRaw salt \<and> ve_WrapNonce ve = EncodeRaw nonce \<and> ve_WrappedKey ve = EncodeRaw w"

definition seals_password ::
  "argon2 \<Rightarrow> string \<Rightarrow> bytes \<Rightarrow> Scope \<Rightarrow> string \<Rightarrow> PasswordWrapRaw \<Rightarrow> PasswordWrap \<Rightarrow> bool" where
  "seals_password idkey password cmk scope vaultID raw p \<longleftrightarrow>
     WrapCMKWithPassword idkey password (pw_KDFSalt raw) (pw_WrapSalt raw) (pw_WrapNonce raw) cmk (sc_UserID scope)
       vaultID = Inr (pw_WrappedKey raw)
     \<and> length (pw_KDFSalt raw) = 16 \<and> length (pw_WrapSalt raw) = 32
     \<and> pw_KDF raw = ''argon2id'' \<and> pw_Time raw = uint PasswordKDFTime
     \<and> pw_Memory raw = uint PasswordKDFMemoryKiB \<and> pw_Parallelism raw = uint PasswordKDFParallel
     \<and> p = \<lparr>pe_KDF = pw_KDF raw, pe_Time = pw_Time raw, pe_Memory = pw_Memory raw,
            pe_Parallelism = pw_Parallelism raw, pe_KDFSalt = EncodeRaw (pw_KDFSalt raw),
            pe_WrapSalt = EncodeRaw (pw_WrapSalt raw), pe_WrapNonce = EncodeRaw (pw_WrapNonce raw),
            pe_WrappedKey = EncodeRaw (pw_WrappedKey raw)\<rparr>"

lemma Decode_EncodeRaw:
  assumes "0 < length b"
  shows "Decode (EncodeRaw b) (int n) = (if length b = n then Some b else None)"
    and "Decode (EncodeRaw b) (- 1) = Some b"
proof -
  have "b' = b" "int (length b) = int n" if "Decode (Encode b) (int n) = Some b'" for b'
  proof -
    from Decode_canonical [OF that] have "Encode b' = Encode b" "int (length b') = int n" by auto
    then show "b' = b" "int (length b) = int n"
      using b64_decode_encode [of True b] b64_decode_encode [of True b'] by (auto simp: Encode_def)
  qed
  with Decode_Encode [of b "int n"] assms
  show "Decode (EncodeRaw b) (int n) = (if length b = n then Some b else None)"
    by (cases "Decode (Encode b) (int n)") (auto simp: EncodeRaw_eq)
  from Decode_Encode [of b "- 1"] assms show "Decode (EncodeRaw b) (- 1) = Some b"
    by (auto simp: EncodeRaw_eq)
qed

lemma WrapCMK_nonce: "WrapCMK rk salt nonce cmk u v = Inr w \<Longrightarrow> length nonce = 12"
  by (auto simp: WrapCMK_def Derive_def AESGCM_def split: if_splits)

lemma WrapCMKWithPassword_Inr:
  "WrapCMKWithPassword idkey pw kdfSalt salt nonce cmk u v = Inr w \<Longrightarrow> length nonce = 12 \<and> length w = length cmk + 16"
  by (auto simp: WrapCMKWithPassword_def Derive_def AESGCM_def Let_def split: if_splits)

text \<open>
  C32: The limits of the server are those of the format.  An envelope with an encrypted text,
  valid otherwise, passes \<open>createClip\<close> to \<open>CreateClip\<close> with the nonce and the ciphertext of the
  encryption exactly when the text has 1 to 65536 bytes, and is refused with 400 if not.  A vault
  with a wrapped content key passes \<open>putVault\<close> to \<open>InitVault\<close> exactly when the content key has
  32 bytes, and a password wrap made with the parameters of \<open>clipcrypto\<close> passes
  \<open>putPasswordWrap\<close> exactly then; they are refused with 400 if not.
\<close>

theorem sizes_agree:
  assumes clip: "decodeJSON envelope_fields zero_envelope r = Inr env" "validateEnvelope env = None"
      "seals_text cmk scope nonce txt ct env"
    and vault: "Get (rq_Header r') ''If-None-Match'' = ''*''" "decodeJSON vault_fields zero_vault r' = Inr ve"
      "UUID (ve_VaultID ve) \<and> ve_FormatVersion ve = 1 \<and> ve_KeyEpoch ve = 1"
      "seals_key rk cmk' scope salt nonce' w ve" "parsePasswordWrap (ve_PasswordWrap ve) = Inr pw"
    and wrap: "decodeJSON wrap_fields zero_wrap r'' = Inr p" "seals_password idkey password cmk'' scope v raw p"
  shows "createClip ev r scope h =
      (if 1 \<le> length txt \<and> length txt \<le> 65536
       then reply (\<lambda>res. writeJSON [] (if cr_Created res then 201 else 200) (PReceipt (cr_Receipt res))) h
         (CreateClip (ev_Clk ev) scope env nonce ct
           (CreateRequestHash (env_ID env) (env_VaultID env) (env_SourceDeviceID env) (env_FormatVersion env)
             (env_KeyEpoch env) (env_ContentType env) nonce ct (env_DeliveryIntent env)) (h_store h))
       else refuse (New 400 InvalidRequest) h)
    \<and> putVault ev r' scope h =
      (if length cmk' = 32
       then reply (\<lambda>_. writeJSON [] 201 (PVault ve)) h (InitVault scope ve salt nonce' w pw (h_store h))
       else refuse (New 400 InvalidRequest) h)
    \<and> putPasswordWrap ev r'' scope h =
      (if length cmk'' = 32 then reply (\<lambda>_. noContent) h (PutPasswordWrap scope raw (h_store h))
       else refuse (New 400 InvalidRequest) h)"
proof (intro conjI, goal_cases)
  case 1
  from clip(3) EncryptItem_Inr have ct: "length nonce = 12" "length ct = length txt + 16"
    unfolding seals_text_def by blast+
  from clip(3) Decode_EncodeRaw(1) [of nonce 12] Decode_EncodeRaw(2) [of ct] ct
  have "Decode (env_Nonce env) 12 = Some nonce" "Decode (env_Ciphertext env) (- 1) = Some ct"
    by (simp_all add: seals_text_def)
  with clip(1,2) ct(2) show ?case
    by (simp add: createClip_def Let_def Suc_le_eq)
next
  case 2
  from vault(4) WrapCMK_Inr WrapCMK_nonce have w: "length nonce' = 12" "length w = length cmk' + 16"
    unfolding seals_key_def by blast+
  from vault(4) Decode_EncodeRaw(1) [of salt 32] Decode_EncodeRaw(1) [of nonce' 12] Decode_EncodeRaw(1) [of w 48] w
  have "Decode (ve_WrapSalt ve) 32 = Some salt" "Decode (ve_WrapNonce ve) 12 = Some nonce'"
    "Decode (ve_WrappedKey ve) 48 = (if length cmk' = 32 then Some w else None)"
    by (simp_all add: seals_key_def)
  with vault(1-3,5) show ?case
    by (simp add: putVault_def)
next
  case 3
  from wrap(2) WrapCMKWithPassword_Inr have w: "length (pw_WrapNonce raw) = 12"
      "length (pw_WrappedKey raw) = length cmk'' + 16"
    unfolding seals_password_def by blast+
  from wrap(2) Decode_EncodeRaw(1) [of "pw_KDFSalt raw" 16] Decode_EncodeRaw(1) [of "pw_WrapSalt raw" 32]
    Decode_EncodeRaw(1) [of "pw_WrapNonce raw" 12] Decode_EncodeRaw(1) [of "pw_WrappedKey raw" 48] w
  have "parsePasswordWrap (Some p) = (if length cmk'' = 32 then Inr (Some raw) else Inl (New 400 InvalidRequest))"
    by (simp add: seals_password_def parsePasswordWrap_def clipcryptoKDF_def PasswordKDFTime_def
        PasswordKDFMemoryKiB_def PasswordKDFParallel_def)
  with wrap(1) show ?case
    by (simp add: putPasswordWrap_def)
qed

text \<open>
  A sample device: it uploads the encrypted text of four bytes, and initialises the vault and sets
  a password with a content key of 32 bytes.
\<close>

lemma decode_flat:
  assumes "\<forall>(k, v)\<in>set ms. ValidString k \<and> flat v" and "length (marshal_object ms) \<le> 131072"
    and "rq_Body r = marshal_object ms" and "decode_struct True fs (JObj ms) zero = Some x"
  shows "decodeJSON fs zero r = Inr x"
  using read_value_marshal [OF assms(1), of "[]"] assms(2-4) by (simp add: decodeJSON_def)

definition vault_of :: "bytes \<Rightarrow> VaultEnvelope" where
  "vault_of w = \<lparr>ve_VaultID = vault1, ve_FormatVersion = 1, ve_KeyEpoch = 1, ve_WrapSalt = EncodeRaw (replicate 32 5),
     ve_WrapNonce = EncodeRaw nonce1, ve_WrappedKey = EncodeRaw w, ve_PasswordWrap = None\<rparr>"

definition vault_members :: "VaultEnvelope \<Rightarrow> (string \<times> json) list" where
  "vault_members ve =
     [(''vault_id'', JStr (ve_VaultID ve)), (''format_version'', JNum (FormatInt (ve_FormatVersion ve))),
      (''key_epoch'', JNum (FormatInt (ve_KeyEpoch ve))), (''wrap_salt'', JStr (ve_WrapSalt ve)),
      (''wrap_nonce'', JStr (ve_WrapNonce ve)), (''wrapped_key'', JStr (ve_WrappedKey ve))]"

definition raw_of :: "bytes \<Rightarrow> PasswordWrapRaw" where
  "raw_of w = \<lparr>pw_KDF = ''argon2id'', pw_Time = uint PasswordKDFTime, pw_Memory = uint PasswordKDFMemoryKiB,
     pw_Parallelism = uint PasswordKDFParallel, pw_KDFSalt = replicate 16 4, pw_WrapSalt = replicate 32 5,
     pw_WrapNonce = nonce1, pw_WrappedKey = w\<rparr>"

definition wrap_of :: "bytes \<Rightarrow> PasswordWrap" where
  "wrap_of w = \<lparr>pe_KDF = ''argon2id'', pe_Time = uint PasswordKDFTime, pe_Memory = uint PasswordKDFMemoryKiB,
     pe_Parallelism = uint PasswordKDFParallel, pe_KDFSalt = EncodeRaw (replicate 16 4),
     pe_WrapSalt = EncodeRaw (replicate 32 5), pe_WrapNonce = EncodeRaw nonce1, pe_WrappedKey = EncodeRaw w\<rparr>"

definition wrap_members :: "PasswordWrap \<Rightarrow> (string \<times> json) list" where
  "wrap_members p =
     [(''kdf'', JStr (pe_KDF p)), (''time'', JNum (FormatInt (pe_Time p))),
      (''memory'', JNum (FormatInt (pe_Memory p))), (''parallelism'', JNum (FormatInt (pe_Parallelism p))),
      (''kdf_salt'', JStr (pe_KDFSalt p)), (''wrap_salt'', JStr (pe_WrapSalt p)),
      (''wrap_nonce'', JStr (pe_WrapNonce p)), (''wrapped_key'', JStr (pe_WrappedKey p))]"

definition put_of :: "(string \<times> json) list \<Rightarrow> Request" where
  "put_of ms = logout1\<lparr>rq_Method := ''PUT'', rq_Header := [(''If-None-Match'', ''*'')], rq_Body := marshal_object ms\<rparr>"

lemma ValidString_EncodeRaw: "ValidString (EncodeRaw b)"
  using ord_Encode by (intro ValidString_ascii) (auto simp: EncodeRaw_eq list_all_iff)

lemma escaped_EncodeRaw: "length (escape_string (EncodeRaw b)) \<le> 6 * (2 * length b + 4)"
  using escape_string_length [of "EncodeRaw b"] by (simp add: EncodeRaw_def length_b64_encode)

lemma decode_vault:
  assumes "length w = 48"
  shows "decodeJSON vault_fields zero_vault (put_of (vault_members (vault_of w))) = Inr (vault_of w)"
proof (rule decode_flat)
  have "ValidString vault1" by (rule ValidString_ascii) (use sample_text [of "[]"] in \<open>simp add: list_all_iff\<close>)
  then show "\<forall>(k, v)\<in>set (vault_members (vault_of w)). ValidString k \<and> flat v"
    using ValidString_EncodeRaw
    by (auto simp: vault_members_def vault_of_def flat_def intro!: ValidString_ascii) (simp_all add: ord_def)
  show "length (marshal_object (vault_members (vault_of w))) \<le> 131072"
    using escape_string_length [of vault1] escaped_EncodeRaw [of "replicate 32 5"] escaped_EncodeRaw [of nonce1]
      escaped_EncodeRaw [of w] assms escape_string_length [of "''vault_id''"] escape_string_length [of "''format_version''"]
      escape_string_length [of "''key_epoch''"] escape_string_length [of "''wrap_salt''"]
      escape_string_length [of "''wrap_nonce''"] escape_string_length [of "''wrapped_key''"]
    by (simp add: marshal_object_def vault_members_def vault_of_def marshal_member_def marshal_string_def
        vault1_def nonce1_def FormatInt_def show_nat.simps)
qed (simp_all add: put_of_def vault_members_def vault_of_def decode_struct_def vault_fields_def select_field_def
    string_field_def int_field_def ParseInt_FormatInt in_int8_def zero_vault_def)

lemma decode_wrap:
  assumes "length w = 48"
  shows "decodeJSON wrap_fields zero_wrap (put_of (wrap_members (wrap_of w))) = Inr (wrap_of w)"
proof (rule decode_flat)
  show "\<forall>(k, v)\<in>set (wrap_members (wrap_of w)). ValidString k \<and> flat v"
    using ValidString_EncodeRaw
    by (auto simp: wrap_members_def wrap_of_def flat_def intro!: ValidString_ascii) (simp_all add: ord_def)
  show "length (marshal_object (wrap_members (wrap_of w))) \<le> 131072"
    using escaped_EncodeRaw [of "replicate 16 4"] escaped_EncodeRaw [of "replicate 32 5"] escaped_EncodeRaw [of nonce1]
      escaped_EncodeRaw [of w] assms escape_string_length [of "''argon2id''"] escape_string_length [of "''kdf''"]
      escape_string_length [of "''time''"] escape_string_length [of "''memory''"]
      escape_string_length [of "''parallelism''"] escape_string_length [of "''kdf_salt''"]
      escape_string_length [of "''wrap_salt''"] escape_string_length [of "''wrap_nonce''"]
      escape_string_length [of "''wrapped_key''"]
    by (simp add: marshal_object_def wrap_members_def wrap_of_def marshal_member_def marshal_string_def
        nonce1_def FormatInt_def show_nat.simps PasswordKDFTime_def PasswordKDFMemoryKiB_def PasswordKDFParallel_def)
qed (simp_all add: put_of_def wrap_members_def wrap_of_def decode_struct_def wrap_fields_def select_field_def
    string_field_def int_field_def ParseInt_FormatInt in_int8_def zero_wrap_def PasswordKDFTime_def
    PasswordKDFMemoryKiB_def PasswordKDFParallel_def)

theorem sizes_agree_witness:
  "\<exists>ct w w'. seals_text [7] scope1 nonce1 [1, 2, 3, 4] ct (sealed ct)
    \<and> seals_key [9] (replicate 32 3) scope1 (replicate 32 5) nonce1 w (vault_of w)
    \<and> seals_password (\<lambda>_ _ _ _ _ _. [1]) ''secret'' (replicate 32 3) scope1 vault1 (raw_of w') (wrap_of w')
    \<and> (\<exists>hash. createClip env1 (post_of ct) scope1 handler1 =
        reply (\<lambda>res. writeJSON [] (if cr_Created res then 201 else 200) (PReceipt (cr_Receipt res))) handler1
          (CreateClip (ev_Clk env1) scope1 (sealed ct) nonce1 ct hash store_in))
    \<and> putVault env1 (put_of (vault_members (vault_of w))) scope1 handler1 =
        reply (\<lambda>_. writeJSON [] 201 (PVault (vault_of w))) handler1
          (InitVault scope1 (vault_of w) (replicate 32 5) nonce1 w None store_in)
    \<and> putPasswordWrap env1 (put_of (wrap_members (wrap_of w'))) scope1 handler1 =
        reply (\<lambda>_. noContent) handler1 (PutPasswordWrap scope1 (raw_of w') store_in)"
proof -
  let ?idkey = "\<lambda>_ _ _ _ _ _. [1]" and ?cmk = "replicate 32 3"
  from sample_encrypts [of "[7]"] obtain ct where
    ct: "EncryptItem [7] vault1 user1 clip1 device1 1 nonce1 [1, 2, 3, 4] = Inr ct" "length ct = 20" by blast
  have "\<exists>w. WrapCMK [9] (replicate 32 5) nonce1 ?cmk user1 vault1 = Inr w"
    "\<exists>w. WrapCMKWithPassword ?idkey ''secret'' (replicate 16 4) (replicate 32 5) nonce1 ?cmk user1 vault1 = Inr w"
    by (simp_all add: WrapCMK_def WrapCMKWithPassword_def Derive_def AESGCM_def Let_def aes_key_def nonce1_def gcm_max_def)
  then obtain w w' where w: "WrapCMK [9] (replicate 32 5) nonce1 ?cmk user1 vault1 = Inr w"
    "WrapCMKWithPassword ?idkey ''secret'' (replicate 16 4) (replicate 32 5) nonce1 ?cmk user1 vault1 = Inr w'" by blast
  have len: "length w = 48" "length w' = 48" using WrapCMK_Inr [OF w(1)] WrapCMKWithPassword_Inr [OF w(2)] by simp_all
  have s1: "seals_text [7] scope1 nonce1 [1, 2, 3, 4] ct (sealed ct)"
    using ct(1) by (simp add: seals_text_def scope1_def EncodeRaw_eq)
  have s2: "seals_key [9] ?cmk scope1 (replicate 32 5) nonce1 w (vault_of w)"
    using w(1) by (simp add: seals_key_def scope1_def vault_of_def)
  have s3: "seals_password ?idkey ''secret'' ?cmk scope1 vault1 (raw_of w') (wrap_of w')"
    using w(2) by (simp add: seals_password_def scope1_def raw_of_def wrap_of_def)
  have valid: "validateEnvelope (sealed ct) = None" by (simp add: validateEnvelope_def)
  have star: "Get (rq_Header (put_of (vault_members (vault_of w)))) ''If-None-Match'' = ''*''"
    by (simp add: put_of_def Get_def)
  have head: "UUID (ve_VaultID (vault_of w)) \<and> ve_FormatVersion (vault_of w) = 1 \<and> ve_KeyEpoch (vault_of w) = 1"
    "parsePasswordWrap (ve_PasswordWrap (vault_of w)) = Inr None"
    by (simp_all add: vault_of_def parsePasswordWrap_def)
  note all = sizes_agree [OF decode_post [OF ct(2)] valid s1 star decode_vault [OF len(1)] head(1) s2 head(2)
      decode_wrap [OF len(2)] s3, of env1 handler1] s1 s2 s3
  show ?thesis
    by (rule exI [of _ ct], rule exI [of _ w], rule exI [of _ w']) (use all in \<open>auto simp: handler1_def\<close>)
qed

end
