(* ===== verification/Limits.thy ===== *)
theory Limits
  imports Http
begin

text \<open>
  The sliding window of \<open>gateKey\<close> (server/internal/httpapi/router.go) against its abstract
  specification: the times at which requests of one key passed.
\<close>

section \<open>A run of the limiter\<close>

text \<open>
  The keys and times of the requests that pass, given the attempts in order: the key, the
  reading of the clock and the limit of the endpoint.
\<close>

primrec gate_run :: "(string \<times> time \<times> int) list \<Rightarrow> hits \<Rightarrow> (string \<times> time) list \<times> hits" where
  "gate_run [] hs = ([], hs)"
| "gate_run (a # as) hs =
     (let (key, t, n) = a in
      case gateKey t key n hs of
        (Some _, hs) \<Rightarrow> gate_run as hs
      | (None, hs) \<Rightarrow> (let (ts, hs) = gate_run as hs in ((key, t) # ts, hs)))"

lemma gate_run_snoc:
  "gate_run (as @ [(key, t, n)]) hs =
     (let (ts, hs) = gate_run as hs; (refused, hs) = gateKey t key n hs
      in (if refused = None then ts @ [(key, t)] else ts, hs))"
  by (induction as arbitrary: hs) (auto simp: Let_def split: prod.split option.split)

definition passes :: "string \<Rightarrow> (string \<times> time) list \<Rightarrow> time list" where
  "passes key ps = map snd (filter (\<lambda>p. fst p = key) ps)"

text \<open>What passed within the minute that ends at t.\<close>

definition recent :: "time \<Rightarrow> time list \<Rightarrow> time list" where
  "recent t ts = filter (\<lambda>s. t - seconds 60 < s \<and> s \<le> t) ts"

text \<open>The state of the limiter: what it keeps of a key is what passed, less what is too old.\<close>

definition tracks :: "time \<Rightarrow> time list \<Rightarrow> time list \<Rightarrow> bool" where
  "tracks now passed stored \<longleftrightarrow>
     (\<exists>old. passed = old @ stored \<and> (\<forall>s\<in>set old. s \<le> now - seconds 60)) \<and> (\<forall>s\<in>set passed. s \<le> now)"

lemma seconds_60 [simp]: "seconds 60 = 60000000000"
  by (simp add: seconds_def)

lemma tracks_later: "tracks now passed stored \<Longrightarrow> now \<le> t \<Longrightarrow> tracks t passed stored"
proof -
  assume "tracks now passed stored" and later: "now \<le> t"
  then obtain old where "passed = old @ stored" "\<forall>s\<in>set old. s \<le> now - seconds 60" "\<forall>s\<in>set passed. s \<le> now"
    by (auto simp: tracks_def)
  moreover from this(2,3) later have "\<forall>s\<in>set old. s \<le> t - seconds 60" "\<forall>s\<in>set passed. s \<le> t"
    by (meson diff_right_mono order_trans)+
  ultimately show ?thesis unfolding tracks_def by blast
qed

lemma tracks_kept:
  assumes "tracks now passed stored" and "now \<le> now'" and "sorted passed"
  shows "recent now' passed = kept now' stored" and "tracks now' passed (kept now' stored)"
proof -
  from assms(1) obtain old where old: "passed = old @ stored" "\<forall>s\<in>set old. s \<le> now - seconds 60"
    by (auto simp: tracks_def)
  have le: "\<forall>s\<in>set passed. s \<le> now'" using tracks_later [OF assms(1,2)] by (simp add: tracks_def)
  have "filter (\<lambda>s. now' - seconds 60 < s \<and> s \<le> now') old = []"
    using old(2) assms(2) by (auto simp: filter_empty_conv)
  moreover have "filter (\<lambda>s. now' - seconds 60 < s \<and> s \<le> now') stored = kept now' stored"
    unfolding kept_def using le old(1) by (intro filter_cong) auto
  ultimately show "recent now' passed = kept now' stored" by (simp add: recent_def old(1))
  have "sorted stored" using assms(3) old(1) by (simp add: sorted_append)
  then have "\<exists>o'. stored = o' @ kept now' stored \<and> (\<forall>s\<in>set o'. s \<le> now' - seconds 60)"
  proof (induction stored)
    case (Cons a ts)
    then obtain o' where o': "ts = o' @ kept now' ts" "\<forall>s\<in>set o'. s \<le> now' - seconds 60" by auto
    show ?case
    proof (cases "now' - seconds 60 < a")
      case True
      then have "kept now' (a # ts) = a # ts"
        using Cons.prems by (fastforce simp: kept_def intro: filter_True)
      then show ?thesis by (intro exI [of _ "[]"]) simp
    next
      case False
      with o' show ?thesis by (intro exI [of _ "a # o'"]) (simp add: kept_def)
    qed
  qed (simp add: kept_def)
  then obtain o' where o': "stored = o' @ kept now' stored" "\<forall>s\<in>set o'. s \<le> now' - seconds 60" by blast
  have "passed = (old @ o') @ kept now' stored" using old(1) o'(1) by simp
  moreover have "\<forall>s\<in>set (old @ o'). s \<le> now' - seconds 60" using old(2) o'(2) assms(2) by auto
  ultimately show "tracks now' passed (kept now' stored)"
    using le unfolding tracks_def by blast
qed

text \<open>One attempt against the history of the key.\<close>

lemma gateKey_history:
  assumes "tracks now passed (hs key)" and "now \<le> t" and "sorted passed"
  shows "fst (gateKey t key n hs) = None \<longleftrightarrow> int (length (recent t passed)) < n"
    and "fst (gateKey t key n hs) = None \<Longrightarrow> tracks t (passed @ [t]) (snd (gateKey t key n hs) key)"
    and "fst (gateKey t key n hs) \<noteq> None \<Longrightarrow> tracks t passed (snd (gateKey t key n hs) key)"
proof -
  note keep = tracks_kept [OF assms]
  show "fst (gateKey t key n hs) = None \<longleftrightarrow> int (length (recent t passed)) < n"
    by (simp add: gateKey_def keep(1))
  show "fst (gateKey t key n hs) = None \<Longrightarrow> tracks t (passed @ [t]) (snd (gateKey t key n hs) key)"
    using keep(2) by (auto simp: gateKey_def tracks_def split: if_splits)
  show "fst (gateKey t key n hs) \<noteq> None \<Longrightarrow> tracks t passed (snd (gateKey t key n hs) key)"
    using tracks_later [OF assms(1,2)] by (simp add: gateKey_def split: if_splits)
qed

lemma gateKey_other: "key' \<noteq> key \<Longrightarrow> snd (gateKey t key n hs) key' = hs key'"
  by (simp add: gateKey_def)

lemma passes_snoc: "passes key (ps @ [(k, t)]) = passes key ps @ (if k = key then [t] else [])"
  by (simp add: passes_def)

text \<open>The invariant of a run that starts with an empty table.\<close>

lemma gate_run_tracks:
  assumes "sorted (map (fst \<circ> snd) as)" and "\<forall>a\<in>set as. fst (snd a) \<le> now" and "gate_run as (\<lambda>_. []) = (ps, hs)"
  shows "tracks now (passes key ps) (hs key) \<and> sorted (passes key ps)"
  using assms
proof (induction as arbitrary: ps hs now rule: rev_induct)
  case Nil
  then show ?case by (auto simp: passes_def tracks_def)
next
  case (snoc a as)
  obtain k t n where a: "a = (k, t, n)" by (cases a)
  obtain ps0 hs0 where run: "gate_run as (\<lambda>_. []) = (ps0, hs0)" by fastforce
  have le: "\<forall>a\<in>set as. fst (snd a) \<le> t" using snoc.prems(1) by (auto simp: a sorted_append)
  have IH: "tracks t (passes key ps0) (hs0 key) \<and> sorted (passes key ps0)"
    using snoc.IH [OF _ le run] snoc.prems(1) by (simp add: sorted_append comp_def)
  obtain ref hs1 where g: "gateKey t k n hs0 = (ref, hs1)" by fastforce
  from snoc.prems(3) have ps: "ps = (if ref = None then ps0 @ [(k, t)] else ps0)" and hs: "hs = hs1"
    by (simp_all add: a gate_run_snoc run g)
  have "tracks t (passes key ps) (hs key) \<and> sorted (passes key ps)"
  proof (cases "k = key")
    case True
    have le: "\<forall>s\<in>set (passes key ps0). s \<le> t" using IH by (simp add: tracks_def)
    note step = gateKey_history(2,3) [where hs = hs0 and key = key and n = n, OF IH [THEN conjunct1] order.refl IH [THEN conjunct2]]
    show ?thesis
    proof (cases ref)
      case None
      with step(1) g True have "tracks t (passes key ps) (hs key)" by (simp add: ps hs passes_snoc)
      with None IH le True show ?thesis by (simp add: ps passes_snoc sorted_append)
    next
      case (Some r)
      with step(2) g True IH show ?thesis by (simp add: ps hs)
    qed
  next
    case False
    with gateKey_other [of key k t n hs0] IH g show ?thesis by (simp add: ps hs passes_snoc)
  qed
  moreover have "t \<le> now" using snoc.prems(2) by (simp add: a)
  ultimately show ?case using tracks_later by blast
qed

lemma recent_mono: "sorted ps \<Longrightarrow> \<forall>s\<in>set ps. s \<le> t \<Longrightarrow> t \<le> t' \<Longrightarrow> length (recent t' ps) \<le> length (recent t ps)"
  by (induction ps) (auto simp: recent_def)

text \<open>No window of a minute exceeds the largest limit.\<close>

lemma gate_bound:
  assumes "sorted (map (fst \<circ> snd) as)" and "\<forall>(k, _, m)\<in>set as. k = key \<longrightarrow> m \<le> N" and N: "0 \<le> N"
    and "gate_run as (\<lambda>_. []) = (ps, hs)"
  shows "int (length (recent w (passes key ps))) \<le> N"
  using assms(1,2,4)
proof (induction as arbitrary: ps hs w rule: rev_induct)
  case Nil
  with N show ?case by (simp add: passes_def recent_def)
next
  case (snoc a as)
  obtain k t n where a: "a = (k, t, n)" by (cases a)
  obtain ps0 hs0 where run: "gate_run as (\<lambda>_. []) = (ps0, hs0)" by fastforce
  have le: "\<forall>a\<in>set as. fst (snd a) \<le> t" and sorted: "sorted (map (fst \<circ> snd) as)"
    using snoc.prems(1) by (auto simp: a sorted_append comp_def)
  note tr = gate_run_tracks [OF sorted le run, of key]
  have IH: "int (length (recent w (passes key ps0))) \<le> N" for w
    using snoc.IH [OF sorted _ run] snoc.prems(2) by auto
  obtain ref hs1 where g: "gateKey t k n hs0 = (ref, hs1)" by fastforce
  from snoc.prems(3) have ps: "ps = (if ref = None then ps0 @ [(k, t)] else ps0)"
    by (simp_all add: a gate_run_snoc run g)
  show ?case
  proof (cases "ref = None \<and> k = key \<and> t \<le> w")
    case True
    then have "int (length (recent t (passes key ps0))) < N"
      using gateKey_history(1) [where hs = hs0 and key = key and n = n, OF tr [THEN conjunct1] order.refl tr [THEN conjunct2]] g snoc.prems(2) a by auto
    moreover have "length (recent w (passes key ps0)) \<le> length (recent t (passes key ps0))"
      using tr True by (intro recent_mono) (auto simp: tracks_def)
    moreover have "length (recent w (passes key ps)) \<le> Suc (length (recent w (passes key ps0)))"
      using True by (simp add: ps passes_snoc recent_def)
    ultimately show ?thesis by linarith
  next
    case False
    then have "recent w (passes key ps) = recent w (passes key ps0)"
      by (auto simp: ps passes_snoc recent_def)
    with IH show ?thesis by simp
  qed
qed

text \<open>
  C24: The limiter keeps every window of a minute within its bound: started empty and driven by a
  clock that does not run backwards, with limits of at most N, it lets at most N requests of a
  key pass in any sixty seconds; and it refuses a request only if as many as the limit of its
  endpoint have passed in the minute before it.  The requests of other keys do not matter.
\<close>

theorem gate_window:
  assumes clock: "sorted (map (fst \<circ> snd) (as @ [(key, t, n)]))"
    and limits: "\<forall>(k, _, m)\<in>set as. k = key \<longrightarrow> m \<le> N" and N: "0 \<le> N"
    and run: "gate_run as (\<lambda>_. []) = (ps, hs)"
  shows "int (length (recent w (passes key ps))) \<le> N
    \<and> (fst (gateKey t key n hs) = None \<longleftrightarrow> int (length (recent t (passes key ps))) < n)"
proof
  have "\<forall>a\<in>set as. fst (snd a) \<le> t" using clock by (auto simp: sorted_append)
  moreover have sorted: "sorted (map (fst \<circ> snd) as)" using clock by (simp add: sorted_append comp_def)
  ultimately have "tracks t (passes key ps) (hs key) \<and> sorted (passes key ps)" using gate_run_tracks run by blast
  then show "fst (gateKey t key n hs) = None \<longleftrightarrow> int (length (recent t (passes key ps))) < n"
    using gateKey_history(1) by blast
  show "int (length (recent w (passes key ps))) \<le> N" by (rule gate_bound [OF sorted limits N run])
qed

text \<open>Three logins of a user within a second, where two are allowed a minute.\<close>

theorem gate_window_witness:
  "fst (gateKey 1000000002 ''u:alice'' 2
     (snd (gate_run [(''u:alice'', 1000000000, 2), (''u:bob'', 1000000000, 2), (''u:alice'', 1000000001, 2)] (\<lambda>_. []))))
   \<noteq> None"
  using gate_window [of "[(''u:alice'', 1000000000, 2), (''u:bob'', 1000000000, 2), (''u:alice'', 1000000001, 2)]"
      "''u:alice''" 1000000002 2 2, OF _ _ _ surjective_pairing]
  by (simp add: gateKey_def kept_def passes_def recent_def Let_def)

end
