(* ===== verification/Isolation.thy ===== *)
theory Isolation
  imports Errors
begin

text \<open>
  The accounts do not interfere.  \<open>view u\<close> is what the database holds for account u: its row of
  users with the password hash, its vault, counters, devices, sessions, clips, log, receipts and
  snapshots.  \<open>common\<close> are the tables of no account.  A request with a token of u changes no other
  view and nothing of \<open>common\<close>.  That what it answers depends on nothing but the view of u is
  theory Secrecy.
\<close>

section \<open>The view of an account\<close>

definition owned :: "('v \<Rightarrow> uuid) \<Rightarrow> uuid \<Rightarrow> ('k, 'v) table \<Rightarrow> 'k \<Rightarrow> 'v option" where
  "owned f u t k = (case fmlookup t k of None \<Rightarrow> None | Some r \<Rightarrow> if f r = u then Some r else None)"

definition view where
  "view (u :: uuid) (db :: DB) =
     (fmlookup (users db) u, fmlookup (vaults db) u, fmlookup (user_sync_state db) u,
      (\<lambda>d. fmlookup (devices db) (u, d)), owned s_user_id u (sessions db),
      (\<lambda>c. fmlookup (clip_ids db) (u, c)), (\<lambda>c. fmlookup (clips db) (u, c)),
      (\<lambda>q. fmlookup (sync_events db) (u, q)), (\<lambda>i. fmlookup (operation_receipts db) (u, i)),
      owned n_user_id u (snapshot_sessions db))"

definition common where
  "common (db :: DB) = (server_state db, registration_invites db, email_codes db, used_refresh_tokens db)"

definition spares :: "uuid \<Rightarrow> DB \<Rightarrow> DB \<Rightarrow> bool" where
  "spares u db db' \<longleftrightarrow> (\<forall>v. v \<noteq> u \<longrightarrow> view v db' = view v db) \<and> common db' = common db"

lemma spares_refl [simp]: "spares u db db"
  by (simp add: spares_def)

lemma spares_trans: "spares u a b \<Longrightarrow> spares u b c \<Longrightarrow> spares u a c"
  by (simp add: spares_def)

lemma owned_fmupd: "(\<And>r'. fmlookup t k = Some r' \<Longrightarrow> f r' = u) \<Longrightarrow> f r = u \<Longrightarrow> v \<noteq> u \<Longrightarrow>
    owned f v (fmupd k r t) = owned f v t"
  by (auto simp: owned_def fun_eq_iff split: option.split)

lemma owned_fmupd_new: "fmlookup t k = None \<Longrightarrow> v \<noteq> f r \<Longrightarrow> owned f v (fmupd k r t) = owned f v t"
  by (auto simp: owned_def fun_eq_iff split: option.split)

lemma owned_update_where:
  assumes "\<And>k r. P k r \<Longrightarrow> fmlookup t k = Some r \<Longrightarrow> f r = u" and "\<And>r. f (g r) = f r" and "v \<noteq> u"
  shows "owned f v (update_where P g t) = owned f v t"
  using assms by (auto simp: owned_def fun_eq_iff lookup_update_where split: option.split)

text \<open>The statements on behalf of u.\<close>

lemma spares_statements:
  "update_user lw u uf db = Inr db' \<Longrightarrow> spares u db db'"
  "insert_vault u vr db = Inr db' \<Longrightarrow> spares u db db'"
  "update_vault_wrap u p db = Inr (n, db') \<Longrightarrow> spares u db db'"
  "update_sync u sf db = Inr (q, db') \<Longrightarrow> spares u db db'"
  "insert_clip_id u c ci db = Inr db' \<Longrightarrow> spares u db db'"
  "update_clip_id u c cif db = Inr db' \<Longrightarrow> spares u db db'"
  "insert_clip u c cr db = Inr db' \<Longrightarrow> spares u db db'"
  "update_clip u c crf db = Inr db' \<Longrightarrow> spares u db db'"
  "update_clip_returning u c crf db = Inr (row, db') \<Longrightarrow> spares u db db'"
  "insert_event u sq er db = Inr db' \<Longrightarrow> spares u db db'"
  "insert_receipt u rid rr db = Inr db' \<Longrightarrow> spares u db db'"
  "n_user_id sr = u \<Longrightarrow> insert_snapshot sh sr db = Inr db' \<Longrightarrow> spares u db db'"
  by (auto simp: spares_def view_def common_def res has_row_def owned_fmupd owned_fmupd_new)

lemma spares_updates:
  "spares u db (delete_clip u c db)" "spares u db (touch_device t u d db)"
  "(\<And>k s. P k s \<Longrightarrow> fmlookup (sessions db) k = Some s \<Longrightarrow> s_user_id s = u) \<Longrightarrow> spares u db (revoke_sessions t P db)"
  by (auto simp: spares_def view_def common_def delete_clip_def touch_device_def revoke_sessions_def lookup_update_where
      option.map_ident fun_eq_iff split: option.split
      intro!: owned_update_where [THEN fun_cong])

lemma spares_revoke:
  "(\<And>k s. P k s \<Longrightarrow> s_user_id s = u) \<Longrightarrow> spares u dba db \<Longrightarrow> spares u dba (revoke_sessions t P db)"
  by (erule spares_trans) (rule spares_updates(3))

text \<open>Rules that pass a statement, as in theory AuthQuiet.\<close>

named_theorems spared

lemma spares_passes [spared]:
  assumes "spares u dba db" and P: "\<And>db'. spares u dba db' \<Longrightarrow> P db'"
  shows "outcome P (update_user lw u uf db)" "outcome P (insert_vault u vr db)"
    "outcome P (insert_clip_id u c ci db)" "outcome P (update_clip_id u c cif db)"
    "outcome P (insert_clip u c cr db)" "outcome P (update_clip u c crf db)"
    "outcome P (insert_event u sq er db)" "outcome P (insert_receipt u rid rr db)"
  unfolding outcome_def
  by (auto dest: spares_statements intro!: P intro: spares_trans [OF assms(1)])

lemma spares_passes_snapshot [spared]:
  assumes "spares u dba db" and "n_user_id sr = u" and P: "\<And>db'. spares u dba db' \<Longrightarrow> P db'"
  shows "outcome P (insert_snapshot sh sr db)"
  unfolding outcome_def
  using spares_statements(12) [OF assms(2)] spares_trans [OF assms(1)] P by blast

lemma spares_passes_results [spared]:
  assumes "spares u dba db"
  shows "(\<And>x db'. spares u dba db' \<Longrightarrow> P (x, db')) \<Longrightarrow> outcome P (update_vault_wrap u p db)"
    "(\<And>x db'. spares u dba db' \<Longrightarrow> Q (x, db')) \<Longrightarrow> outcome Q (update_sync u sf db)"
    "(\<And>x db'. spares u dba db' \<Longrightarrow> R (x, db')) \<Longrightarrow> outcome R (update_clip_returning u c crf db)"
  unfolding outcome_def
  by (auto dest: spares_statements intro: spares_trans [OF assms(1)])

lemma spares_then: "spares u dba db \<Longrightarrow> spares u db db' \<Longrightarrow> spares u dba db'"
  by (rule spares_trans)

lemma spares_delete [spared]: "spares u dba db \<Longrightarrow> spares u dba (delete_clip u c db)"
  by (erule spares_trans) (rule spares_updates)

lemma run_tx_spares:
  assumes "outcome (\<lambda>(y, db). spares u (st_Pool st) db) (f (st_Pool st))"
  shows "spares u (st_Pool st) (st_Pool (snd (run_tx f st)))"
  using assms by (cases "f (st_Pool st)") (auto simp: run_tx_def)

section \<open>What an operation may change\<close>

lemma spares_create_tx: "outcome (\<lambda>(y, db'). spares (sc_UserID scope) db db') (create_tx cfg clk scope env nonce ct h db)"
  unfolding create_tx_def Let_def
  by (simp split: option.split, intro allI impI conjI;
    (assumption | rule spared spares_refl | simp only: outcome_bind prod.case outcome_Inr split_paired_all)+)

lemma spares_bump: "outcome (\<lambda>(y, db'). spares (sc_UserID scope) db db') (bump clk scope clip status kind trash db)"
  unfolding bump_def Let_def
  by (cases trash; simp only: if_True if_False;
    (assumption | rule spared spares_refl | simp only: outcome_bind prod.case outcome_Inr split_paired_all)+)

lemma spares_purgeLocked: "outcome (\<lambda>(y, db'). spares (sc_UserID scope) db db') (purgeLocked clk scope clip db)"
  unfolding purgeLocked_def Let_def
  by (cases "fmlookup (clips db) (sc_UserID scope, env_ID clip)"; simp only: option.case outcome_Inl;
    (assumption | rule spared spares_refl | simp only: outcome_bind prod.case outcome_Inr split_paired_all)+)

lemma outcome_mono: "outcome P m \<Longrightarrow> (\<And>y. P y \<Longrightarrow> Q y) \<Longrightarrow> outcome Q m"
  by (simp add: outcome_def)

lemma spares_mutate_tx:
  "outcome (\<lambda>(y, db'). spares (sc_UserID scope) db db') (mutate_tx clk scope c op kind v h db)"
proof -
  have applied: "outcome (\<lambda>(y, db'). spares (sc_UserID scope) db db') (applyMutation clk' scope c kind v db)" for clk'
    using spares_bump spares_purgeLocked by (auto simp: applyMutation_def Let_def split: option.split)
  have receipt: "outcome (\<lambda>db2. spares (sc_UserID scope) db db2) (insert_receipt (sc_UserID scope) op rr db1)"
    if "spares (sc_UserID scope) db db1" for rr db1
    by (rule spares_passes(8) [OF that])
  show ?thesis
    unfolding mutate_tx_def Let_def
    by (cases "live_receipt (clk 0) (sc_UserID scope) op db")
      (auto intro!: outcome_mono [OF applied] receipt)
qed

section \<open>Sockets\<close>

fun ws_conn :: "ws_event \<Rightarrow> Conn" where
  "ws_conn (WsWrite c m) = c"
| "ws_conn (WsClose c why) = c"

text \<open>What account u sees of the live connections: its own, and what is sent to them.\<close>

definition sockets :: "uuid \<Rightarrow> Hub \<Rightarrow> Conn list \<times> ws_event list" where
  "sockets u h = (conns_of h u, filter (\<lambda>e. conn_UserID (ws_conn e) = u) (ws_log h))"

definition private_part where
  "private_part u st = (view u (st_Pool st), map_option (sockets u) (st_Hub st))"

definition hub_fine :: "Store \<Rightarrow> bool" where
  "hub_fine st \<longleftrightarrow> (\<forall>h. st_Hub st = Some h \<longrightarrow> hub_ok h)"

definition keeps_to :: "uuid \<Rightarrow> Store \<Rightarrow> Store \<Rightarrow> bool" where
  "keeps_to u st st' \<longleftrightarrow> (\<forall>v. v \<noteq> u \<longrightarrow> private_part v st' = private_part v st)
     \<and> common (st_Pool st') = common (st_Pool st)"

lemma keeps_to_refl [simp]: "keeps_to u st st"
  by (simp add: keeps_to_def)

lemma keeps_to_trans: "keeps_to u a b \<Longrightarrow> keeps_to u b c \<Longrightarrow> keeps_to u a c"
  by (simp add: keeps_to_def)

lemma keeps_to_pool: "spares u (st_Pool st) db \<Longrightarrow> keeps_to u st (st\<lparr>st_Pool := db\<rparr>)"
  by (simp add: keeps_to_def spares_def private_part_def)

lemma hub_fine_pool [simp]: "hub_fine (st\<lparr>st_Pool := db\<rparr>) = hub_fine st"
  by (simp add: hub_fine_def)

lemma sockets_others:
  assumes "hub_ok h" and "v \<noteq> u"
  shows "sockets v (CloseUser u h) = sockets v h" "sockets v (CloseDevice u d h) = sockets v h"
    "sockets v (Broadcast u e w h) = sockets v h" "conn_UserID c = u \<Longrightarrow> sockets v (Add c h) = sockets v h"
  using assms(2) hub_okD [OF assms(1), of u]
  by (auto simp: sockets_def hub CloseUser_def [THEN arg_cong [of _ _ ws_log]] ws_log_CloseDevice Add_def [THEN arg_cong [of _ _ ws_log]]
      Broadcast_def [THEN arg_cong [of _ _ ws_log]] filter_empty_conv)

lemma keeps_to_hub:
  "(\<And>h v. st_Hub st = Some h \<Longrightarrow> v \<noteq> u \<Longrightarrow> sockets v (f h) = sockets v h) \<Longrightarrow>
     keeps_to u st (st\<lparr>st_Hub := map_option f (st_Hub st)\<rparr>)"
  by (cases "st_Hub st") (auto simp: keeps_to_def private_part_def)

lemma keeps_to_notify: "hub_fine st \<Longrightarrow> keeps_to u st (notify u st)"
  by (auto simp: keeps_to_def private_part_def notify_def Let_def hub_fine_def sockets_others
      split: option.split prod.split)

lemma keeps_to_close: "hub_fine st \<Longrightarrow> keeps_to u st (close_user u st)" "hub_fine st \<Longrightarrow> keeps_to u st (close_device u d st)"
  unfolding close_user_def close_device_def by (auto intro!: keeps_to_hub simp: hub_fine_def sockets_others)

section \<open>Operations on behalf of an account\<close>

lemma run_tx_keeps:
  assumes "run_tx f st = (x, st')" and "outcome (\<lambda>(y, db). spares u (st_Pool st) db) (f (st_Pool st))"
  shows "keeps_to u st st' \<and> hub_fine st' = hub_fine st"
  using assms by (cases "f (st_Pool st)") (auto simp: keeps_to_pool)

lemma keeps_to_then:
  "keeps_to u st0 st \<Longrightarrow> hub_fine st \<Longrightarrow> keeps_to u st0 (notify u st)"
  "keeps_to u st0 st \<Longrightarrow> hub_fine st \<Longrightarrow> keeps_to u st0 (close_user u st)"
  "keeps_to u st0 st \<Longrightarrow> hub_fine st \<Longrightarrow> keeps_to u st0 (close_device u d st)"
  by (blast intro: keeps_to_trans keeps_to_notify keeps_to_close)+

named_theorems keeping

lemma CreateClip_keeps [keeping]:
  assumes "CreateClip clk scope env nonce ct h st = (x, st')" and "hub_fine st"
  shows "keeps_to (sc_UserID scope) st st'"
proof -
  have "keeps_to (sc_UserID scope) st st1 \<and> hub_fine st1 = hub_fine st"
    if "run_tx (create_tx (st_Cfg st) clk scope env nonce ct h) st = (y, st1)" for y st1
    by (rule run_tx_keeps [OF that spares_create_tx])
  with assms show ?thesis
    by (fastforce simp: CreateClip_def split: if_splits prod.splits sum.splits intro: keeps_to_then)
qed

lemma MutateClip_keeps [keeping]:
  assumes "MutateClip clk scope c op kind v h st = (x, st')" and "hub_fine st"
  shows "keeps_to (sc_UserID scope) st st'"
proof -
  have "keeps_to (sc_UserID scope) st st1 \<and> hub_fine st1 = hub_fine st"
    if "run_tx (mutate_tx clk scope c op kind v h) st = (y, st1)" for y st1
    by (rule run_tx_keeps [OF that]) (use spares_mutate_tx in auto)
  with assms show ?thesis
    by (fastforce simp: MutateClip_def split: if_splits prod.splits sum.splits intro: keeps_to_then)
qed

lemma BeginSnapshot_keeps [keeping]:
  assumes "BeginSnapshot clk raw scope st = (x, st')"
  shows "keeps_to (sc_UserID scope) st st'"
  using assms unfolding BeginSnapshot_def Let_def
  by (auto split: prod.splits option.splits intro!: run_tx_keeps [THEN conjunct1] spares_passes_snapshot [OF spares_refl])

lemma ChangePassword_keeps [keeping]:
  assumes "ChangePassword w fr clk scope old new st = (x, st')" and "hub_fine st"
  shows "keeps_to (sc_UserID scope) st st'"
proof -
  let ?f = "\<lambda>db. case fmlookup (users db) (sc_UserID scope) of
                 None \<Rightarrow> Inl (Db NoRows)
               | Some r \<Rightarrow>
                   if u_auth_provider r \<noteq> ''local'' then Inl (App (New 403 RegistrationDisabled))
                   else if Verify (w_idkey w) old (u_password_hash r) \<noteq> Some True
                   then Inl (App (New 401 Unauthenticated))
                   else set_password w clk (Hash (w_idkey w) (f_salt fr) new) (sc_UserID scope) db"
  have set: "outcome (\<lambda>(y, db'). spares (sc_UserID scope) db db') (set_password w clk hash (sc_UserID scope) db)" for hash db
    unfolding set_password_def
    by (auto intro!: spares_passes(1) [OF spares_refl] elim: spares_trans [OF _ spares_updates(3)])
  have "keeps_to (sc_UserID scope) st st1 \<and> hub_fine st1 = hub_fine st" if "run_tx ?f st = (y, st1)" for y st1
    by (rule run_tx_keeps [OF that]) (simp add: set split: option.split)
  with assms show ?thesis
    by (fastforce simp: ChangePassword_def split: prod.splits sum.splits intro: keeps_to_then)
qed

lemma spares_revoke_tx: "outcome (\<lambda>(y, db'). spares u db db') (revoke_tx clk u d db)"
proof -
  have "spares u db (db\<lparr>devices := fmupd (u, d) r (devices db)\<rparr>)" for r
    by (auto simp: spares_def view_def common_def)
  then show ?thesis
    by (auto simp: revoke_tx_def Let_def split: option.split intro!: spares_revoke)
qed

lemma RevokeDevice_keeps [keeping]:
  assumes "RevokeDevice clk scope d st = (x, st')" and "hub_fine st"
  shows "keeps_to (sc_UserID scope) st st'"
proof -
  have "keeps_to (sc_UserID scope) st st1 \<and> hub_fine st1 = hub_fine st"
    if "run_tx (revoke_tx clk (sc_UserID scope) d) st = (y, st1)" for y st1
    by (rule run_tx_keeps [OF that spares_revoke_tx])
  with assms show ?thesis
    by (fastforce simp: RevokeDevice_def split: prod.splits sum.splits intro: keeps_to_then)
qed

lemma InitVault_keeps [keeping]:
  assumes "InitVault scope env salt nonce wrapped pw st = (x, st')"
  shows "keeps_to (sc_UserID scope) st st'"
  using assms unfolding InitVault_def
  by (auto split: sum.split dest: spares_statements(2) intro!: run_tx_keeps [THEN conjunct1])

lemma PutPasswordWrap_keeps [keeping]:
  assumes "PutPasswordWrap scope pw st = (x, st')"
  shows "keeps_to (sc_UserID scope) st st'"
  using assms unfolding PutPasswordWrap_def
  by (auto intro!: run_tx_keeps [THEN conjunct1] spares_passes_results(1) [OF spares_refl])

lemma Logout_keeps [keeping]:
  "fmlookup (sessions (st_Pool st)) (sc_SessionID scope) = Some s \<Longrightarrow> s_user_id s = sc_UserID scope \<Longrightarrow>
     keeps_to (sc_UserID scope) st (Logout clk scope st)"
  unfolding Logout_def by (auto intro!: keeps_to_pool spares_updates(3))

lemma LookupAccess_keeps:
  assumes "LookupAccess clk now token st = (x, st')"
  shows "case x of Inl e \<Rightarrow> st' = st
    | Inr scope \<Rightarrow> keeps_to (sc_UserID scope) st st' \<and> hub_fine st' = hub_fine st
        \<and> (\<exists>s. fmlookup (sessions (st_Pool st')) (sc_SessionID scope) = Some s \<and> s_user_id s = sc_UserID scope)"
  using assms
  by (auto simp: LookupAccess_def touch_device_def [THEN arg_cong [of _ _ sessions]]
      split: if_splits option.splits prod.splits dest!: session_join_Some intro!: keeps_to_pool spares_updates(2))

section \<open>Requests\<close>

definition authed_keeps :: "authed \<Rightarrow> bool" where
  "authed_keeps f \<longleftrightarrow> (\<forall>ev r scope h s. hub_fine (h_store h) \<longrightarrow>
     fmlookup (sessions (st_Pool (h_store h))) (sc_SessionID scope) = Some s \<longrightarrow> s_user_id s = sc_UserID scope \<longrightarrow>
     keeps_to (sc_UserID scope) (h_store h) (h_store (snd (f ev r scope h)))
     \<and> h_loginHits (snd (f ev r scope h)) = h_loginHits h)"

lemma keeps_reply:
  "(\<And>x st'. res = (x, st') \<Longrightarrow> keeps_to u st st') \<Longrightarrow> keeps_to u st (h_store (snd (reply ok h res)))"
  by (cases res) (simp add: reply_def)

lemma keeps_refuse [simp]: "h_store (snd (refuse e h)) = h_store h"
  by (simp add: refuse_def)

lemma hits_kept [simp]:
  "h_loginHits (snd (refuse e h)) = h_loginHits h" "h_loginHits (snd (reply ok h res)) = h_loginHits h"
  by (simp_all add: refuse_def reply_def split: prod.split)

lemma authed_keeps_all:
  "authed_keeps logout" "authed_keeps changePassword" "authed_keeps listDevices" "authed_keeps (revokeDevice i)"
  "authed_keeps getVault" "authed_keeps putVault" "authed_keeps putPasswordWrap" "authed_keeps createClip"
  "authed_keeps listClips" "authed_keeps (getClip i)" "authed_keeps (mutate kind i)" "authed_keeps changes"
  "authed_keeps beginSnapshot" "authed_keeps (snapshotPage i)" "authed_keeps websocket"
  by (auto simp: authed_keeps_def authed_defs Let_def on_hub_def session_conn_def
      split: sum.split option.split intro!: keeps_reply keeps_to_hub dest: keeping
      simp: Logout_keeps hub_fine_def sockets_others)

text \<open>The endpoints without the wrapper, and the account a request acts for behind it.\<close>

fun public :: "endpoint \<Rightarrow> bool" where
  "public RegisterE = True"
| "public EmailCodeE = True"
| "public LoginE = True"
| "public RefreshE = True"
| "public _ = False"

definition on_behalf :: "Env \<Rightarrow> Request \<Rightarrow> Handler \<Rightarrow> uuid option" where
  "on_behalf ev r h =
     (let header = Get (rq_Header r) ''Authorization'' in
      if \<not> HasPrefix header ''Bearer '' then None
      else case fst (LookupAccess (ev_AuthClk ev) (ev_GoClk ev 0) (TrimPrefix header ''Bearer '') (h_store h)) of
        Inl _ \<Rightarrow> None
      | Inr scope \<Rightarrow> Some (sc_UserID scope))"

text \<open>What a request leaves of another account, of the shared tables, and of the login windows.\<close>

definition untouched :: "uuid \<Rightarrow> Handler \<Rightarrow> Handler \<Rightarrow> bool" where
  "untouched v h h' \<longleftrightarrow> private_part v (h_store h') = private_part v (h_store h)
     \<and> common (st_Pool (h_store h')) = common (st_Pool (h_store h)) \<and> h_loginHits h' = h_loginHits h"

lemma auth_keeps:
  assumes "authed_keeps f" and "hub_fine (h_store h)" and "on_behalf ev r h \<noteq> Some v"
  shows "untouched v h (snd (auth f ev r h))"
proof -
  let ?token = "TrimPrefix (Get (rq_Header r) ''Authorization'') ''Bearer ''"
  obtain x st where look: "LookupAccess (ev_AuthClk ev) (ev_GoClk ev 0) ?token (h_store h) = (x, st)" by fastforce
  show ?thesis
  proof (cases x)
    case (Inl e)
    with LookupAccess_keeps [OF look] look show ?thesis by (simp add: auth_def Let_def untouched_def)
  next
    case (Inr scope)
    with LookupAccess_keeps [OF look] obtain s where "keeps_to (sc_UserID scope) (h_store h) st"
      "hub_fine st" "fmlookup (sessions (st_Pool st)) (sc_SessionID scope) = Some s" "s_user_id s = sc_UserID scope"
      using assms(2) by auto
    moreover from this have "keeps_to (sc_UserID scope) st (h_store (snd (f ev r scope (h\<lparr>h_store := st\<rparr>))))"
      "h_loginHits (snd (f ev r scope (h\<lparr>h_store := st\<rparr>))) = h_loginHits h"
      using assms(1) [unfolded authed_keeps_def, rule_format, of "h\<lparr>h_store := st\<rparr>" scope s ev r] by simp_all
    moreover have "v \<noteq> sc_UserID scope" if "HasPrefix (Get (rq_Header r) ''Authorization'') ''Bearer ''"
      using assms(3) that look Inr by (simp add: on_behalf_def Let_def)
    ultimately show ?thesis using look Inr by (auto simp: auth_def Let_def keeps_to_def untouched_def)
  qed
qed

lemma plain_keeps:
  "snd (health ev r h) = h" "snd (readyz ev r h) = h" "snd (serverInfo ev r h) = h" "snd (refuse e h) = h"
  by (simp_all add: health_def readyz_def serverInfo_def refuse_def Let_def)

text \<open>
  C25: Accounts are isolated.  A request behind the authentication wrapper changes nothing the
  server holds for any account but the one its token belongs to: not its row of users with the
  password hash and the status, its vault, devices, sessions, counters, clips, log, receipts and
  snapshots, not its live connections, and nothing is sent to them.  Nor does it change what
  belongs to no account, the server's identity, the invites, the email codes, the tokens kept
  against reuse and the windows of the rate limiter.  A request whose token authenticates nobody
  changes nothing for anyone.
\<close>

theorem tenant_isolation:
  assumes "hub_fine (h_store h)" and "\<not> public (route r)" and "on_behalf ev r h \<noteq> Some v"
  shows "untouched v h (snd (serve ev r h))"
proof -
  have wrapped: "untouched v h (snd (auth f ev r h))" if "authed_keeps f" for f
    by (rule auth_keeps [OF that assms(1,3)])
  from assms(2) show ?thesis
    unfolding serve_def by (cases "route r")
      (simp_all add: plain_keeps untouched_def [of v h h] trashClip_def restoreClip_def purgeClip_def wrapped authed_keeps_all)
qed

text \<open>The logout of the sample session, seen by an account other than the one it belongs to.\<close>

theorem tenant_isolation_witness: "untouched ''someone else'' handler1 (snd (serve env1 logout1 handler1))"
proof -
  have "on_behalf env1 logout1 handler1 \<noteq> Some ''someone else''"
    by (auto simp: on_behalf_def Let_def LookupAccess_def handler1_def session_row1_def user1_def
        split: if_splits option.splits prod.splits dest!: session_join_Some)
  then show ?thesis
    by (intro tenant_isolation) (simp_all add: handler1_def hub_fine_def store_in_def store0_def hub_ok_intros)
qed

end
