(* ===== verification/Secrecy.thy ===== *)
theory Secrecy
  imports Isolation
begin

text \<open>
  What a client of one account can learn.  Two databases are \<open>alike\<close> for u when u's view of them
  and the server's row are the same; the endpoints of the account answer u the same in both,
  whatever other accounts hold.
\<close>

section \<open>Databases that look the same\<close>

definition alike :: "uuid \<Rightarrow> DB \<Rightarrow> DB \<Rightarrow> bool" where
  "alike u a b \<longleftrightarrow> view u a = view u b \<and> server_state a = server_state b"

lemma alikeD:
  assumes "alike u a b"
  shows "fmlookup (users a) u = fmlookup (users b) u" "fmlookup (vaults a) u = fmlookup (vaults b) u"
    "fmlookup (user_sync_state a) u = fmlookup (user_sync_state b) u"
    "fmlookup (devices a) (u, d) = fmlookup (devices b) (u, d)"
    "fmlookup (clip_ids a) (u, c) = fmlookup (clip_ids b) (u, c)"
    "fmlookup (clips a) (u, c) = fmlookup (clips b) (u, c)"
    "fmlookup (sync_events a) (u, q) = fmlookup (sync_events b) (u, q)"
    "fmlookup (operation_receipts a) (u, i) = fmlookup (operation_receipts b) (u, i)"
    "server_state a = server_state b"
  using assms by (auto simp: alike_def view_def fun_eq_iff)

text \<open>The rows of one owner, in the order of the key.\<close>

lemma own_rows_eq:
  fixes t t' :: "(uuid \<times> 'k::linorder, 'v) table"
  assumes "\<And>k. fmlookup t (u, k) = fmlookup t' (u, k)"
  shows "map (\<lambda>((_, k), r). (k, r)) (filter (\<lambda>((v, _), _). v = u) (rows t))
    = map (\<lambda>((_, k), r). (k, r)) (filter (\<lambda>((v, _), _). v = u) (rows t'))" (is "?own t = ?own t'")
proof (rule map_sorted_distinct_set_unique [of fst])
  have keys: "map fst (?own s) = map snd (filter (\<lambda>k. fst k = u) (keys_sorted s))" for s :: "(uuid \<times> 'k, 'v) table"
    by (simp add: rows_def filter_map comp_def case_prod_beta)
  have sorted: "sorted (map fst (?own s))" for s :: "(uuid \<times> 'k, 'v) table"
  proof -
    have "sorted (map snd ks)" if "sorted ks" "\<forall>k\<in>set ks. fst k = u" for ks :: "(uuid \<times> 'k) list"
      using that by (induction ks) (auto simp: less_eq_prod_def)
    then show ?thesis unfolding keys by (simp add: sorted_wrt_filter)
  qed
  have distinct: "distinct (map fst (?own s))" for s :: "(uuid \<times> 'k, 'v) table"
    unfolding keys by (auto simp: distinct_map inj_on_def)
  show "sorted (map fst (?own t))" "sorted (map fst (?own t'))" by (rule sorted)+
  show "distinct (map fst (?own t))" "distinct (map fst (?own t'))" by (rule distinct)+
  show set: "set (?own t) = set (?own t')" using assms by (force simp: image_iff)
  have "inj_on fst (set (?own t))" using distinct [of t] unfolding distinct_map by blast
  then show "inj_on fst (set (?own t) \<union> set (?own t'))" unfolding set Un_absorb .
qed

lemma alike_lists:
  assumes "alike u a b"
  shows "user_clips a u = user_clips b u" "user_events a u = user_events b u"
  unfolding user_clips_def user_events_def
  by (simp_all add: own_rows_eq [OF alikeD(6) [OF assms]] own_rows_eq [OF alikeD(7) [OF assms]])

section \<open>Steps that treat them alike\<close>

definition same_for :: "uuid \<Rightarrow> failure + ('a \<times> DB) \<Rightarrow> failure + ('a \<times> DB) \<Rightarrow> bool" where
  "same_for u m m' \<longleftrightarrow> rel_sum (=) (\<lambda>(x, a) (y, b). x = y \<and> alike u a b) m m'"

definition same_db :: "uuid \<Rightarrow> failure + DB \<Rightarrow> failure + DB \<Rightarrow> bool" where
  "same_db u m m' \<longleftrightarrow> rel_sum (=) (alike u) m m'"

named_theorems same

lemma same_Inl [same, simp]: "same_for u (Inl e) (Inl e)"
  by (simp add: same_for_def)

lemma same_Inr [same]: "alike u a b \<Longrightarrow> same_for u (Inr (x, a)) (Inr (x, b))"
  by (simp add: same_for_def)

lemma same_bind [same]:
  "same_for u m m' \<Longrightarrow> (\<And>x a b. alike u a b \<Longrightarrow> same_for u (f (x, a)) (f (x, b))) \<Longrightarrow>
     same_for u (bind_res m f) (bind_res m' f)"
  by (cases m; cases m') (auto simp: same_for_def)

lemma same_bind_db [same]:
  "same_db u m m' \<Longrightarrow> (\<And>a b. alike u a b \<Longrightarrow> same_for u (f a) (f b)) \<Longrightarrow>
     same_for u (bind_res m f) (bind_res m' f)"
  by (cases m; cases m') (auto simp: same_for_def same_db_def)

lemma same_if [same]:
  "P = P' \<Longrightarrow> same_for u x x' \<Longrightarrow> same_for u y y' \<Longrightarrow> same_for u (if P then x else y) (if P' then x' else y')"
  by simp

lemma alike_upd:
  assumes "alike u a b"
  shows "alike u (a\<lparr>user_sync_state := fmupd u s (user_sync_state a)\<rparr>) (b\<lparr>user_sync_state := fmupd u s (user_sync_state b)\<rparr>)"
    "alike u (a\<lparr>clip_ids := fmupd (u, c) ci (clip_ids a)\<rparr>) (b\<lparr>clip_ids := fmupd (u, c) ci (clip_ids b)\<rparr>)"
    "alike u (a\<lparr>clips := fmupd (u, c) cr (clips a)\<rparr>) (b\<lparr>clips := fmupd (u, c) cr (clips b)\<rparr>)"
    "alike u (a\<lparr>sync_events := fmupd (u, q) e (sync_events a)\<rparr>) (b\<lparr>sync_events := fmupd (u, q) e (sync_events b)\<rparr>)"
    "alike u (a\<lparr>operation_receipts := fmupd (u, i) rr (operation_receipts a)\<rparr>)
       (b\<lparr>operation_receipts := fmupd (u, i) rr (operation_receipts b)\<rparr>)"
    "alike u (a\<lparr>vaults := fmupd u v (vaults a)\<rparr>) (b\<lparr>vaults := fmupd u v (vaults b)\<rparr>)"
    "alike u (a\<lparr>devices := fmupd (u, d) dr (devices a)\<rparr>) (b\<lparr>devices := fmupd (u, d) dr (devices b)\<rparr>)"
    "alike u (delete_clip u c a) (delete_clip u c b)"
  using assms by (auto simp: alike_def view_def delete_clip_def fun_eq_iff)

text \<open>
  Sessions are keyed by their id alone: of a session that is not u's the other database may hold
  another row, or none.
\<close>

lemma owned_update_same:
  assumes "\<And>k. owned f u t k = owned f u t' k" and "\<And>k r. f r = u \<Longrightarrow> P k r = P' k r" and "\<And>r. f (g r) = f r"
  shows "owned f u (update_where P g t) k = owned f u (update_where P' g t') k"
  using assms(1) [of k] assms(2,3)
  by (auto simp: owned_def lookup_update_where split: option.splits if_splits)

lemma alike_revoke: "alike u a b \<Longrightarrow> alike u (revoke_sessions t P a) (revoke_sessions t P b)"
  by (auto simp: alike_def view_def revoke_sessions_def fun_eq_iff intro!: owned_update_same)

lemma same_statements [same]:
  assumes "alike u a b"
  shows "same_for u (update_sync u sf a) (update_sync u sf b)"
    "same_for u (update_clip_returning u c crf a) (update_clip_returning u c crf b)"
    "same_db u (insert_clip_id u c ci a) (insert_clip_id u c ci b)"
    "same_db u (update_clip_id u c cif a) (update_clip_id u c cif b)"
    "same_db u (insert_clip u c cr a) (insert_clip u c cr b)"
    "same_db u (update_clip u c crf a) (update_clip u c crf b)"
    "same_db u (insert_event u sq er a) (insert_event u sq er b)"
    "same_db u (insert_receipt u i rr a) (insert_receipt u i rr b)"
    "same_db u (insert_vault u vr a) (insert_vault u vr b)"
    "same_for u (update_vault_wrap u pw a) (update_vault_wrap u pw b)"
  using assms alike_upd [OF assms] alikeD [OF assms]
  by (auto simp: same_for_def same_db_def update_sync_def update_clip_returning_def insert_clip_id_def
      update_clip_id_def insert_clip_def update_clip_def insert_event_def insert_receipt_def clip_fk_def
      insert_vault_def update_vault_wrap_def has_row_def Let_def split: option.split)

lemma same_run_tx:
  assumes "same_for u (f (st_Pool st)) (f (st_Pool st'))"
  shows "fst (run_tx f st) = fst (run_tx f st') \<and>
    (alike u (st_Pool st) (st_Pool st') \<longrightarrow> alike u (st_Pool (snd (run_tx f st))) (st_Pool (snd (run_tx f st'))))"
  using assms by (cases "f (st_Pool st)"; cases "f (st_Pool st')") (auto simp: same_for_def)

section \<open>Operations\<close>

lemma same_clip [simp]: "alike u a b \<Longrightarrow> scanClip a u c = scanClip b u c"
  by (simp add: scanClip_def alikeD)

lemma same_create_tx:
  assumes "alike (sc_UserID scope) a b"
  shows "same_for (sc_UserID scope) (create_tx cfg clk scope env nonce ct h a) (create_tx cfg clk scope env nonce ct h b)"
  unfolding create_tx_def Let_def alikeD [OF assms]
  by (auto split: option.split intro!: same assms)

lemma bind_assoc: "bind_res (bind_res m f) g = bind_res m (\<lambda>x. bind_res (f x) g)"
  by (cases m) simp_all

lemma same_bump:
  assumes "alike (sc_UserID scope) a b"
  shows "same_for (sc_UserID scope) (bump clk scope clip status kind trash a) (bump clk scope clip status kind trash b)"
  unfolding bump_def Let_def by (cases trash) (auto simp: bind_assoc intro!: same assms)

lemma same_purgeLocked:
  assumes "alike (sc_UserID scope) a b"
  shows "same_for (sc_UserID scope) (purgeLocked clk scope clip a) (purgeLocked clk scope clip b)"
  unfolding purgeLocked_def Let_def alikeD [OF assms]
  by (auto split: option.split intro!: same assms alike_upd)

lemma same_mutate_tx:
  assumes "alike (sc_UserID scope) a b"
  shows "same_for (sc_UserID scope) (mutate_tx clk scope c op kind v h a) (mutate_tx clk scope c op kind v h b)"
proof -
  have applied: "same_for (sc_UserID scope) (applyMutation clk' scope c kind v a) (applyMutation clk' scope c kind v b)" for clk'
    using assms unfolding applyMutation_def Let_def
    by (auto simp: alikeD split: option.split intro!: same_bump same_purgeLocked)
  have "live_receipt t (sc_UserID scope) op a = live_receipt t (sc_UserID scope) op b" for t
    by (simp add: live_receipt_def alikeD [OF assms])
  with applied show ?thesis
    unfolding mutate_tx_def Let_def by (auto split: option.split intro!: same assms)
qed

definition same_store :: "uuid \<Rightarrow> Store \<Rightarrow> Store \<Rightarrow> bool" where
  "same_store u st st' \<longleftrightarrow> alike u (st_Pool st) (st_Pool st') \<and> st_Cfg st = st_Cfg st'"

lemma CreateClip_same:
  assumes "same_store (sc_UserID scope) st st'"
  shows "fst (CreateClip clk scope env nonce ct h st) = fst (CreateClip clk scope env nonce ct h st')
    \<and> same_store (sc_UserID scope) (snd (CreateClip clk scope env nonce ct h st)) (snd (CreateClip clk scope env nonce ct h st'))"
  using assms same_create_tx [of scope "st_Pool st" "st_Pool st'" "st_Cfg st" clk env nonce ct h]
  by (cases "create_tx (st_Cfg st) clk scope env nonce ct h (st_Pool st)";
      cases "create_tx (st_Cfg st) clk scope env nonce ct h (st_Pool st')")
    (auto simp: CreateClip_def same_store_def same_for_def run_tx_def)

lemma MutateClip_same:
  assumes "same_store (sc_UserID scope) st st'"
  shows "fst (MutateClip clk scope c op kind v h st) = fst (MutateClip clk scope c op kind v h st')
    \<and> same_store (sc_UserID scope) (snd (MutateClip clk scope c op kind v h st)) (snd (MutateClip clk scope c op kind v h st'))"
  using assms same_mutate_tx [of scope "st_Pool st" "st_Pool st'" clk c op kind v h]
  by (cases "mutate_tx clk scope c op kind v h (st_Pool st)";
      cases "mutate_tx clk scope c op kind v h (st_Pool st')")
    (auto simp: MutateClip_def same_store_def same_for_def run_tx_def split: prod.split)

lemma same_store_hub: "same_store u (st\<lparr>st_Hub := x\<rparr>) (st'\<lparr>st_Hub := y\<rparr>) = same_store u st st'"
  by (simp add: same_store_def)

lemma same_store_tx:
  assumes "same_store u st st'" and "same_for u (f (st_Pool st)) (f (st_Pool st'))"
  shows "fst (run_tx f st) = fst (run_tx f st') \<and> same_store u (snd (run_tx f st)) (snd (run_tx f st'))"
  using assms by (cases "f (st_Pool st)"; cases "f (st_Pool st')") (auto simp: same_for_def same_store_def)

lemma InitVault_same:
  assumes "same_store (sc_UserID scope) st st'"
  shows "fst (InitVault scope env salt nonce wrapped pw st) = fst (InitVault scope env salt nonce wrapped pw st')
    \<and> same_store (sc_UserID scope) (snd (InitVault scope env salt nonce wrapped pw st))
        (snd (InitVault scope env salt nonce wrapped pw st'))"
proof -
  let ?u = "sc_UserID scope"
  have a: "alike ?u (st_Pool st) (st_Pool st')" using assms by (simp add: same_store_def)
  then have insert: "same_db ?u (insert_vault ?u vr (st_Pool st)) (insert_vault ?u vr (st_Pool st'))" for vr
    by (rule same_statements)
  have "same_for ?u (case m of Inl e \<Rightarrow> f e | Inr db \<Rightarrow> Inr ((), db)) (case m' of Inl e \<Rightarrow> f e | Inr db \<Rightarrow> Inr ((), db))"
    if "same_db ?u m m'" "\<And>e. \<exists>e'. f e = Inl e'" for m m' f
    using that(1) that(2) [of "projl m"] by (cases m; cases m') (auto simp: same_db_def same_for_def)
  from this [OF insert] show ?thesis
    unfolding InitVault_def by (intro same_store_tx [OF assms]) (auto simp: has_row_def alikeD [OF a])
qed

lemma PutPasswordWrap_same:
  assumes "same_store (sc_UserID scope) st st'"
  shows "fst (PutPasswordWrap scope pw st) = fst (PutPasswordWrap scope pw st')
    \<and> same_store (sc_UserID scope) (snd (PutPasswordWrap scope pw st)) (snd (PutPasswordWrap scope pw st'))"
  unfolding PutPasswordWrap_def using assms
  by (intro same_store_tx) (auto simp: same_store_def intro!: same split: if_splits)

lemma RevokeDevice_same:
  assumes "same_store (sc_UserID scope) st st'"
  shows "fst (RevokeDevice clk scope d st) = fst (RevokeDevice clk scope d st')
    \<and> same_store (sc_UserID scope) (snd (RevokeDevice clk scope d st)) (snd (RevokeDevice clk scope d st'))"
proof -
  have "alike (sc_UserID scope) (st_Pool st) (st_Pool st')" using assms by (simp add: same_store_def)
  then have "same_for (sc_UserID scope) (revoke_tx clk (sc_UserID scope) d (st_Pool st)) (revoke_tx clk (sc_UserID scope) d (st_Pool st'))"
    by (auto simp: revoke_tx_def alikeD Let_def split: option.split intro!: same alike_revoke alike_upd)
  from same_store_tx [OF assms this] show ?thesis
    by (auto simp: RevokeDevice_def close_device_def same_store_def split: prod.split sum.split)
qed

lemma Logout_same: "same_store u st st' \<Longrightarrow> same_store u (Logout clk scope st) (Logout clk scope st')"
  by (simp add: same_store_def Logout_def alike_revoke)

lemma reads_same:
  assumes "same_store (sc_UserID scope) st st'"
  shows "GetClip clk scope c st = GetClip clk scope c st'" "ListClips clk now scope f st = ListClips clk now scope f st'"
    "Changes clk scope epoch aft limit st = Changes clk scope epoch aft limit st'"
    "GetVault scope st = GetVault scope st'" "ListDevices scope st = ListDevices scope st'"
proof -
  have a: "alike (sc_UserID scope) (st_Pool st) (st_Pool st')" using assms by (simp add: same_store_def)
  show "GetClip clk scope c st = GetClip clk scope c st'"
    unfolding GetClip_def alikeD [OF a] same_clip [OF a] ..
  show "ListClips clk now scope f st = ListClips clk now scope f st'"
    unfolding ListClips_def list_rows_def Let_def alike_lists [OF a] ..
  show "Changes clk scope epoch aft limit st = Changes clk scope epoch aft limit st'"
    unfolding Changes_def Changes_read_def events_between_def Let_def alikeD [OF a] alike_lists [OF a] ..
  show "GetVault scope st = GetVault scope st'"
    unfolding GetVault_def alikeD [OF a] ..
  show "ListDevices scope st = ListDevices scope st'"
    unfolding ListDevices_def own_rows_eq [OF alikeD(4) [OF a]] ..
qed

section \<open>Requests\<close>

definition authed_same :: "authed \<Rightarrow> bool" where
  "authed_same f \<longleftrightarrow> (\<forall>ev r scope h h'. same_store (sc_UserID scope) (h_store h) (h_store h') \<longrightarrow>
     fst (f ev r scope h) = fst (f ev r scope h')
     \<and> same_store (sc_UserID scope) (h_store (snd (f ev r scope h))) (h_store (snd (f ev r scope h'))))"

lemma reply_simps [simp]:
  "fst (reply ok h res) = (case fst res of Inl e \<Rightarrow> writeError [] (writeErr e) | Inr y \<Rightarrow> ok y)"
  "h_store (snd (reply ok h res)) = snd res"
  by (simp_all add: reply_def split: prod.split)

lemma refuse_simps [simp]: "fst (refuse e h) = writeError [] e"
  by (simp add: refuse_def)

lemma authed_same_all:
  "authed_same createClip" "authed_same listClips" "authed_same (getClip i)" "authed_same (mutate kind i)"
  "authed_same changes" "authed_same getVault" "authed_same listDevices" "authed_same putVault"
  "authed_same putPasswordWrap" "authed_same (revokeDevice i)" "authed_same logout" "authed_same websocket"
  by (auto simp: authed_same_def authed_defs Let_def reads_same CreateClip_same MutateClip_same
      InitVault_same PutPasswordWrap_same RevokeDevice_same Logout_same on_hub_def same_store_hub split: sum.split option.split)

text \<open>
  The endpoints of clips, the feed, the vault and the devices.  Not among them are those that
  meet a table in which the rows of all accounts share one key: the snapshots, whose token is
  looked up before its owner is compared (another account's token is answered 404, one that was
  never handed out 410), and the change of the password, which goes through the unique logins.
\<close>

fun own_resources :: "endpoint \<Rightarrow> bool" where
  "own_resources CreateClipE = True"
| "own_resources ListClipsE = True"
| "own_resources (GetClipE i) = True"
| "own_resources (TrashClipE i) = True"
| "own_resources (RestoreClipE i) = True"
| "own_resources (PurgeClipE i) = True"
| "own_resources ChangesE = True"
| "own_resources GetVaultE = True"
| "own_resources ListDevicesE = True"
| "own_resources (RevokeDeviceE i) = True"
| "own_resources PutVaultE = True"
| "own_resources PutPasswordWrapE = True"
| "own_resources LogoutE = True"
| "own_resources WebsocketE = True"
| "own_resources _ = False"

definition acts_as :: "Env \<Rightarrow> Request \<Rightarrow> Handler \<Rightarrow> Scope \<Rightarrow> bool" where
  "acts_as ev r h scope \<longleftrightarrow> HasPrefix (Get (rq_Header r) ''Authorization'') ''Bearer ''
     \<and> fst (LookupAccess (ev_AuthClk ev) (ev_GoClk ev 0) (TrimPrefix (Get (rq_Header r) ''Authorization'') ''Bearer '')
             (h_store h)) = Inr scope"

lemma alike_touch: "alike u a b \<Longrightarrow> alike u (touch_device t u d a) (touch_device t u d b)"
  by (auto simp: alike_def view_def touch_device_def fun_eq_iff lookup_update_where split: option.split)

lemma LookupAccess_touches:
  "LookupAccess clk now token st = (Inr scope, st') \<Longrightarrow>
     st' = st\<lparr>st_Pool := touch_device (clk 0) (sc_UserID scope) (sc_DeviceID scope) (st_Pool st)\<rparr>"
  by (auto simp: LookupAccess_def split: if_splits option.splits prod.splits)

lemma auth_same:
  assumes "authed_same f" and "acts_as ev r h scope" "acts_as ev r h' scope"
    and same: "same_store (sc_UserID scope) (h_store h) (h_store h')"
  shows "fst (auth f ev r h) = fst (auth f ev r h')
    \<and> same_store (sc_UserID scope) (h_store (snd (auth f ev r h))) (h_store (snd (auth f ev r h')))"
proof -
  let ?look = "LookupAccess (ev_AuthClk ev) (ev_GoClk ev 0)
    (TrimPrefix (Get (rq_Header r) ''Authorization'') ''Bearer '')"
  obtain st st' where look: "?look (h_store h) = (Inr scope, st)" "?look (h_store h') = (Inr scope, st')"
    using assms(2,3) by (auto simp: acts_as_def prod_eq_iff)
  have "same_store (sc_UserID scope) st st'"
    using same LookupAccess_touches [OF look(1)] LookupAccess_touches [OF look(2)]
    by (simp add: same_store_def alike_touch)
  with assms(1,2) look show ?thesis
    by (auto simp: auth_def Let_def acts_as_def authed_same_def)
qed

text \<open>
  C26: A client learns nothing of other accounts.  Take two servers that hold the same for
  account u and run the same configuration, and differ in any way in what they hold for all
  others.  A request that acts for u and creates, reads, lists, trashes, restores or purges clips,
  polls the change feed, reads, initialises or rewraps the vault, lists or revokes devices, opens
  a socket or logs out gets the same response from both, and afterwards they still hold the same
  for u.
\<close>

theorem noninterference:
  assumes "same_store (sc_UserID scope) (h_store h) (h_store h')"
    and "acts_as ev r h scope" and "acts_as ev r h' scope" and "own_resources (route r)"
  shows "fst (serve ev r h) = fst (serve ev r h')
    \<and> same_store (sc_UserID scope) (h_store (snd (serve ev r h))) (h_store (snd (serve ev r h')))"
proof -
  note same = auth_same [OF _ assms(2,3,1)]
  from assms(4) show ?thesis
    unfolding serve_def by (cases "route r")
      (simp_all add: same authed_same_all trashClip_def restoreClip_def purgeClip_def)
qed

text \<open>A listing of the clips of the sample session, on a server where another account has a clip, too.\<close>

definition list1 :: Request where
  "list1 = logout1\<lparr>rq_Method := ''GET'', rq_Path := [''api'', ''v1'', ''clips'']\<rparr>"

definition crowded :: Handler where
  "crowded = handler1\<lparr>h_store := store_in\<lparr>st_Pool := (st_Pool store_in)
     \<lparr>clips := fmupd (''someone else'', clip1) (clip_row1 10 1) (clips (st_Pool store_in))\<rparr>\<rparr>\<rparr>"

lemma route_list1 [simp]: "route list1 = ListClipsE"
  by (simp add: route_def list1_def logout1_def api_route_def serves_def Let_def)

lemma sample_lookup: "fst (LookupAccess (\<lambda>_. 50) 60 token1 store_in) = Inr scope_in"
  using LookupAccess_char [OF accounts_ok_store_in, of "\<lambda>_. 50" 60 token1 scope_in]
  by (simp add: scope_in_def session_row1_def)

theorem noninterference_witness: "fst (serve env1 list1 handler1) = fst (serve env1 list1 crowded)"
proof -
  have token: "Get (rq_Header list1) ''Authorization'' = ''Bearer '' @ token1"
    by (simp add: Get_def list1_def logout1_def)
  have look: "fst (LookupAccess (\<lambda>_. 50) 60 token1 (h_store h)) = Inr scope_in" if "h \<in> {handler1, crowded}" for h
  proof -
    have "fst (LookupAccess (\<lambda>_. 50) 60 token1 (h_store crowded)) = fst (LookupAccess (\<lambda>_. 50) 60 token1 store_in)"
      by (simp add: LookupAccess_def session_join_def crowded_def split: option.split)
    with that sample_lookup show ?thesis by (auto simp: handler1_def)
  qed
  have "acts_as env1 list1 h scope_in" if "h \<in> {handler1, crowded}" for h
    using look [OF that] unfolding acts_as_def token TrimPrefix_append env1_def Env.simps
    by (intro conjI HasPrefix_append)
  moreover have "same_store (sc_UserID scope_in) (h_store handler1) (h_store crowded)"
    by (simp add: same_store_def alike_def view_def crowded_def handler1_def scope_in_def user1_def fun_eq_iff)
  ultimately show ?thesis using noninterference [of scope_in handler1 crowded env1 list1] by simp
qed

end
