(* ===== verification/Names.thy ===== *)
theory Names
  imports Auth
begin

text \<open>
  The user names the server derives for external accounts satisfy the canonical form the
  database requires, whatever the external service sends.
\<close>

definition all_user :: "string \<Rightarrow> bool" where
  "all_user s \<longleftrightarrow> set s \<subseteq> {c. user_char c}"

lemma all_user_simps [simp]:
  "all_user []" "all_user (c # s) \<longleftrightarrow> user_char c \<and> all_user s"
  "all_user (a @ b) \<longleftrightarrow> all_user a \<and> all_user b"
  by (auto simp: all_user_def)

lemma all_user_subset: "all_user s \<Longrightarrow> set t \<subseteq> set s \<Longrightarrow> all_user t"
  by (auto simp: all_user_def)

lemma all_user_take [simp]: "all_user s \<Longrightarrow> all_user (take n s)"
  by (erule all_user_subset) (rule set_take_subset)

lemma under_user [simp]: "user_char (CHR ''_'')" "user_char (CHR ''u'')"
  by (simp_all add: user_char_def lower_alpha_def ord_def)

lemma chr_under: "chr 95 = CHR ''_''"
  by code_simp

lemma sanitize_rune_user: "all_user (sanitize_rune r)"
  by (auto simp: sanitize_rune_def chr_under) (auto simp: user_char_def lower_alpha_def is_digit_def)

lemma trim_under_user: "all_user s \<Longrightarrow> all_user (trim_under s)"
  by (erule all_user_subset) (auto simp: trim_under_def dest!: set_dropWhileD)

lemma replace_under_user: "all_user s \<Longrightarrow> all_user (replace_under s)"
  by (induction s rule: replace_under.induct) (auto simp: all_user_def)

lemma collapse_under_user: "all_user s \<Longrightarrow> all_user (collapse_under s)"
proof (induction s rule: collapse_under.induct)
  case (1 s)
  then show ?case by (subst collapse_under.simps) (auto dest: replace_under_user)
qed

lemma collapse_under_clean: "\<not> Contains (collapse_under s) ''__''"
proof (induction s rule: collapse_under.induct)
  case (1 s)
  then show ?case by (subst collapse_under.simps) auto
qed

lemma sanitize_all_user: "all_user (concat (map sanitize_rune rs))"
  by (induction rs) (auto simp: sanitize_rune_user)

lemma sanitizeUsername_form:
  "sanitizeUsername tbl account = [] \<or>
     (usernameRE (sanitizeUsername tbl account))"
proof -
  let ?n = "collapse_under (trim_under (concat (map sanitize_rune (runes (ToLower tbl (TrimSpace account))))))"
  have "all_user ?n" by (intro collapse_under_user trim_under_user sanitize_all_user)
  then have "all_user (if length ?n > 32 then take 32 ?n else ?n)" by simp
  then show ?thesis
    by (auto simp: sanitizeUsername_def Let_def usernameRE_def all_user_def list_all_iff)
qed

lemma length_concat_pairs: "length (concat (map (\<lambda>b. [f b, g b]) xs)) = 2 * length xs"
  by (induction xs) auto

lemma sha256Hex_length: "length (sha256Hex v) = 64"
  by (simp add: sha256Hex_def Let_def length_concat_pairs length_sha256)

lemma hex_user: "n < 16 \<Longrightarrow> user_char (if n < 10 then digit n else chr (87 + n))"
  by (auto simp: user_char_def lower_alpha_def)

lemma sha256Hex_user: "all_user (sha256Hex v)"
proof -
  have "unat b div 16 < 16" "unat b mod 16 < 16" for b :: byte
    using unat_byte_less [of b] by (simp_all add: less_mult_imp_div_less)
  then show ?thesis
    using hex_user by (auto simp: sha256Hex_def Let_def all_user_def)
qed

lemma next_name_form:
  assumes "usernameRE base"
  shows "usernameRE (next_name base subject i)"
proof -
  have b: "3 \<le> length base" "length base \<le> 32" "all_user base"
    using assms by (auto simp: usernameRE_def all_user_def list_all_iff)
  have "all_user (next_name base subject i)"
    using b(3) sha256Hex_user by (simp add: next_name_def Let_def)
  moreover have "3 \<le> length (next_name base subject i)" "length (next_name base subject i) \<le> 32"
    using b by (auto simp: next_name_def Let_def sha256Hex_length)
  ultimately show ?thesis by (auto simp: usernameRE_def all_user_def list_all_iff)
qed

lemma try_names_form:
  "usernameRE base \<Longrightarrow> usernameRE name \<Longrightarrow> try_names base subject db name is = Inr n \<Longrightarrow>
     usernameRE n \<and> \<not> exists_row (\<lambda>_ r. u_username r = n) (users db)"
proof (induction "is" arbitrary: name)
  case (Cons i "is")
  show ?case
  proof (cases "exists_row (\<lambda>_ r. u_username r = name) (users db)")
    case True
    with Cons.prems(3) have "try_names base subject db (next_name base subject i) is = Inr n" by simp
    from Cons.IH [OF Cons.prems(1) next_name_form [OF Cons.prems(1)] this] show ?thesis .
  next
    case False
    with Cons.prems show ?thesis by simp
  qed
qed simp

text \<open>
  A user name derived for an external account is canonical and free: whatever the account
  and subject the external service reports, the name has 3 to 32 characters of lower-case
  letters, digits and underscores and no account has it, so the insertion of the account
  violates neither the CHECK nor the unique index on names; the only other outcome is the 409
  after eight candidates.
\<close>

theorem uniqueExternalUsername_canonical:
  "case uniqueExternalUsername w account subject db of
     Inr name \<Rightarrow> Username name \<and> \<not> exists_row (\<lambda>_ r. u_username r = name) (users db)
   | Inl e \<Rightarrow> e = App (New 409 IdempotencyConflict)"
proof -
  let ?base = "if sanitizeUsername (w_tbl w) account = [] then ''u_'' @ take 14 (sha256Hex subject)
      else sanitizeUsername (w_tbl w) account"
  have "usernameRE (''u_'' @ take 14 (sha256Hex subject))"
  proof -
    have "all_user (''u_'' @ take 14 (sha256Hex subject))" using sha256Hex_user by simp
    moreover have "length (''u_'' @ take 14 (sha256Hex subject)) = 16" by (simp add: sha256Hex_length)
    ultimately show ?thesis unfolding usernameRE_def all_user_def list_all_iff by auto
  qed
  then have base: "usernameRE ?base" using sanitizeUsername_form by auto
  have err: "try_names b s db n is = Inl e \<Longrightarrow> e = App (New 409 IdempotencyConflict)" for b s n "is" e
    by (induction "is" arbitrary: n) (auto split: if_splits)
  show ?thesis
    unfolding uniqueExternalUsername_def Let_def Username_def
    using try_names_form [OF base base] err by (fastforce split: sum.split)
qed

end
