(* ===== verification/Float64.thy ===== *)
theory Float64
  imports Json
begin

text \<open>
  Go's \<open>float64\<close> as far as \<open>encoding/json\<close> and \<open>fmt\<close> use it on a JSON number: the value nearest
  to a decimal literal, the conversions to and from \<open>int64\<close>, and the format \<open>%v\<close>.  A finite
  double is its sign and its magnitude as a multiple of \<open>2 ^ - 1074\<close>, the smallest subnormal;
  so every operation is one on natural numbers.
\<close>

section \<open>Rounding\<close>

datatype float64 = Float (negative: bool) (units: nat)

fun bit_len :: "nat \<Rightarrow> nat" where
  "bit_len n = (if n = 0 then 0 else Suc (bit_len (n div 2)))"

declare bit_len.simps [simp del]

definition round_half_even :: "nat \<Rightarrow> nat \<Rightarrow> nat" where
  "round_half_even a d =
     (let q = a div d; r = a mod d in if 2 * r > d \<or> 2 * r = d \<and> odd q then q + 1 else q)"

text \<open>The number with at most 53 significant bits that is nearest to \<open>a / d\<close>.\<close>

definition spacing :: "nat \<Rightarrow> nat" where
  "spacing n = 2 ^ (bit_len n - 53)"

definition nearest :: "nat \<Rightarrow> nat \<Rightarrow> nat" where
  "nearest a d = (let s = spacing (a div d) in round_half_even a (d * s) * s)"

section \<open>Reading a literal\<close>

text \<open>
  The parts of a number \<open>Json.number\<close> has accepted.  \<open>readFloat\<close> stops adding digits to the
  exponent at 10000.
\<close>

definition exp_val :: "string \<Rightarrow> nat" where
  "exp_val ds = foldl (\<lambda>e c. if e < 10000 then 10 * e + digit_val c else e) 0 ds"

definition exponent_of :: "string \<Rightarrow> int" where
  "exponent_of s =
     (if s = [] then 0
      else if tl s \<noteq> [] \<and> hd (tl s) = CHR ''-'' then - int (exp_val (digits (drop 2 s)))
      else if tl s \<noteq> [] \<and> hd (tl s) = CHR ''+'' then int (exp_val (digits (drop 2 s)))
      else int (exp_val (digits (tl s))))"

definition decimal_of :: "string \<Rightarrow> bool \<times> nat \<times> int" where
  "decimal_of x =
     (let neg = (x \<noteq> [] \<and> hd x = CHR ''-''); s = (if neg then tl x else x);
          i = digits s; t = drop (length i) s;
          f = (if t \<noteq> [] \<and> hd t = CHR ''.'' then digits (tl t) else []);
          e = (if t \<noteq> [] \<and> hd t = CHR ''.'' then drop (1 + length f) t else t)
      in (neg, dec_val (i @ f), exponent_of e - int (length f)))"

text \<open>\<open>strconv.ParseFloat\<close>: None is the error of a value out of range.\<close>

definition ParseFloat :: "string \<Rightarrow> float64 option" where
  "ParseFloat x =
     (let (neg, n, e) = decimal_of x;
          u = nearest (n * 10 ^ nat e * 2 ^ 1074) (10 ^ nat (- e))
      in if u \<ge> 2 ^ 2098 then None else Some (Float neg u))"

section \<open>Integers\<close>

text \<open>\<open>int64(t)\<close> on amd64: what is out of range becomes the smallest value.\<close>

definition int64_of :: "float64 \<Rightarrow> int" where
  "int64_of t =
     (let v = (if negative t then - int (units t div 2 ^ 1074) else int (units t div 2 ^ 1074))
      in if in_int8 v then v else - (2 ^ 63))"

definition float64_of :: "int \<Rightarrow> float64" where
  "float64_of n = Float (n < 0) (nearest (nat \<bar>n\<bar> * 2 ^ 1074) 1)"

definition float_eq :: "float64 \<Rightarrow> float64 \<Rightarrow> bool" where
  "float_eq x y \<longleftrightarrow> units x = units y \<and> (negative x = negative y \<or> units x = 0)"

section \<open>The format \<open>%v\<close>\<close>

text \<open>
  The shortest decimal between the midpoints to the neighbours, the ends included when the
  mantissa is even.  Values are counted in quarters of \<open>10 ^ - 1074\<close>, of which all these are
  multiples; the result is a number \<open>n\<close> and an exponent \<open>p\<close> for \<open>n * 10 ^ p\<close>.
\<close>

definition lower_gap :: "nat \<Rightarrow> nat" where
  "lower_gap u = (if u = 2 ^ 52 * spacing u \<and> spacing u \<noteq> 1 then 1 else 2)"

definition shortest_at :: "nat \<Rightarrow> nat \<Rightarrow> nat option" where
  "shortest_at u k =
     (let v = 4 * u * 5 ^ 1074; unit = spacing u * 5 ^ 1074;
          lo = v - lower_gap u * unit; hi = v + 2 * unit;
          inclusive = even (u div spacing u);
          p = 4 * 10 ^ k; q = v div p;
          okdown = (q * p > lo \<or> inclusive \<and> q * p = lo);
          okup = ((q + 1) * p < hi \<or> inclusive \<and> (q + 1) * p = hi)
      in if okdown \<and> okup then Some (round_half_even v p)
         else if okdown then Some q
         else if okup then Some (q + 1)
         else None)"

fun shortest_from :: "nat \<Rightarrow> nat \<Rightarrow> nat \<times> int" where
  "shortest_from u k =
     (case shortest_at u k of
        Some n \<Rightarrow> (n, int k - 1074)
      | None \<Rightarrow> (case k of 0 \<Rightarrow> (4 * u * 5 ^ 1074, - 1074) | Suc j \<Rightarrow> shortest_from u j))"

declare shortest_from.simps [simp del]

text \<open>The digits without trailing zeros, and the position of the decimal point among them.\<close>

definition shortest :: "nat \<Rightarrow> string \<times> int" where
  "shortest u =
     (if u = 0 then ([], 0)
      else let (n, p) = shortest_from u 1390; ds = show_nat n
           in (rev (dropWhile (\<lambda>c. c = CHR ''0'') (rev ds)), int (length ds) + p))"

definition exponent_text :: "int \<Rightarrow> string" where
  "exponent_text e =
     CHR ''e'' # (if e < 0 then ''-'' else ''+'') @ (if \<bar>e\<bar> < 10 then ''0'' else []) @ show_nat (nat \<bar>e\<bar>)"

definition digit_at :: "string \<Rightarrow> int \<Rightarrow> char" where
  "digit_at ds j = (if 0 \<le> j \<and> j < int (length ds) then ds ! nat j else CHR ''0'')"

definition fmtE :: "string \<Rightarrow> int \<Rightarrow> string" where
  "fmtE ds dp =
     digit_at ds 0 # (if 1 < length ds then CHR ''.'' # tl ds else []) @ exponent_text (dp - 1)"

definition fmtF :: "string \<Rightarrow> int \<Rightarrow> string" where
  "fmtF ds dp =
     (if dp > 0 then map (digit_at ds) [0..dp - 1] else ''0'') @
     (if int (length ds) > dp then CHR ''.'' # map (digit_at ds) [dp..int (length ds) - 1] else [])"

definition format_v :: "float64 \<Rightarrow> string" where
  "format_v t =
     (let (ds, dp) = shortest (units t)
      in (if negative t then ''-'' else []) @
         (if ds \<noteq> [] \<and> (dp - 1 < -4 \<or> dp - 1 \<ge> 6) then fmtE ds dp else fmtF ds dp))"

section \<open>Integers up to \<open>2 ^ 53\<close> are exact\<close>

lemma bit_len_shift: "0 < n \<Longrightarrow> bit_len (n * 2 ^ k) = bit_len n + k"
proof (induction k)
  case (Suc k)
  then show ?case by (subst bit_len.simps) (simp add: mult.left_commute)
qed simp

lemma bit_len_le: "n < 2 ^ k \<Longrightarrow> bit_len n \<le> k"
proof (induction k arbitrary: n)
  case (Suc k)
  from Suc.prems have "n div 2 < 2 ^ k" by simp
  from Suc.IH [OF this] show ?case by (subst bit_len.simps) simp
qed (simp add: bit_len.simps)

lemma round_half_even_exact: "0 < d \<Longrightarrow> d dvd a \<Longrightarrow> round_half_even a d = a div d"
  by (simp add: round_half_even_def Let_def)

lemma round_half_even_tie: "0 < h \<Longrightarrow> even q \<Longrightarrow> round_half_even (q * (2 * h) + h) (2 * h) = q"
  by (simp add: round_half_even_def Let_def)

lemma spacing_pos [simp]: "0 < spacing n"
  by (simp add: spacing_def)

lemma nearest_exact: "spacing a dvd a \<Longrightarrow> nearest a 1 = a"
  by (simp add: nearest_def Let_def round_half_even_exact)

lemma spacing_scaled: "0 < m \<Longrightarrow> spacing (m * 2 ^ 1074) = 2 ^ (bit_len m + 1021)"
  unfolding spacing_def by (subst bit_len_shift) simp_all

lemma nearest_integer: "m < 2 ^ 53 \<Longrightarrow> nearest (m * 2 ^ 1074) 1 = m * 2 ^ 1074"
proof (cases "m = 0")
  case False
  assume "m < 2 ^ 53"
  then have "bit_len m + 1021 \<le> 1074" using bit_len_le by fastforce
  from le_imp_power_dvd [OF this, of "2::nat"] False show ?thesis
    by (intro nearest_exact) (simp only: spacing_scaled dvd_mult)
qed (simp add: nearest_def round_half_even_def)

lemma digits_show_nat_all: "digits (show_nat m) = show_nat m"
  using show_nat_digits [of m] by (simp add: digits_def list_all_iff)

lemma decimal_of_FormatInt: "decimal_of (FormatInt n) = (n < 0, nat \<bar>n\<bar>, 0)"
  using hd_show_nat_digit [of "nat n"] is_digit_not_sign [of "hd (show_nat (nat n))"]
  by (auto simp: decimal_of_def FormatInt_def Let_def digits_show_nat_all exponent_of_def)

lemma ParseFloat_FormatInt:
  assumes "\<bar>n\<bar> < 2 ^ 53"
  shows "ParseFloat (FormatInt n) = Some (Float (n < 0) (nat \<bar>n\<bar> * 2 ^ 1074))"
proof -
  have m: "nat \<bar>n\<bar> < 2 ^ 53" using assms by (simp add: nat_less_iff)
  then have "nat \<bar>n\<bar> * 2 ^ 1074 < 2 ^ 53 * (2 ^ 1074 :: nat)" by (intro mult_strict_right_mono) simp_all
  also have "\<dots> \<le> 2 ^ 2098" by simp
  finally show ?thesis
    using nearest_integer [OF m] unfolding ParseFloat_def decimal_of_FormatInt Let_def by simp
qed

lemma small_int64: "\<bar>n\<bar> < 2 ^ 53 \<Longrightarrow> in_int8 n"
  by (auto simp: in_int8_def)

lemma int64_of_small:
  assumes "\<bar>n\<bar> < 2 ^ 53"
  shows "int64_of (Float (n < 0) (nat \<bar>n\<bar> * 2 ^ 1074)) = n"
  using small_int64 [OF assms] by (simp add: int64_of_def Let_def)

lemma float64_of_small:
  assumes "\<bar>n\<bar> < 2 ^ 53"
  shows "float64_of n = Float (n < 0) (nat \<bar>n\<bar> * 2 ^ 1074)"
proof -
  have "nat \<bar>n\<bar> < 2 ^ 53" using assms by (simp add: nat_less_iff)
  from nearest_integer [OF this] show ?thesis by (simp only: float64_of_def)
qed

text \<open>The first integer that is not: halfway between its neighbours, rounded to the even one.\<close>

lemma bit_len_2_53: "bit_len (2 ^ 53 + 1) = 54" "bit_len (2 ^ 53) = 54"
  by (simp_all add: bit_len.simps)

lemma nearest_2_53:
  "nearest ((2 ^ 53 + 1) * 2 ^ 1074) 1 = 2 ^ 53 * 2 ^ 1074" "nearest (2 ^ 53 * 2 ^ 1074) 1 = 2 ^ 53 * 2 ^ 1074"
proof -
  have s: "spacing ((2 ^ 53 + 1) * 2 ^ 1074) = 2 ^ 1075" "spacing (2 ^ 53 * 2 ^ 1074) = 2 ^ 1075"
    by (subst spacing_scaled, simp, subst bit_len_2_53, simp)+
  have "round_half_even (2 ^ 52 * (2 * 2 ^ 1074) + 2 ^ 1074) (2 * 2 ^ 1074) = 2 ^ 52"
    by (rule round_half_even_tie) simp_all
  moreover have "2 ^ 52 * (2 * 2 ^ 1074) + 2 ^ 1074 = (2 ^ 53 + 1) * (2 ^ 1074 :: nat)"
    "2 * 2 ^ 1074 = (2 ^ 1075 :: nat)" "2 ^ 52 * 2 ^ 1075 = 2 ^ 53 * (2 ^ 1074 :: nat)" by simp_all
  ultimately show "nearest ((2 ^ 53 + 1) * 2 ^ 1074) 1 = 2 ^ 53 * 2 ^ 1074"
    unfolding nearest_def Let_def div_by_1 s mult_1 by metis
  show "nearest (2 ^ 53 * 2 ^ 1074) 1 = 2 ^ 53 * 2 ^ 1074"
    by (rule nearest_exact) (simp only: s, simp)
qed

end
