(* ===== verification/Extauth.thy ===== *)
theory Extauth
  imports Float64 Marshal Errors Access
begin

text \<open>
  Package \<open>extauth\<close>: the client of the external account service.  The HTTP exchange is the
  argument \<open>exchange\<close>: what posting a body to a URL comes to.  What is proved: which answers sign
  a user in, that a refusal is always one of the error contract, and which numeric identifiers
  stay apart.
\<close>

section \<open>Any JSON value\<close>

text \<open>
  Decoding into an \<open>any\<close> turns every number into a \<open>float64\<close> and fails on one that is out of
  range.
\<close>

fun in_range :: "json \<Rightarrow> bool" where
  "in_range (JNum x) \<longleftrightarrow> ParseFloat x \<noteq> None"
| "in_range (JArr vs) \<longleftrightarrow> list_all in_range vs"
| "in_range (JObj ms) \<longleftrightarrow> list_all (\<lambda>m. in_range (snd m)) ms"
| "in_range _ \<longleftrightarrow> True"

definition any_field :: "((json \<Rightarrow> json) \<Rightarrow> 'a \<Rightarrow> 'a) \<Rightarrow> json \<Rightarrow> 'a \<Rightarrow> 'a option" where
  "any_field upd v r = (if in_range v then Some (upd (\<lambda>_. v) r) else None)"

text \<open>A \<open>json.RawMessage\<close> takes every value, \<open>null\<close> included.\<close>

definition raw_field :: "((json option \<Rightarrow> json option) \<Rightarrow> 'a \<Rightarrow> 'a) \<Rightarrow> json \<Rightarrow> 'a \<Rightarrow> 'a option" where
  "raw_field upd v r = Some (upd (\<lambda>_. Some v) r)"

text \<open>\<open>fmt.Sprintf("%v", t)\<close>: a map is printed in the order of its keys, the last value of each.\<close>

fun separated :: "string list \<Rightarrow> string" where
  "separated [] = []"
| "separated [x] = x"
| "separated (x # xs) = x @ '' '' @ separated xs"

fun format_json :: "json \<Rightarrow> string" where
  "format_json JNull = ''<nil>''"
| "format_json (JBool b) = (if b then ''true'' else ''false'')"
| "format_json (JNum x) = (case ParseFloat x of None \<Rightarrow> [] | Some t \<Rightarrow> format_v t)"
| "format_json (JStr s) = s"
| "format_json (JArr vs) = ''['' @ separated (map format_json vs) @ '']''"
| "format_json (JObj ms) =
     ''map['' @ separated (map (\<lambda>(k, x). k @ '':'' @ x)
       (rows (fmap_of_list (rev (map (\<lambda>m. (fst m, format_json (snd m))) ms))))) @ '']''"

section \<open>The answer of the service\<close>

text \<open>The case of a \<open>json.Number\<close> cannot arise: the decoder does not use them.\<close>

definition stringifyID :: "json \<Rightarrow> string" where
  "stringifyID v =
     (case v of
        JNull \<Rightarrow> []
      | JStr t \<Rightarrow> TrimSpace t
      | JNum x \<Rightarrow>
          (case ParseFloat x of
             None \<Rightarrow> []
           | Some t \<Rightarrow>
               if \<not> float_eq t (float64_of (int64_of t)) then TrimSpace (format_v t)
               else FormatInt (int64_of t))
      | _ \<Rightarrow> TrimSpace (format_json v))"

record AuthEnvelope =
  ae_User :: "json option"
  ae_ID :: "json option"

definition auth_envelope_fields :: "AuthEnvelope field list" where
  "auth_envelope_fields = [(''user'', raw_field ae_User_update), (''id'', raw_field ae_ID_update)]"

record AuthRecord =
  ax_ID :: json
  ax_Account :: string
  ax_Username :: string
  ax_Email :: string
  ax_IsActive :: "bool option"
  ax_Active :: "bool option"

definition record_fields :: "AuthRecord field list" where
  "record_fields =
     [(''id'', any_field ax_ID_update), (''account'', string_field ax_Account_update),
      (''username'', string_field ax_Username_update), (''email'', string_field ax_Email_update),
      (''is_active'', bool_ptr_field ax_IsActive_update), (''isActive'', bool_ptr_field ax_Active_update)]"

definition no_record :: AuthRecord where
  "no_record =
     \<lparr>ax_ID = JNull, ax_Account = [], ax_Username = [], ax_Email = [], ax_IsActive = None, ax_Active = None\<rparr>"

text \<open>The record of the user: the member \<open>user\<close>, or the whole body where there is none.\<close>

definition user_record :: "string \<Rightarrow> AuthRecord option" where
  "user_record body =
     (case read_all body of
        None \<Rightarrow> None
      | Some v \<Rightarrow>
          (case decode_struct False auth_envelope_fields v \<lparr>ae_User = None, ae_ID = None\<rparr> of
             None \<Rightarrow> None
           | Some env \<Rightarrow>
               decode_struct False record_fields (case ae_User env of None \<Rightarrow> v | Some u \<Rightarrow> u) no_record))"

definition parseUser :: "(nat \<Rightarrow> nat) \<Rightarrow> string \<Rightarrow> ExtUser option" where
  "parseUser tbl body =
     (case user_record body of
        None \<Rightarrow> None
      | Some ar \<Rightarrow>
          let subject = stringifyID (ax_ID ar) in
          if subject = [] then None
          else if ax_IsActive ar = Some False then None
          else if ax_Active ar = Some False then None
          else
            let account = TrimSpace (ax_Account ar);
                account = (if account = [] then TrimSpace (ax_Username ar) else account);
                email = ToLower tbl (TrimSpace (ax_Email ar))
            in Some \<lparr>xu_Subject = subject, xu_Account = account, xu_Email = email\<rparr>)"

section \<open>The exchange\<close>

text \<open>
  The request cannot be made (the URL does not parse), it has no answer, or it has a status and
  a body (what of it could be read).
\<close>

datatype exchanged = Unsendable | Unanswered | Answered int string

text \<open>\<open>json.Marshal\<close> of a map writes the keys in their order.\<close>

definition verify_payload :: "string \<Rightarrow> string \<Rightarrow> string" where
  "verify_payload ident password =
     marshal_object
       ((''account'', JStr ident) # (if Contains ident ''@'' then [(''email'', JStr ident)] else []) @
        [(''password'', JStr password), (''username'', JStr ident)])"

definition HTTPVerifier_Verify ::
  "(nat \<Rightarrow> nat) \<Rightarrow> string \<Rightarrow> (string \<Rightarrow> string \<Rightarrow> exchanged) \<Rightarrow> string \<Rightarrow> string \<Rightarrow> failure + ExtUser" where
  "HTTPVerifier_Verify tbl url exchange identifier password =
     (let ident = TrimSpace identifier in
      case exchange url (verify_payload ident password) of
        Unsendable \<Rightarrow> Inl Other
      | Unanswered \<Rightarrow> Inl (App (New 503 TemporarilyUnavailable))
      | Answered status received \<Rightarrow>
          let body = take 1048576 received in
          if status = 401 \<or> status = 403 then Inl (App (New 401 Unauthenticated))
          else if status < 200 \<or> status \<ge> 300 then Inl (App (New 503 TemporarilyUnavailable))
          else case parseUser tbl body of
            None \<Rightarrow> Inl (App (New 401 Unauthenticated))
          | Some user \<Rightarrow> Inr user)"

section \<open>Who signs in\<close>

lemma login_finish_user:
  "login_finish fr clk li u db = Inr (res, db') \<Longrightarrow> users db' = users db \<and> ar_UserID res = u"
  by (auto simp: login_finish_def login_device_def issueSession_def auth_result_def touch_device_def Let_def res
      split: option.splits if_splits prod.splits)

lemma find_row_external:
  assumes "find_row (\<lambda>_ r. u_auth_provider r = ''external'' \<and> u_external_subject r = Some subject) (users db) = Some (u, r)"
  shows "fmlookup (users db) u = Some r" "u_auth_provider r = ''external''" "u_external_subject r = Some subject"
  using assms by (auto dest: find_row_Some)

definition linked :: "string \<Rightarrow> uuid \<Rightarrow> DB \<Rightarrow> bool" where
  "linked subject u db \<longleftrightarrow>
     (\<exists>r. fmlookup (users db) u = Some r \<and> u_auth_provider r = ''external'' \<and> u_status r = ''active''
       \<and> u_external_subject r = Some subject)"

lemma loginExternal_linked:
  assumes "loginExternal_tx w fr clk li ext db = Inr (res, db')"
  shows "linked (xu_Subject ext) (ar_UserID res) db'"
proof (cases "find_row (\<lambda>_ r. u_auth_provider r = ''external'' \<and> u_external_subject r = Some (xu_Subject ext))
    (users db)")
  case None
  with assms show ?thesis
    by (auto simp: loginExternal_tx_def bind_res_Inr_iff unique_conflict_Inr insert_user_Inr insert_sync_Inr
        linked_def Let_def dest!: login_finish_user)
next
  case (Some ur)
  obtain u r where ur: "ur = (u, r)" by (cases ur)
  note row = find_row_external [OF Some [unfolded ur]]
  let ?email = "if xu_Email ext \<noteq> [] then Email (w_tbl w) (xu_Email ext) else None"
  let ?upd = "case ?email of None \<Rightarrow> Inr db
    | Some norm \<Rightarrow> update_user (w_lower w) u (\<lambda>r. r\<lparr>u_email := Some norm\<rparr>) db"
  obtain db1 where upd: "?upd = Inr db1" and fin: "login_finish fr (shift 2 clk) li u db1 = Inr (res, db')"
    and act: "u_status r = ''active''"
    using assms unfolding loginExternal_tx_def Some ur Let_def option.case prod.case
    by (cases ?upd) (auto split: if_splits)
  from upd row act have "linked (xu_Subject ext) u db1"
    by (auto simp: linked_def update_user_Inr split: option.splits if_splits)
  with login_finish_user [OF fin] show ?thesis by (simp add: linked_def)
qed

lemma parseUser_Some:
  "parseUser tbl body = Some ext \<longleftrightarrow>
     (\<exists>ar. user_record body = Some ar \<and> stringifyID (ax_ID ar) \<noteq> [] \<and> ax_IsActive ar \<noteq> Some False
       \<and> ax_Active ar \<noteq> Some False
       \<and> ext = \<lparr>xu_Subject = stringifyID (ax_ID ar),
           xu_Account = (if TrimSpace (ax_Account ar) = [] then TrimSpace (ax_Username ar) else TrimSpace (ax_Account ar)),
           xu_Email = ToLower tbl (TrimSpace (ax_Email ar))\<rparr>)"
  by (auto simp: parseUser_def Let_def split: option.splits if_splits)

lemma HTTPVerifier_Verify_Inr:
  "HTTPVerifier_Verify tbl url exchange ident pw = Inr ext \<longleftrightarrow>
     (\<exists>status body. exchange url (verify_payload (TrimSpace ident) pw) = Answered status body
       \<and> 200 \<le> status \<and> status < 300 \<and> parseUser tbl (take 1048576 body) = Some ext)"
  by (auto simp: HTTPVerifier_Verify_def Let_def split: exchanged.splits if_splits option.splits)

lemma errs_HTTPVerifier: "errs (HTTPVerifier_Verify tbl url exchange ident pw)"
  by (auto simp: HTTPVerifier_Verify_def Let_def split: exchanged.split option.split)

section \<open>Numeric identifiers\<close>

text \<open>An answer that is the identifier alone.\<close>

definition id_answer :: "int \<Rightarrow> string" where
  "id_answer n = marshal_object [(''id'', JNum (FormatInt n))]"


lemma ValidString_id: "ValidString ''id''"
  by (rule ValidString_ascii) code_simp

lemma read_id_answer: "read_all (id_answer n) = Some (JObj [(''id'', JNum (FormatInt n))])"
  unfolding id_answer_def by (rule read_all_marshal) (auto simp: flat_def ValidString_id)

lemma user_record_id_answer:
  "user_record (id_answer n) =
     (if ParseFloat (FormatInt n) = None then None else Some (no_record\<lparr>ax_ID := JNum (FormatInt n)\<rparr>))"
  by (simp add: user_record_def read_id_answer decode_struct_def auth_envelope_fields_def record_fields_def
      select_field_def raw_field_def any_field_def)

lemma parse_id_answer:
  "parseUser tbl (id_answer n) =
     (case ParseFloat (FormatInt n) of
        None \<Rightarrow> None
      | Some t \<Rightarrow>
          if stringifyID (JNum (FormatInt n)) = [] then None
          else Some \<lparr>xu_Subject = stringifyID (JNum (FormatInt n)), xu_Account = TrimSpace [],
            xu_Email = ToLower tbl (TrimSpace [])\<rparr>)"
  by (auto simp: parseUser_def user_record_id_answer no_record_def Let_def split: option.split)

lemma stringifyID_small: "\<bar>n\<bar> < 2 ^ 53 \<Longrightarrow> stringifyID (JNum (FormatInt n)) = FormatInt n"
  by (simp only: stringifyID_def ParseFloat_FormatInt int64_of_small float64_of_small float_eq_def
      json.case option.case simp_thms if_True if_False)

lemma stringifyID_cong: "ParseFloat x = ParseFloat y \<Longrightarrow> stringifyID (JNum x) = stringifyID (JNum y)"
  by (simp add: stringifyID_def)

lemma ParseFloat_2_53: "ParseFloat (FormatInt (2 ^ 53 + 1)) = ParseFloat (FormatInt (2 ^ 53))"
proof -
  have "nat \<bar>2 ^ 53 + 1\<bar> = 2 ^ 53 + 1" "nat \<bar>2 ^ 53\<bar> = 2 ^ 53" by simp_all
  then show ?thesis
    unfolding ParseFloat_def decimal_of_FormatInt Let_def prod.case by (simp only: nearest_2_53 if_False
      zero_le nat_0 minus_zero power_0 mult_1_right) simp
qed

text \<open>
  C38: Numeric identifiers.  An integer of magnitude below \<open>2 ^ 53\<close> identifies the account by its
  decimal digits, so different ones stay different accounts.  From there on the decoder's
  \<open>float64\<close> merges identifiers: \<open>2 ^ 53\<close> and \<open>2 ^ 53 + 1\<close> are the same user.
\<close>

theorem numeric_subjects:
  "(\<bar>n\<bar> < 2 ^ 53 \<longrightarrow> map_option xu_Subject (parseUser tbl (id_answer n)) = Some (FormatInt n))
    \<and> parseUser tbl (id_answer (2 ^ 53 + 1)) = parseUser tbl (id_answer (2 ^ 53))"
proof (intro conjI impI)
  assume "\<bar>n\<bar> < 2 ^ 53"
  then show "map_option xu_Subject (parseUser tbl (id_answer n)) = Some (FormatInt n)"
    by (simp only: parse_id_answer ParseFloat_FormatInt option.case stringifyID_small hd_FormatInt if_False
        option.map ExtUser.simps)
next
  show "parseUser tbl (id_answer (2 ^ 53 + 1)) = parseUser tbl (id_answer (2 ^ 53))"
    by (simp only: parse_id_answer stringifyID_cong [OF ParseFloat_2_53] ParseFloat_2_53)
qed

theorem numeric_subjects_witness:
  "map_option xu_Subject (parseUser (w_tbl world1) (id_answer 42)) = Some ''42''"
proof -
  have "FormatInt 42 = ''42''" by code_simp
  with numeric_subjects [of 42 "w_tbl world1"] show ?thesis by simp
qed

section \<open>An example\<close>

text \<open>A known external account, number 42 of the service, which knows no other.\<close>

definition store_ext :: Store where
  "store_ext = store_in\<lparr>st_Cfg := cfg1\<lparr>RegistrationMode := ''external''\<rparr>, st_Pool := (st_Pool store_in)
     \<lparr>sessions := fmempty, users := fmupd user1
       \<lparr>u_username = ''bob'', u_password_hash = ''!'', u_status = ''active'', u_created_at = 1, u_email = None,
        u_email_verified_at = None, u_auth_provider = ''external'', u_external_subject = Some (FormatInt 42)\<rparr> fmempty\<rparr>\<rparr>"

definition service42 :: "string \<Rightarrow> string \<Rightarrow> exchanged" where
  "service42 url body = Answered 200 (id_answer 42)"

definition login42 :: LoginInput where
  "login42 = \<lparr>li_Username = ''bob'', li_Password = ''pw'', li_DeviceID = device1, li_DeviceName = ''pc'',
     li_Platform = ''web''\<rparr>"

lemma id_answer_42: "length (id_answer 42) \<le> 1048576"
proof -
  have "length (FormatInt 42) = 2" by code_simp
  with escape_string_length [of "''id''"] show ?thesis
    by (simp add: id_answer_def marshal_object_def marshal_member_def marshal_string_def)
qed

lemma TrimSpace_Nil [simp]: "TrimSpace [] = []"
  by code_simp

lemma ToLower_Nil [simp]: "ToLower tbl [] = []"
  by (simp add: ToLower_def runes_def rune_values.simps)

lemma verify42: "HTTPVerifier_Verify tbl url service42 ident pw =
  Inr \<lparr>xu_Subject = FormatInt 42, xu_Account = [], xu_Email = []\<rparr>"
  using ParseFloat_FormatInt [of 42] id_answer_42 stringifyID_small [of 42] hd_FormatInt(2) [of 42]
  by (simp add: HTTPVerifier_Verify_def service42_def parse_id_answer Let_def)

lemma login_42: "\<exists>res st'. Login world1 (Some (HTTPVerifier_Verify (w_tbl world1) url service42)) fresh1
    (\<lambda>_. 40) login42 store_ext = (Inr res, st')"
proof -
  let ?ext = "\<lparr>xu_Subject = FormatInt 42, xu_Account = [], xu_Email = []\<rparr>"
  let ?db = "st_Pool store_ext"
  have "\<exists>r. fmlookup (users ?db) user1 = Some r \<and> u_status r = ''active'' \<and>
      find_row (\<lambda>_ r. u_auth_provider r = ''external'' \<and> u_external_subject r = Some (FormatInt 42)) (users ?db) = Some (user1, r)"
    by (intro exI conjI; (rule find_row_unique)?) (auto simp: store_ext_def split: if_splits)
  then obtain r where r: "u_status r = ''active''"
    "find_row (\<lambda>_ r. u_auth_provider r = ''external'' \<and> u_external_subject r = Some (FormatInt 42)) (users ?db) = Some (user1, r)"
    by blast
  have "\<exists>y. login_finish fresh1 (shift 2 (\<lambda>_. 40)) login42 user1 ?db = Inr y"
  proof -
    obtain d where d: "fmlookup (devices ?db) (user1, device1) = Some d" "d_revoked_at d = None"
      by (simp add: store_ext_def)
    let ?db1 = "touch_device (shift 2 (\<lambda>_. 40) 0) user1 device1 ?db"
    have "devices ?db1 = update_where (\<lambda>k _. k = (user1, device1)) (\<lambda>d. d\<lparr>d_last_seen_at := Some 40\<rparr>) (devices ?db)"
      "sessions ?db1 = fmempty" by (simp_all add: touch_device_def store_ext_def)
    with d have "\<exists>y. issueSession (shift 2 (shift 2 (\<lambda>_. 40))) fresh1 user1 device1 fam ?db1 = Inr y" for fam
      by (simp add: issueSession_def RandomToken_Encode insert_session_def check_session_def has_row_def
          exists_row_iff lookup_update_where Let_def)
    with d show ?thesis
      by (fastforce simp: login_finish_def login_device_def login42_def bind_res_Inr_iff)
  qed
  then have "\<exists>y. loginExternal_tx world1 fresh1 (\<lambda>_. 40) login42 ?ext ?db = Inr y"
    by (simp add: loginExternal_tx_def r)
  moreover have "\<not> localUserExists world1 (li_Username login42) ?db"
    by (simp add: localUserExists_def Let_def exists_row_iff store_ext_def)
  ultimately show ?thesis
    using hd_FormatInt(2) [of 42] by (auto simp: Login_def loginExternal_def verify42 store_ext_def run_tx_def)
qed

text \<open>
  C37: Who signs in through the external service.  A login that the local accounts do not answer
  succeeds only when the service has answered with a 2xx status and a JSON record with an
  identifier and neither \<open>is_active\<close> nor \<open>isActive\<close> false; and then the account it signs in is
  an active external account linked to exactly that identifier.
\<close>

theorem external_login:
  assumes "RegistrationMode (st_Cfg st) = ''external''" "\<not> localUserExists w (li_Username li) (st_Pool st)"
    and "Login w (Some (HTTPVerifier_Verify tbl url exchange)) fr clk li st = (Inr res, st')"
  shows "\<exists>status body ar. exchange url (verify_payload (TrimSpace (li_Username li)) (li_Password li)) = Answered status body
    \<and> 200 \<le> status \<and> status < 300 \<and> user_record (take 1048576 body) = Some ar
    \<and> stringifyID (ax_ID ar) \<noteq> [] \<and> ax_IsActive ar \<noteq> Some False \<and> ax_Active ar \<noteq> Some False
    \<and> linked (stringifyID (ax_ID ar)) (ar_UserID res) (st_Pool st')"
  using assms
  by (auto simp: Login_def loginExternal_def run_tx_Inr_iff HTTPVerifier_Verify_Inr parseUser_Some
      dest!: loginExternal_linked split: sum.splits if_splits)

theorem external_login_witness:
  "\<exists>res st'. Login world1 (Some (HTTPVerifier_Verify (w_tbl world1) ''u'' service42)) fresh1
      (\<lambda>_. 40) login42 store_ext = (Inr res, st') \<and> linked ''42'' (ar_UserID res) (st_Pool st')"
proof -
  obtain res st' where log: "Login world1 (Some (HTTPVerifier_Verify (w_tbl world1) ''u'' service42)) fresh1
      (\<lambda>_. 40) login42 store_ext = (Inr res, st')" using login_42 by blast
  have ar: "user_record (take 1048576 (id_answer 42)) = Some (no_record\<lparr>ax_ID := JNum (FormatInt 42)\<rparr>)"
    using id_answer_42 ParseFloat_FormatInt [of 42] by (simp add: user_record_id_answer)
  have "FormatInt 42 = ''42''" by code_simp
  then have "stringifyID (JNum (FormatInt 42)) = ''42''" using stringifyID_small [of 42] by simp
  moreover have "\<not> localUserExists world1 (li_Username login42) (st_Pool store_ext)"
    by (simp add: localUserExists_def Let_def exists_row_iff store_ext_def)
  ultimately show ?thesis
    using external_login [OF _ _ log] log ar by (auto simp: store_ext_def service42_def)
qed

end
