(* ===== verification/Migrate.thy ===== *)
theory Migrate
  imports Schema Sha256 "HOL-Library.Sublist"
begin

text \<open>
  Package \<open>migrate\<close> (server/internal/migrate/migrate.go): the migrations of the embedded
  directory are executed in the order of their names, each once, in a transaction that records
  its checksum.  What PostgreSQL does with the text of a migration is the parameter \<open>exec\<close>; the
  files are the parameter \<open>files\<close>.  The advisory lock makes a run of \<open>Apply\<close> one step for other
  processes.  \<open>schema_migrations\<close> does not exist (None) before the first run; its column
  \<open>applied_at\<close>, which nothing reads, is not kept.
\<close>

record Schema =
  schema_migrations :: "(string, string) table option"
  tables :: DB

datatype mig_error = ChecksumMismatch string | ApplyFailed string failure | Unreadable string

type_synonym executor = "string \<Rightarrow> DB \<Rightarrow> failure + DB"
type_synonym files = "(string \<times> bytes) list"

definition recorded :: "Schema \<Rightarrow> (string, string) table" where
  "recorded s = (case schema_migrations s of None \<Rightarrow> fmempty | Some t \<Rightarrow> t)"

definition checksum :: "bytes \<Rightarrow> string" where
  "checksum body = hex_encode (sha256 body)"

definition sql_names :: "files \<Rightarrow> string list" where
  "sql_names files = sort (filter (\<lambda>n. HasSuffix n ''.sql'') (map fst files))"

text \<open>The loop over the names; a failure leaves what was committed before.\<close>

fun apply_all :: "executor \<Rightarrow> files \<Rightarrow> string list \<Rightarrow> Schema \<Rightarrow> (mig_error + unit) \<times> Schema" where
  "apply_all exec files [] s = (Inr (), s)"
| "apply_all exec files (name # names) s =
     (case map_of files name of
        None \<Rightarrow> (Inl (Unreadable name), s)
      | Some body \<Rightarrow>
          (case fmlookup (recorded s) name of
             Some existing \<Rightarrow>
               if existing \<noteq> checksum body then (Inl (ChecksumMismatch name), s)
               else apply_all exec files names s
           | None \<Rightarrow>
               (case exec (string_of body) (tables s) of
                  Inl e \<Rightarrow> (Inl (ApplyFailed name e), s)
                | Inr db \<Rightarrow>
                    apply_all exec files names
                      (s\<lparr>schema_migrations := Some (fmupd name (checksum body) (recorded s)),
                         tables := db\<rparr>))))"

text \<open>The arguments are the two identifiers \<open>gen_random_uuid()\<close> yields.\<close>

definition ensureServerState :: "uuid \<Rightarrow> uuid \<Rightarrow> DB \<Rightarrow> DB" where
  "ensureServerState sid epoch db =
     (case server_state db of
        Some _ \<Rightarrow> db
      | None \<Rightarrow> db\<lparr>server_state := Some \<lparr>server_id = sid, sync_epoch = epoch\<rparr>\<rparr>)"

definition Apply :: "executor \<Rightarrow> files \<Rightarrow> uuid \<Rightarrow> uuid \<Rightarrow> Schema \<Rightarrow> (mig_error + unit) \<times> Schema" where
  "Apply exec files sid epoch s =
     (let s = s\<lparr>schema_migrations := Some (recorded s)\<rparr> in
      case apply_all exec files (sql_names files) s of
        (Inl e, s) \<Rightarrow> (Inl e, s)
      | (Inr _, s) \<Rightarrow> (Inr (), s\<lparr>tables := ensureServerState sid epoch (tables s)\<rparr>))"

text \<open>The empty version when nothing is recorded; the query fails when there is no table.\<close>

definition CurrentVersion :: "Schema \<Rightarrow> failure + string" where
  "CurrentVersion s =
     (case schema_migrations s of
        None \<Rightarrow> Inl Other
      | Some t \<Rightarrow> Inr (if keys_sorted t = [] then [] else last (keys_sorted t)))"

section \<open>What a run executes\<close>

text \<open>The names still to be executed, and their execution from left to right.\<close>

definition pending :: "files \<Rightarrow> Schema \<Rightarrow> string list" where
  "pending files s = filter (\<lambda>n. fmlookup (recorded s) n = None) (sql_names files)"

fun execute :: "executor \<Rightarrow> files \<Rightarrow> string list \<Rightarrow> DB \<Rightarrow> failure + DB" where
  "execute exec files [] db = Inr db"
| "execute exec files (n # ns) db =
     (case map_of files n of
        None \<Rightarrow> Inl Other
      | Some body \<Rightarrow> bind_res (exec (string_of body) db) (execute exec files ns))"

definition record_all :: "files \<Rightarrow> string list \<Rightarrow> (string, string) table \<Rightarrow> (string, string) table" where
  "record_all files ns t = foldl (\<lambda>t n. fmupd n (checksum (the (map_of files n))) t) t ns"

definition matching :: "files \<Rightarrow> Schema \<Rightarrow> string \<Rightarrow> bool" where
  "matching files s n \<longleftrightarrow> (\<exists>body. map_of files n = Some body \<and> fmlookup (recorded s) n = Some (checksum body))"

lemma recorded_simps [simp]:
  "schema_migrations s = Some t \<Longrightarrow> recorded s = t"
  "recorded (s\<lparr>tables := db\<rparr>) = recorded s"
  by (simp_all add: recorded_def)

lemma record_all_lookup:
  "fmlookup (record_all files ns t) n = (if n \<in> set ns then Some (checksum (the (map_of files n))) else fmlookup t n)"
  by (induction ns arbitrary: t) (auto simp: record_all_def)

lemma length_hex_encode [simp]: "length (hex_encode b) = 2 * length b"
  by (induction b) (simp_all add: hex_encode_def)

text \<open>What is wrong when a run fails at a name.\<close>

fun blames :: "executor \<Rightarrow> files \<Rightarrow> Schema \<Rightarrow> mig_error \<Rightarrow> string \<Rightarrow> bool" where
  "blames exec files s (Unreadable m) n \<longleftrightarrow> m = n \<and> map_of files n = None"
| "blames exec files s (ChecksumMismatch m) n \<longleftrightarrow> m = n \<and>
     (\<exists>body c. map_of files n = Some body \<and> fmlookup (recorded s) n = Some c \<and> c \<noteq> checksum body)"
| "blames exec files s (ApplyFailed m e) n \<longleftrightarrow> m = n \<and>
     (\<exists>body. map_of files n = Some body \<and> fmlookup (recorded s) n = None \<and> exec (string_of body) (tables s) = Inl e)"

lemma apply_all_runs:
  assumes "apply_all exec files names s = (r, s')" and "distinct names"
  shows "\<exists>ran rest db. names = ran @ rest
    \<and> execute exec files (filter (\<lambda>n. fmlookup (recorded s) n = None) ran) (tables s) = Inr db
    \<and> tables s' = db \<and> recorded s' = record_all files (filter (\<lambda>n. fmlookup (recorded s) n = None) ran) (recorded s)
    \<and> (\<forall>n\<in>set ran. matching files s' n)
    \<and> (case r of Inr _ \<Rightarrow> rest = [] | Inl e \<Rightarrow> \<exists>n ns. rest = n # ns \<and> blames exec files s' e n)"
  using assms
proof (induction exec files names s rule: apply_all.induct)
  case (1 exec files s)
  then show ?case by (auto simp: record_all_def)
next
  case (2 exec files n names s)
  let ?P = "\<lambda>s n. fmlookup (recorded s) n = None"
  show ?case
  proof (cases "map_of files n")
    case None
    with "2.prems"(1) show ?thesis
      by (intro exI [of _ "[]"] exI [of _ "n # names"] exI [of _ "tables s"]) (auto simp: record_all_def)
  next
    case (Some body)
    note found = this
    show ?thesis
    proof (cases "fmlookup (recorded s) n")
      case (Some c)
      show ?thesis
      proof (cases "c = checksum body")
        case False
        with "2.prems"(1) found Some show ?thesis
          by (intro exI [of _ "[]"] exI [of _ "n # names"] exI [of _ "tables s"]) (auto simp: record_all_def)
      next
        case True
        with "2.prems" found Some have rec: "apply_all exec files names s = (r, s')" "distinct names" by simp_all
        from "2.IH"(2) [OF found Some _ rec] True obtain ran rest db where IH: "names = ran @ rest"
          "execute exec files (filter (?P s) ran) (tables s) = Inr db" "tables s' = db"
          "recorded s' = record_all files (filter (?P s) ran) (recorded s)" "\<forall>n\<in>set ran. matching files s' n"
          "case r of Inr _ \<Rightarrow> rest = [] | Inl e \<Rightarrow> \<exists>n ns. rest = n # ns \<and> blames exec files s' e n" by auto
        with IH(1,4) "2.prems"(2) have "fmlookup (recorded s') n = Some c" using Some by (simp add: record_all_lookup)
        with IH Some True found show ?thesis
          by (intro exI [of _ "n # ran"] exI [of _ rest] exI [of _ db]) (auto simp: matching_def)
      qed
    next
      case None
      show ?thesis
      proof (cases "exec (string_of body) (tables s)")
        case (Inl e)
        with "2.prems"(1) found None show ?thesis
          by (intro exI [of _ "[]"] exI [of _ "n # names"] exI [of _ "tables s"]) (auto simp: record_all_def)
      next
        case (Inr db1)
        let ?s1 = "s\<lparr>schema_migrations := Some (fmupd n (checksum body) (recorded s)), tables := db1\<rparr>"
        from "2.prems" found None Inr have rec: "apply_all exec files names ?s1 = (r, s')" "distinct names" by simp_all
        from "2.IH"(1) [OF found None Inr rec] obtain ran rest db where IH: "names = ran @ rest"
          "execute exec files (filter (?P ?s1) ran) db1 = Inr db" "tables s' = db"
          "recorded s' = record_all files (filter (?P ?s1) ran) (fmupd n (checksum body) (recorded s))"
          "\<forall>n\<in>set ran. matching files s' n"
          "case r of Inr _ \<Rightarrow> rest = [] | Inl e \<Rightarrow> \<exists>n ns. rest = n # ns \<and> blames exec files s' e n" by auto
        have new: "n \<notin> set ran" using IH(1) "2.prems"(2) by simp
        then have same: "filter (?P ?s1) ran = filter (?P s) ran" by (intro filter_cong) auto
        have "fmlookup (recorded s') n = Some (checksum body)" using IH(4) new by (simp add: record_all_lookup)
        with IH same None Inr found show ?thesis
          by (intro exI [of _ "n # ran"] exI [of _ rest] exI [of _ db]) (auto simp: matching_def record_all_def)
      qed
    qed
  qed
qed

lemma distinct_sql_names: "distinct (map fst files) \<Longrightarrow> distinct (sql_names files)"
  by (simp add: sql_names_def)

lemma sorted_sql_names [simp]: "sorted (sql_names files)"
  by (simp add: sql_names_def)

text \<open>The run of \<open>Apply\<close>, with the parts of \<open>apply_all_runs\<close>.\<close>

lemma Apply_runs:
  assumes "Apply exec files sid epoch s = (r, s')" and "distinct (map fst files)"
  obtains ran rest db where "sql_names files = ran @ rest"
    and "execute exec files (filter (\<lambda>n. fmlookup (recorded s) n = None) ran) (tables s) = Inr db"
    and "recorded s' = record_all files (filter (\<lambda>n. fmlookup (recorded s) n = None) ran) (recorded s)"
    and "\<forall>n\<in>set ran. matching files s' n"
    and "case r of Inr _ \<Rightarrow> rest = [] \<and> tables s' = ensureServerState sid epoch db
         | Inl e \<Rightarrow> tables s' = db \<and> (\<exists>n ns. rest = n # ns \<and> blames exec files s' e n)"
proof -
  let ?s = "s\<lparr>schema_migrations := Some (recorded s)\<rparr>"
  obtain r1 s1 where all: "apply_all exec files (sql_names files) ?s = (r1, s1)" by fastforce
  from apply_all_runs [OF all distinct_sql_names [OF assms(2)]] obtain ran rest db where IH: "sql_names files = ran @ rest"
    "execute exec files (filter (\<lambda>n. fmlookup (recorded s) n = None) ran) (tables s) = Inr db" "tables s1 = db"
    "recorded s1 = record_all files (filter (\<lambda>n. fmlookup (recorded s) n = None) ran) (recorded s)"
    "\<forall>n\<in>set ran. matching files s1 n"
    "case r1 of Inr _ \<Rightarrow> rest = [] | Inl e \<Rightarrow> \<exists>n ns. rest = n # ns \<and> blames exec files s1 e n" by auto
  show thesis
  proof (cases r1)
    case (Inl e)
    with assms(1) all have "r = Inl e" "s' = s1" by (simp_all add: Apply_def Let_def)
    with IH Inl show thesis by (intro that [of ran rest db]) auto
  next
    case (Inr u)
    with assms(1) all have s': "r = Inr ()" "s' = s1\<lparr>tables := ensureServerState sid epoch (tables s1)\<rparr>"
      by (simp_all add: Apply_def Let_def)
    have "matching files s' n \<longleftrightarrow> matching files s1 n" for n by (simp add: s' matching_def)
    with IH Inr s' show thesis by (intro that [of ran rest db]) auto
  qed
qed

text \<open>
  C33: A run of the migrations does what is pending, in order, and records it.  The names without
  a record, in ascending order, split into those that ran and the rest; the database is the
  result of executing exactly the former, one after the other, and exactly they are recorded,
  with the checksums of their files.  Success means nothing is left and the server has its
  identity; failure names the reason and leaves the committed ones in place.
\<close>

theorem migrations_exact:
  assumes "Apply exec files sid epoch s = (r, s')" and "distinct (map fst files)"
  shows "sorted (pending files s) \<and> (\<exists>ran rest db. pending files s = ran @ rest
    \<and> execute exec files ran (tables s) = Inr db \<and> recorded s' = record_all files ran (recorded s)
    \<and> (case r of Inr _ \<Rightarrow> rest = [] \<and> tables s' = ensureServerState sid epoch db
       | Inl e \<Rightarrow> tables s' = db \<and> (\<exists>n\<in>set (sql_names files). blames exec files s' e n)))"
proof -
  from Apply_runs [OF assms] obtain ran rest db where R: "sql_names files = ran @ rest"
    "execute exec files (filter (\<lambda>n. fmlookup (recorded s) n = None) ran) (tables s) = Inr db"
    "recorded s' = record_all files (filter (\<lambda>n. fmlookup (recorded s) n = None) ran) (recorded s)"
    "\<forall>n\<in>set ran. matching files s' n"
    "case r of Inr _ \<Rightarrow> rest = [] \<and> tables s' = ensureServerState sid epoch db
     | Inl e \<Rightarrow> tables s' = db \<and> (\<exists>n ns. rest = n # ns \<and> blames exec files s' e n)" .
  have "sorted (pending files s)" unfolding pending_def by (intro sorted_wrt_filter sorted_sql_names)
  moreover have "pending files s = filter (\<lambda>n. fmlookup (recorded s) n = None) ran
      @ filter (\<lambda>n. fmlookup (recorded s) n = None) rest"
    by (simp add: pending_def R(1))
  ultimately show ?thesis using R by (intro conjI exI) (assumption | fastforce split: sum.splits)+
qed

text \<open>
  Starting the server again changes nothing.  After a successful run, another run over the
  same files succeeds, executes nothing, whatever the database would do, and leaves the records,
  the tables and the identity of the server as they are.
\<close>

theorem migrate_again:
  assumes "Apply exec files sid epoch s = (Inr (), s')" and "distinct (map fst files)"
  shows "Apply exec' files sid' epoch' s' = (Inr (), s')"
proof -
  have all: "apply_all exec' files ns s' = (Inr (), s')" if "\<forall>n\<in>set ns. matching files s' n" for ns
    using that by (induction ns) (auto simp: matching_def)
  from Apply_runs [OF assms] obtain db where m: "\<forall>n\<in>set (sql_names files). matching files s' n"
    and t: "tables s' = ensureServerState sid epoch db" by auto
  have some: "schema_migrations s' \<noteq> None"
  proof -
    have "schema_migrations (snd (apply_all exec files ns t)) \<noteq> None" if "schema_migrations t \<noteq> None" for ns t
      using that by (induction exec files ns t rule: apply_all.induct) (auto split: option.split sum.split)
    from this [of "s\<lparr>schema_migrations := Some (recorded s)\<rparr>" "sql_names files"] assms(1)
    show ?thesis by (auto simp: Apply_def Let_def split: prod.splits sum.splits)
  qed
  then have "s'\<lparr>schema_migrations := Some (recorded s')\<rparr> = s'" by (cases s') auto
  moreover have "ensureServerState sid' epoch' (tables s') = tables s'"
    by (simp add: t ensureServerState_def split: option.split)
  ultimately show ?thesis by (simp add: Apply_def all [OF m])
qed

text \<open>
  C34: A migration that was changed after it ran stops the server.  If the record of a file and its
  content disagree, \<open>Apply\<close> fails; what it has executed before it failed is a run of pending
  migrations, all with names before that of the changed file: the tables are the result of
  executing those, whatever the database would do with any other text, and those alone are newly
  recorded.
\<close>

theorem changed_migration_refused:
  assumes "Apply exec files sid epoch s = (r, s')" and "distinct (map fst files)"
    and "n \<in> set (sql_names files)" "map_of files n = Some body"
    and "fmlookup (recorded s) n = Some c" "c \<noteq> checksum body"
  shows "(\<exists>e. r = Inl e) \<and> (\<exists>ran. prefix ran (pending files s) \<and> (\<forall>m\<in>set ran. m < n)
    \<and> execute exec files ran (tables s) = Inr (tables s') \<and> recorded s' = record_all files ran (recorded s))"
proof -
  let ?new = "filter (\<lambda>n. fmlookup (recorded s) n = None)"
  from Apply_runs [OF assms(1,2)] obtain ran rest db where R: "sql_names files = ran @ rest"
    "recorded s' = record_all files (?new ran) (recorded s)"
    and exec: "execute exec files (?new ran) (tables s) = Inr db" and R': "\<forall>n\<in>set ran. matching files s' n"
    "case r of Inr _ \<Rightarrow> rest = [] \<and> tables s' = ensureServerState sid epoch db
     | Inl e \<Rightarrow> tables s' = db \<and> (\<exists>n ns. rest = n # ns \<and> blames exec files s' e n)" .
  have "\<not> matching files s' n" using assms(4-6) R(2) by (auto simp: matching_def record_all_lookup)
  with R'(1) have out: "n \<notin> set ran" by blast
  with R(1) assms(3) have rest: "n \<in> set rest" by simp
  have "m < n" if "m \<in> set ran" for m
  proof -
    have "sorted (ran @ rest)" using R(1) sorted_sql_names [of files] by simp
    with that rest have "m \<le> n" by (auto simp: sorted_append)
    with out that show ?thesis by (metis order_le_less)
  qed
  then have "\<forall>m\<in>set (?new ran). m < n" by simp
  moreover have "prefix (?new ran) (pending files s)" by (simp add: pending_def R(1))
  moreover from R'(2) rest have "\<exists>e. r = Inl e" "tables s' = db" by (cases r; auto)+
  ultimately show ?thesis using R(2) exec by blast
qed

section \<open>A sample directory\<close>

definition files1 :: files where
  "files1 = [(''000002_b.sql'', [2]), (''embed.go'', [9]), (''000001_a.sql'', [1])]"

definition fresh_schema :: Schema where
  "fresh_schema = \<lparr>schema_migrations = None, tables = empty_db\<rparr>"

lemma sample_names [simp]: "sql_names files1 = [''000001_a.sql'', ''000002_b.sql'']" "distinct (map fst files1)"
  by code_simp+

lemma sample_migration: "\<exists>s. Apply (\<lambda>_ db. Inr db) files1 sid epoch fresh_schema = (Inr (), s)"
  by (simp add: Apply_def Let_def recorded_def fresh_schema_def files1_def [THEN arg_cong [of _ _ map_of]])

theorem migrations_exact_witness:
  "pending files1 fresh_schema = [''000001_a.sql'', ''000002_b.sql''] \<and>
   (\<exists>s. Apply (\<lambda>_ db. Inr db) files1 ''1'' ''2'' fresh_schema = (Inr (), s)
     \<and> recorded s = record_all files1 (pending files1 fresh_schema) fmempty)"
proof -
  from sample_migration obtain s where run: "Apply (\<lambda>_ db. Inr db) files1 ''1'' ''2'' fresh_schema = (Inr (), s)" by blast
  from migrations_exact [OF run] show ?thesis
    using run by (auto simp: pending_def fresh_schema_def recorded_def)
qed

theorem migrate_again_witness:
  "\<exists>s. Apply (\<lambda>_ db. Inr db) files1 ''1'' ''2'' fresh_schema = (Inr (), s)
     \<and> Apply (\<lambda>_ _. Inl Other) files1 ''3'' ''4'' s = (Inr (), s)"
  using sample_migration migrate_again [of "\<lambda>_ db. Inr db" files1 "''1''" "''2''" fresh_schema] by fastforce

theorem changed_migration_refused_witness:
  "\<exists>e s' ran. Apply (\<lambda>_ db. Inr db) files1 ''1'' ''2''
      (fresh_schema\<lparr>schema_migrations := Some (fmupd ''000002_b.sql'' ''old'' fmempty)\<rparr>) = (Inl e, s')
    \<and> prefix ran [''000001_a.sql''] \<and> recorded s' = record_all files1 ran (fmupd ''000002_b.sql'' ''old'' fmempty)"
proof -
  let ?s = "fresh_schema\<lparr>schema_migrations := Some (fmupd ''000002_b.sql'' ''old'' fmempty)\<rparr>"
  obtain r s' where run: "Apply (\<lambda>_ db. Inr db) files1 ''1'' ''2'' ?s = (r, s')" by fastforce
  have "length (checksum [2]) = 64" by (simp add: checksum_def)
  then have "length ''old'' \<noteq> length (checksum [2])" by simp
  then have "''old'' \<noteq> checksum [2]" by metis
  moreover have "pending files1 ?s = [''000001_a.sql'']" by (simp add: pending_def recorded_def)
  ultimately show ?thesis
    using changed_migration_refused [OF run, of "''000002_b.sql''" "[2]" "''old''"] run
    by (auto simp: recorded_def [of ?s] files1_def [THEN arg_cong [of _ _ map_of]])
qed

end
