(* ===== verification/Settings.thy ===== *)
theory Settings
  imports Config
begin

text \<open>
  Loading the configuration (Load and its helpers of server/internal/config/config.go).  The
  process environment is the function \<open>env\<close>, with the empty string for an unset name as
  \<open>os.Getenv\<close> has it; \<open>read_file\<close> is \<open>os.ReadFile\<close>; \<open>parse_url\<close> is \<open>url.Parse\<close>, of whose result
  only scheme and host are read.
\<close>

datatype load_error =
    BadHTTPAddr | UnreadableURLFile | EmptyURLFile | NoDatabaseURL | BadRegistrationMode
  | NoExternalURL | BadExternalURL | BadExternalRegisterURL | NoEmailBackend | BadEmailBackend
  | NoSMTPHost | NoSMTPFrom | BadSMTPPort | BadMaxTextBytes | BadMaxItems | BadMaxCiphertextBytes
  | BadEventRetention | FixedTrashRetention

type_synonym environment = "string \<Rightarrow> string"
type_synonym file_reader = "string \<Rightarrow> string option"
type_synonym url_parser = "string \<Rightarrow> (string \<times> string) option"

section \<open>Helpers\<close>

definition envOr :: "environment \<Rightarrow> string \<Rightarrow> string \<Rightarrow> string" where
  "envOr env key fallback = (let v = TrimSpace (env key) in if v \<noteq> [] then v else fallback)"

definition databaseURL :: "environment \<Rightarrow> file_reader \<Rightarrow> load_error + string" where
  "databaseURL env read_file =
     (let path = TrimSpace (env ''CLIP_DATABASE_URL_FILE'') in
      if path \<noteq> [] then
        (case read_file path of
           None \<Rightarrow> Inl UnreadableURLFile
         | Some raw \<Rightarrow> let url = TrimSpace raw in if url = [] then Inl EmptyURLFile else Inr url)
      else
        let url = TrimSpace (env ''CLIP_DATABASE_URL'') in if url \<noteq> [] then Inr url else Inl NoDatabaseURL)"

definition parseHTTPURL :: "url_parser \<Rightarrow> string \<Rightarrow> bool" where
  "parseHTTPURL parse_url raw \<longleftrightarrow>
     (case parse_url raw of
        None \<Rightarrow> False
      | Some (scheme, host) \<Rightarrow> (scheme = ''https'' \<or> scheme = ''http'') \<and> host \<noteq> [])"

text \<open>\<open>strings.Index\<close>, \<open>strings.EqualFold\<close> with a word in letters that fold within ASCII only, and
  \<open>net.SplitHostPort\<close>.\<close>

fun Index :: "string \<Rightarrow> string \<Rightarrow> nat option" where
  "Index [] sep = (if sep = [] then Some 0 else None)"
| "Index (c # s) sep = (if HasPrefix (c # s) sep then Some 0 else map_option Suc (Index s sep))"

definition ascii_lower :: "char \<Rightarrow> char" where
  "ascii_lower c = (if 65 \<le> ord c \<and> ord c \<le> 90 then chr (ord c + 32) else c)"

definition EqualFold_ascii :: "string \<Rightarrow> string \<Rightarrow> bool" where
  "EqualFold_ascii s t \<longleftrightarrow> map ascii_lower s = map ascii_lower t"

definition SplitHostPort :: "string \<Rightarrow> (string \<times> string) option" where
  "SplitHostPort s =
     (if CHR '':'' \<notin> set s then None
      else
        let port = rev (takeWhile (\<lambda>c. c \<noteq> CHR '':'') (rev s)); i = length s - length port - 1 in
        if hd s = CHR ''['' then
          (case Index s '']'' of
             None \<Rightarrow> None
           | Some e \<Rightarrow>
               if e + 1 \<noteq> i then None
               else if CHR ''['' \<in> set (drop 1 s) \<or> CHR '']'' \<in> set (drop (e + 1) s) then None
               else Some (take (e - 1) (drop 1 s), port))
        else if CHR '':'' \<in> set (take i s) then None
        else if CHR ''['' \<in> set s \<or> CHR '']'' \<in> set s then None
        else Some (take i s, port))"

definition RedactURL :: "string \<Rightarrow> string" where
  "RedactURL url =
     (case Index url ''@'' of
        None \<Rightarrow> url
      | Some i \<Rightarrow>
          (case Index url ''://'' of
             None \<Rightarrow> url
           | Some j \<Rightarrow> if j < i then take (j + 3) url @ ''***'' @ drop i url else url))"

section \<open>Load\<close>

definition defaults :: "environment \<Rightarrow> Config" where
  "defaults env =
     \<lparr>HTTPAddr = envOr env ''CLIP_HTTP_ADDR'' ''127.0.0.1:8080'',
      PublicOrigin = TrimSpace (env ''CLIP_PUBLIC_ORIGIN''), DatabaseURL = [],
      RegistrationMode = envOr env ''CLIP_REGISTRATION_MODE'' ''invite'',
      ExternalAuthURL = TrimSpace (env ''CLIP_EXTERNAL_AUTH_URL''),
      ExternalRegisterURL = TrimSpace (env ''CLIP_EXTERNAL_REGISTER_URL''),
      EmailBackend = TrimSpace (env ''CLIP_EMAIL_BACKEND''), SMTPHost = TrimSpace (env ''CLIP_SMTP_HOST''),
      SMTPPort = 0, SMTPUsername = TrimSpace (env ''CLIP_SMTP_USERNAME''),
      SMTPPassword = env ''CLIP_SMTP_PASSWORD'', SMTPFrom = TrimSpace (env ''CLIP_SMTP_FROM''),
      SMTPSecure = False, MaxTextBytes = 65536, MaxRequestBytes = 131072, MaxItems = 10000,
      MaxCiphertextBytes = 104857600, TrashRetentionSeconds = 604800, EventRetentionDays = 30,
      LogLevel = envOr env ''CLIP_LOG_LEVEL'' ''info''\<rparr>"

text \<open>A check that keeps the configuration or fails.\<close>

definition require :: "bool \<Rightarrow> load_error \<Rightarrow> Config \<Rightarrow> load_error + Config" where
  "require ok e cfg = (if ok then Inr cfg else Inl e)"

definition load_external :: "url_parser \<Rightarrow> Config \<Rightarrow> load_error + Config" where
  "load_external parse_url cfg =
     (if RegistrationMode cfg \<noteq> ''external'' then Inr cfg
      else if ExternalAuthURL cfg = [] then Inl NoExternalURL
      else if \<not> parseHTTPURL parse_url (ExternalAuthURL cfg) then Inl BadExternalURL
      else if ExternalRegisterURL cfg \<noteq> [] \<and> \<not> parseHTTPURL parse_url (ExternalRegisterURL cfg)
      then Inl BadExternalRegisterURL
      else Inr cfg)"

definition load_email :: "Config \<Rightarrow> load_error + Config" where
  "load_email cfg =
     bind_res
       (if EmailBackend cfg = [] then
          (if SMTPHost cfg \<noteq> [] then Inr (cfg\<lparr>EmailBackend := ''smtp''\<rparr>)
           else if RegistrationMode cfg = ''email'' then Inl NoEmailBackend
           else Inr cfg)
        else Inr cfg)
     (\<lambda>cfg.
     if EmailBackend cfg \<notin> {[], ''smtp'', ''log''} then Inl BadEmailBackend
     else if EmailBackend cfg = ''smtp'' then
       (if SMTPHost cfg = [] then Inl NoSMTPHost
        else
          let cfg = (if SMTPFrom cfg = [] then cfg\<lparr>SMTPFrom := SMTPUsername cfg\<rparr> else cfg) in
          require (SMTPFrom cfg \<noteq> []) NoSMTPFrom cfg)
     else Inr cfg)"

text \<open>A number from the environment: unset keeps the configuration.\<close>

definition load_number ::
  "string \<Rightarrow> (int \<Rightarrow> bool) \<Rightarrow> load_error \<Rightarrow> (int \<Rightarrow> Config) \<Rightarrow> Config \<Rightarrow> load_error + Config" where
  "load_number v ok e upd cfg =
     (if v = [] then Inr cfg
      else case Atoi v of None \<Rightarrow> Inl e | Some n \<Rightarrow> if ok n then Inr (upd n) else Inl e)"

definition load_smtp_port :: "environment \<Rightarrow> Config \<Rightarrow> load_error + Config" where
  "load_smtp_port env cfg =
     (let v = TrimSpace (env ''CLIP_SMTP_PORT'') in
      if v \<noteq> [] then load_number v (\<lambda>n. 1 \<le> n \<and> n \<le> 65535) BadSMTPPort (\<lambda>n. cfg\<lparr>SMTPPort := n\<rparr>) cfg
      else if EmailBackend cfg = ''smtp'' then Inr (cfg\<lparr>SMTPPort := 465\<rparr>)
      else Inr cfg)"

definition load_smtp_secure :: "environment \<Rightarrow> Config \<Rightarrow> Config" where
  "load_smtp_secure env cfg =
     (let v = TrimSpace (env ''CLIP_SMTP_SECURE'') in
      if v \<noteq> [] then cfg\<lparr>SMTPSecure := (v = ''1'' \<or> EqualFold_ascii v ''true'')\<rparr>
      else cfg\<lparr>SMTPSecure := (SMTPPort cfg = 465)\<rparr>)"

definition load_limits :: "environment \<Rightarrow> Config \<Rightarrow> load_error + Config" where
  "load_limits env cfg =
     bind_res (load_number (env ''CLIP_MAX_TEXT_BYTES'') (\<lambda>n. 1 \<le> n \<and> n \<le> 65536) BadMaxTextBytes
                 (\<lambda>n. cfg\<lparr>MaxTextBytes := n\<rparr>) cfg)
     (\<lambda>cfg.
     bind_res (load_number (env ''CLIP_MAX_ITEMS'') (\<lambda>n. 1 \<le> n) BadMaxItems (\<lambda>n. cfg\<lparr>MaxItems := n\<rparr>) cfg)
     (\<lambda>cfg.
     bind_res (load_number (env ''CLIP_MAX_CIPHERTEXT_BYTES'') (\<lambda>n. 1 \<le> n) BadMaxCiphertextBytes
                 (\<lambda>n. cfg\<lparr>MaxCiphertextBytes := n\<rparr>) cfg)
     (\<lambda>cfg.
     bind_res (load_number (env ''CLIP_EVENT_RETENTION_DAYS'') (\<lambda>n. 1 \<le> n) BadEventRetention
                 (\<lambda>n. cfg\<lparr>EventRetentionDays := n\<rparr>) cfg)
     (\<lambda>cfg.
     require (env ''CLIP_TRASH_RETENTION_SECONDS'' = [] \<or> env ''CLIP_TRASH_RETENTION_SECONDS'' = ''604800'')
       FixedTrashRetention cfg))))"

definition Load :: "environment \<Rightarrow> file_reader \<Rightarrow> url_parser \<Rightarrow> load_error + Config" where
  "Load env read_file parse_url =
     bind_res (require (SplitHostPort (HTTPAddr (defaults env)) \<noteq> None) BadHTTPAddr (defaults env))
     (\<lambda>cfg.
     bind_res (databaseURL env read_file)
     (\<lambda>url.
     let cfg = cfg\<lparr>DatabaseURL := url\<rparr> in
     bind_res (require (RegistrationMode cfg \<in> {''invite'', ''disabled'', ''open'', ''email'', ''external''})
                 BadRegistrationMode cfg)
     (\<lambda>cfg.
     bind_res (load_external parse_url cfg)
     (\<lambda>cfg.
     bind_res (load_email cfg)
     (\<lambda>cfg.
     bind_res (load_smtp_port env cfg)
     (\<lambda>cfg.
     load_limits env (load_smtp_secure env cfg)))))))"

section \<open>What a loaded configuration promises\<close>

text \<open>The steps, for an argument that satisfies their checks so far.\<close>

lemma require_Inr [res]: "require ok e cfg = Inr cfg' \<longleftrightarrow> ok \<and> cfg' = cfg"
  by (auto simp: require_def)

lemma load_number_Inr [res]:
  "load_number v ok e upd cfg = Inr cfg' \<longleftrightarrow> v = [] \<and> cfg' = cfg \<or> v \<noteq> [] \<and> (\<exists>n. Atoi v = Some n \<and> ok n \<and> cfg' = upd n)"
  by (auto simp: load_number_def split: option.split)

lemma databaseURL_Inr: "databaseURL env read_file = Inr url \<Longrightarrow> url \<noteq> []"
  by (auto simp: databaseURL_def Let_def split: if_splits option.splits)

lemma load_external_Inr:
  "load_external parse_url cfg = Inr cfg' \<Longrightarrow>
     cfg' = cfg \<and> (RegistrationMode cfg = ''external'' \<longrightarrow> parseHTTPURL parse_url (ExternalAuthURL cfg))"
  by (auto simp: load_external_def split: if_splits)

definition email_ok :: "Config \<Rightarrow> bool" where
  "email_ok cfg \<longleftrightarrow> EmailBackend cfg \<in> {[], ''smtp'', ''log''}
     \<and> (RegistrationMode cfg = ''email'' \<longrightarrow> EmailBackend cfg \<noteq> [])
     \<and> (EmailBackend cfg = ''smtp'' \<longrightarrow> SMTPHost cfg \<noteq> [] \<and> SMTPFrom cfg \<noteq> [])"

text \<open>What the email settings leave alone.\<close>

definition same_rest :: "Config \<Rightarrow> Config \<Rightarrow> bool" where
  "same_rest a b \<longleftrightarrow> b = a\<lparr>EmailBackend := EmailBackend b, SMTPFrom := SMTPFrom b, SMTPPort := SMTPPort b,
     SMTPSecure := SMTPSecure b\<rparr>"

lemma load_email_Inr: "load_email cfg = Inr cfg' \<Longrightarrow> email_ok cfg' \<and> same_rest cfg cfg' \<and> SMTPPort cfg' = SMTPPort cfg"
  by (auto simp: load_email_def email_ok_def same_rest_def Let_def require_def split: if_splits intro!: Config.equality)

lemma load_smtp_port_Inr:
  "load_smtp_port env cfg = Inr cfg' \<Longrightarrow> \<exists>n. cfg' = cfg\<lparr>SMTPPort := n\<rparr>
     \<and> (EmailBackend cfg = ''smtp'' \<longrightarrow> 1 \<le> n \<and> n \<le> 65535)"
  by (cases cfg) (auto simp: load_smtp_port_def Let_def res split: if_splits)

lemma load_smtp_secure_eq: "\<exists>b. load_smtp_secure env cfg = cfg\<lparr>SMTPSecure := b\<rparr>"
  by (auto simp: load_smtp_secure_def Let_def)

definition limits_ok :: "Config \<Rightarrow> bool" where
  "limits_ok cfg \<longleftrightarrow> 1 \<le> MaxTextBytes cfg \<and> MaxTextBytes cfg \<le> 65536 \<and> 1 \<le> MaxItems cfg
     \<and> 1 \<le> MaxCiphertextBytes cfg \<and> in_int8 (MaxCiphertextBytes cfg) \<and> 1 \<le> EventRetentionDays cfg"

lemma Atoi_int8: "Atoi v = Some n \<Longrightarrow> in_int8 n"
  by (auto simp: ParseInt_def Let_def split: if_splits)

lemma load_number_updates:
  assumes "load_number v ok e upd cfg = Inr cfg'" and "upd n0 = cfg" "ok n0" "in_int8 n0"
  shows "\<exists>n. cfg' = upd n \<and> ok n \<and> in_int8 n"
  using assms Atoi_int8 unfolding load_number_Inr by blast

lemma load_limits_Inr:
  assumes "load_limits env cfg = Inr cfg'" and ok: "limits_ok cfg" and "in_int8 (MaxItems cfg)" "in_int8 (EventRetentionDays cfg)"
  obtains a b c d where "limits_ok cfg'"
    and "cfg' = cfg\<lparr>MaxTextBytes := a, MaxItems := b, MaxCiphertextBytes := c, EventRetentionDays := d\<rparr>"
proof -
  from assms(1) obtain c1 c2 c3 c4 where
    1: "load_number (env ''CLIP_MAX_TEXT_BYTES'') (\<lambda>n. 1 \<le> n \<and> n \<le> 65536) BadMaxTextBytes (\<lambda>n. cfg\<lparr>MaxTextBytes := n\<rparr>) cfg = Inr c1"
    and 2: "load_number (env ''CLIP_MAX_ITEMS'') (\<lambda>n. 1 \<le> n) BadMaxItems (\<lambda>n. c1\<lparr>MaxItems := n\<rparr>) c1 = Inr c2"
    and 3: "load_number (env ''CLIP_MAX_CIPHERTEXT_BYTES'') (\<lambda>n. 1 \<le> n) BadMaxCiphertextBytes (\<lambda>n. c2\<lparr>MaxCiphertextBytes := n\<rparr>) c2 = Inr c3"
    and 4: "load_number (env ''CLIP_EVENT_RETENTION_DAYS'') (\<lambda>n. 1 \<le> n) BadEventRetention (\<lambda>n. c3\<lparr>EventRetentionDays := n\<rparr>) c3 = Inr c4"
    and last: "cfg' = c4"
    unfolding load_limits_def bind_res_Inr_iff require_Inr by (elim exE conjE) (rule that)
  have "in_int8 (MaxTextBytes cfg)" using ok by (simp add: limits_ok_def in_int8_def)
  then obtain a where a: "c1 = cfg\<lparr>MaxTextBytes := a\<rparr>" "1 \<le> a \<and> a \<le> 65536"
    using load_number_updates [OF 1, of "MaxTextBytes cfg"] ok by (auto simp: limits_ok_def)
  obtain b where b: "c2 = c1\<lparr>MaxItems := b\<rparr>" "1 \<le> b"
    using load_number_updates [OF 2, of "MaxItems c1"] ok assms(3) by (auto simp: limits_ok_def a(1))
  obtain c where c: "c3 = c2\<lparr>MaxCiphertextBytes := c\<rparr>" "1 \<le> c" "in_int8 c"
    using load_number_updates [OF 3, of "MaxCiphertextBytes c2"] ok by (auto simp: limits_ok_def a(1) b(1))
  obtain d where d: "c4 = c3\<lparr>EventRetentionDays := d\<rparr>" "1 \<le> d"
    using load_number_updates [OF 4, of "EventRetentionDays c3"] ok assms(4) by (auto simp: limits_ok_def a(1) b(1) c(1))
  show thesis using a b c d last by (intro that [of d c b a]) (simp_all add: limits_ok_def)
qed

lemma Load_sound:
  assumes "Load env read_file parse_url = Inr cfg"
  shows "SplitHostPort (HTTPAddr cfg) \<noteq> None \<and> DatabaseURL cfg \<noteq> []
    \<and> RegistrationMode cfg \<in> {''invite'', ''disabled'', ''open'', ''email'', ''external''}
    \<and> (RegistrationMode cfg = ''external'' \<longrightarrow> parseHTTPURL parse_url (ExternalAuthURL cfg))
    \<and> email_ok cfg \<and> (EmailBackend cfg = ''smtp'' \<longrightarrow> 1 \<le> SMTPPort cfg \<and> SMTPPort cfg \<le> 65535)
    \<and> limits_ok cfg \<and> MaxRequestBytes cfg = 131072 \<and> TrashRetentionSeconds cfg = 604800"
proof -
  from assms obtain url cfg1 cfg2 cfg3 where
    addr: "SplitHostPort (HTTPAddr (defaults env)) \<noteq> None" and url: "databaseURL env read_file = Inr url"
    and mode: "RegistrationMode (defaults env) \<in> {''invite'', ''disabled'', ''open'', ''email'', ''external''}"
    and ext: "load_external parse_url (defaults env\<lparr>DatabaseURL := url\<rparr>) = Inr cfg1"
    and email: "load_email cfg1 = Inr cfg2" and port: "load_smtp_port env cfg2 = Inr cfg3"
    and lim: "load_limits env (load_smtp_secure env cfg3) = Inr cfg"
    by (auto simp: Load_def Let_def res)
  from load_external_Inr [OF ext] have c1: "cfg1 = defaults env\<lparr>DatabaseURL := url\<rparr>"
    and ext': "RegistrationMode cfg1 = ''external'' \<longrightarrow> parseHTTPURL parse_url (ExternalAuthURL cfg1)" by auto
  from load_email_Inr [OF email] obtain x y z w where e: "email_ok cfg2"
    and c2: "cfg2 = cfg1\<lparr>EmailBackend := x, SMTPFrom := y, SMTPPort := z, SMTPSecure := w\<rparr>"
    unfolding same_rest_def by blast
  from load_smtp_port_Inr [OF port] obtain n where c3: "cfg3 = cfg2\<lparr>SMTPPort := n\<rparr>"
    and n: "EmailBackend cfg2 = ''smtp'' \<longrightarrow> 1 \<le> n \<and> n \<le> 65535" by auto
  from load_smtp_secure_eq [of env cfg3] obtain b where c4: "load_smtp_secure env cfg3 = cfg3\<lparr>SMTPSecure := b\<rparr>" by auto
  have "limits_ok (cfg3\<lparr>SMTPSecure := b\<rparr>)" "in_int8 (MaxItems (cfg3\<lparr>SMTPSecure := b\<rparr>))"
    "in_int8 (EventRetentionDays (cfg3\<lparr>SMTPSecure := b\<rparr>))"
    by (simp_all add: c3 c2 c1 limits_ok_def defaults_def in_int8_def)
  from load_limits_Inr [OF lim [unfolded c4] this] obtain p q r s where l: "limits_ok cfg"
    and c: "cfg = cfg3\<lparr>SMTPSecure := b, MaxTextBytes := p, MaxItems := q, MaxCiphertextBytes := r, EventRetentionDays := s\<rparr>" .
  show ?thesis
  proof (intro conjI)
    show "limits_ok cfg" by (rule l)
    show "email_ok cfg" using e by (simp add: c c3 email_ok_def)
    show "DatabaseURL cfg \<noteq> []" using databaseURL_Inr [OF url] by (simp add: c c3 c2 c1)
    show "RegistrationMode cfg = ''external'' \<longrightarrow> parseHTTPURL parse_url (ExternalAuthURL cfg)"
      using ext' by (simp add: c c3 c2)
    show "EmailBackend cfg = ''smtp'' \<longrightarrow> 1 \<le> SMTPPort cfg \<and> SMTPPort cfg \<le> 65535"
      using n by (simp add: c c3)
  qed (use addr mode in \<open>simp_all add: c c3 c2 c1 defaults_def\<close>)
qed


text \<open>
  C35: A configuration that loads is one the server can run with: the address has a port, there is
  a database, the registration mode is one of the five, an external mode has a service with an
  HTTP address, an email mode has a mail backend and a mail backend that sends has a host, a
  sender and a port, the limits are positive and within the protocol, and the request size and
  the retention of the trash are the protocol's.
\<close>

theorem Load_valid:
  assumes "Load env read_file parse_url = Inr cfg"
  shows "SplitHostPort (HTTPAddr cfg) \<noteq> None \<and> DatabaseURL cfg \<noteq> []
    \<and> RegistrationMode cfg \<in> {''invite'', ''disabled'', ''open'', ''email'', ''external''}
    \<and> (RegistrationMode cfg = ''external'' \<longrightarrow> parseHTTPURL parse_url (ExternalAuthURL cfg))
    \<and> email_ok cfg \<and> (EmailBackend cfg = ''smtp'' \<longrightarrow> 1 \<le> SMTPPort cfg \<and> SMTPPort cfg \<le> 65535)
    \<and> limits_ok cfg \<and> MaxRequestBytes cfg = 131072 \<and> TrashRetentionSeconds cfg = 604800"
  by (rule Load_sound [OF assms])
definition env_min :: environment where
  "env_min = (\<lambda>_. [])(''CLIP_DATABASE_URL'' := ''d'', ''CLIP_MAX_ITEMS'' := ''5'')"

lemma strip_all_Nil [simp]: "strip_all ps [] = []"
proof -
  have "List.find (\<lambda>p. p \<noteq> [] \<and> HasPrefix [] p) ps = None"
    by (auto simp: find_None_iff HasPrefix_iff)
  then show ?thesis by (subst strip_all.simps) simp
qed

lemma sample_empty [simp]: "TrimSpace [] = []"
  by (simp add: TrimSpace_def)

lemma sample_number [simp]: "Atoi ''5'' = Some 5"
  by code_simp

lemma strip_all_id:
  assumes "\<forall>p\<in>set ps. p \<noteq> [] \<longrightarrow> hd p \<noteq> c"
  shows "strip_all ps (c # s) = c # s"
proof -
  have "List.find (\<lambda>p. p \<noteq> [] \<and> HasPrefix (c # s) p) ps = None"
    using assms by (auto simp: find_None_iff HasPrefix_iff Cons_eq_append_conv)
  then show ?thesis by (subst strip_all.simps) simp
qed

lemma chr_iff: "k < 256 \<Longrightarrow> chr k = CHR ''d'' \<longleftrightarrow> k = 100"
proof -
  have "ord (CHR ''d'') = 100" by (simp add: ord_def)
  then show "k < 256 \<Longrightarrow> chr k = CHR ''d'' \<longleftrightarrow> k = 100" by (metis ord_chr chr_ord)
qed

lemma sample_trim [simp]: "TrimSpace ''d'' = ''d''"
proof -
  have "\<forall>p\<in>set space_encodings. hd p \<noteq> CHR ''d'' \<and> last p \<noteq> CHR ''d'' \<and> p \<noteq> []"
    by (auto simp: space_encodings_def chr_iff)
  then show ?thesis
    unfolding TrimSpace_def by (simp add: strip_all_id hd_rev)
qed

lemma sample_addr: "SplitHostPort ''127.0.0.1:8080'' = Some (''127.0.0.1'', ''8080'')"
  by code_simp

lemma sample_load: "\<exists>cfg. Load env_min (\<lambda>_. None) (\<lambda>_. None) = Inr cfg \<and> MaxItems cfg = 5"
  by (simp add: Load_def defaults_def envOr_def env_min_def databaseURL_def require_def sample_addr load_external_def
      load_email_def load_smtp_port_def load_smtp_secure_def load_limits_def load_number_def Let_def)

theorem Load_valid_witness:
  "\<exists>cfg. Load env_min (\<lambda>_. None) (\<lambda>_. None) = Inr cfg \<and> MaxItems cfg = 5 \<and> limits_ok cfg"
  using sample_load Load_valid [of env_min "\<lambda>_. None" "\<lambda>_. None"] by auto

section \<open>Redaction\<close>

lemma Index_skip: "c \<notin> set a \<Longrightarrow> Index (a @ s) [c] = map_option ((+) (length a)) (Index s [c])"
  by (induction a; cases "Index s [c]") (auto simp: HasPrefix_def)

lemma Index_scheme: "CHR '':'' \<notin> set a \<Longrightarrow> Index (a @ ''://'' @ s) ''://'' = Some (length a)"
  by (induction a) (auto simp: HasPrefix_def)

text \<open>
  What is hidden ends at the first at-sign.  So the part of a password after an at-sign of its own
  stays readable.
\<close>

lemma RedactURL_eq:
  assumes "CHR '':'' \<notin> set scheme" "CHR ''@'' \<notin> set (scheme @ secret)"
  shows "RedactURL (scheme @ ''://'' @ secret @ ''@'' @ rest) = scheme @ ''://***@'' @ rest"
proof -
  let ?url = "scheme @ ''://'' @ secret @ ''@'' @ rest"
  have "Index ((scheme @ ''://'' @ secret) @ ''@'' @ rest) ''@'' = Some (length (scheme @ ''://'' @ secret))"
    using assms(2) by (subst Index_skip) (auto simp: HasPrefix_def)
  then have at: "Index ?url ''@'' = Some (length scheme + 3 + length secret)" by simp
  have "Index ?url ''://'' = Some (length scheme)" by (rule Index_scheme [OF assms(1)])
  with at show ?thesis by (simp add: RedactURL_def numeral_eq_Suc)
qed

end
