(* ===== verification/Mailer.thy ===== *)
theory Mailer
  imports Config
begin

text \<open>
  Package \<open>mailer\<close> (server/internal/mailer/mailer.go): the backends that deliver verification
  codes.  The steps of an SMTP session are values; \<open>ok\<close> tells which of them the network and the
  peer let succeed.  \<open>net/smtp\<close> refuses, before it sends anything, an address that holds a line
  break.  The log backend keeps what it was given.
\<close>

record LogSender =
  LastEmail :: string
  LastCode :: string
  Codes :: "(string, string) fmap"

datatype Sender = LogBackend | SMTPSender Config

record PlainAuth =
  auth_Username :: string
  auth_Password :: string
  auth_Host :: string

datatype smtp_step =
    TlsDial string string
  | Greet string
  | Auth PlainAuth
  | MailFrom string
  | RcptTo string
  | StartData
  | WriteData string
  | CloseData
  | Quit
  | SendMail string "PlainAuth option" string string string

section \<open>The log backend\<close>

definition log_SendCode :: "string \<Rightarrow> string \<Rightarrow> LogSender \<Rightarrow> LogSender" where
  "log_SendCode email code s = s\<lparr>Codes := fmupd email code (Codes s), LastEmail := email, LastCode := code\<rparr>"

definition log_Code :: "string \<Rightarrow> LogSender \<Rightarrow> string" where
  "log_Code email s = (case fmlookup (Codes s) email of None \<Rightarrow> [] | Some c \<Rightarrow> c)"

section \<open>SMTP\<close>

definition FromConfig :: "Config \<Rightarrow> Sender option" where
  "FromConfig cfg =
     (if EmailBackend cfg = ''log'' then Some LogBackend
      else if EmailBackend cfg = ''smtp'' then Some (SMTPSender cfg)
      else None)"

definition CRLF :: string where "CRLF = [chr 13, chr 10]"

text \<open>\<open>validateLine\<close> of \<open>net/smtp\<close>, and \<open>net.JoinHostPort\<close>.\<close>

definition one_line :: "string \<Rightarrow> bool" where
  "one_line s \<longleftrightarrow> chr 13 \<notin> set s \<and> chr 10 \<notin> set s"

definition JoinHostPort :: "string \<Rightarrow> string \<Rightarrow> string" where
  "JoinHostPort host port = (if CHR '':'' \<in> set host then ''['' @ host @ '']:'' @ port else host @ '':'' @ port)"

fun accepted :: "(smtp_step \<Rightarrow> bool) \<Rightarrow> smtp_step \<Rightarrow> bool" where
  "accepted ok (MailFrom a) \<longleftrightarrow> one_line a \<and> ok (MailFrom a)"
| "accepted ok (RcptTo a) \<longleftrightarrow> one_line a \<and> ok (RcptTo a)"
| "accepted ok (SendMail addr au from to msg) \<longleftrightarrow> one_line from \<and> one_line to \<and> ok (SendMail addr au from to msg)"
| "accepted ok st \<longleftrightarrow> ok st"

text \<open>Steps run until the first that fails; the result is what succeeded, and whether all did.\<close>

fun run_steps :: "(smtp_step \<Rightarrow> bool) \<Rightarrow> smtp_step list \<Rightarrow> smtp_step list \<times> bool" where
  "run_steps ok [] = ([], True)"
| "run_steps ok (st # rest) =
     (if accepted ok st then (case run_steps ok rest of (t, b) \<Rightarrow> (st # t, b)) else ([], False))"

definition header_lines :: "string \<Rightarrow> string \<Rightarrow> string \<Rightarrow> string list" where
  "header_lines from to subject =
     [''From: '' @ from, ''To: '' @ to, ''Subject: '' @ subject, ''MIME-Version: 1.0'',
      ''Content-Type: text/plain; charset=UTF-8'']"

fun Join_lines :: "string list \<Rightarrow> string" where
  "Join_lines [] = []"
| "Join_lines [x] = x"
| "Join_lines (x # xs) = x @ CRLF @ Join_lines xs"

definition message :: "string \<Rightarrow> string \<Rightarrow> string \<Rightarrow> string \<Rightarrow> string" where
  "message from to subject body = Join_lines (header_lines from to subject @ [[], body])"

definition sendMail :: "Config \<Rightarrow> string \<Rightarrow> string \<Rightarrow> string \<Rightarrow> smtp_step list" where
  "sendMail cfg to subject body =
     (let from = SMTPFrom cfg; msg = message from to subject body;
          addr = JoinHostPort (SMTPHost cfg) (FormatInt (SMTPPort cfg));
          au = (if SMTPUsername cfg \<noteq> [] then
                  Some \<lparr>auth_Username = SMTPUsername cfg, auth_Password = SMTPPassword cfg,
                        auth_Host = SMTPHost cfg\<rparr>
                else None)
      in if SMTPSecure cfg \<or> SMTPPort cfg = 465 then
           [TlsDial addr (SMTPHost cfg), Greet (SMTPHost cfg)]
           @ (case au of None \<Rightarrow> [] | Some a \<Rightarrow> [Auth a])
           @ [MailFrom from, RcptTo to, StartData, WriteData msg, CloseData, Quit]
         else [SendMail addr au from to msg])"

text \<open>The Chinese texts, as the bytes of their UTF-8 encoding.\<close>

definition subject_text :: string where
  "subject_text = map chr
     [228, 186, 145, 229, 137, 170, 232, 180, 180, 230, 157, 191, 230, 179, 168, 229, 134,
      140, 233, 170, 140, 232, 175, 129, 231, 160, 129]"

definition body_text :: "string \<Rightarrow> string" where
  "body_text code = map chr
     [230, 130, 168, 231, 154, 132, 230, 179, 168, 229, 134, 140, 233, 170, 140, 232, 175,
      129, 231, 160, 129, 230, 152, 175, 32] @ code @ map chr
     [239, 188, 140, 49, 53, 32, 229, 136, 134, 233, 146, 159, 229, 134, 133, 230, 156, 137,
      230, 149, 136, 227, 128, 130, 229, 166, 130, 230, 158, 156, 228, 184, 141, 230, 152,
      175, 230, 130, 168, 230, 156, 172, 228, 186, 186, 230, 147, 141, 228, 189, 156, 239,
      188, 140, 232, 175, 183, 229, 191, 189, 231, 149, 165, 232, 191, 153, 229, 176, 129,
      233, 130, 174, 228, 187, 182, 227, 128, 130, 10]"

definition SendCode :: "(smtp_step \<Rightarrow> bool) \<Rightarrow> Config \<Rightarrow> string \<Rightarrow> string \<Rightarrow> smtp_step list \<times> bool" where
  "SendCode ok cfg email code = run_steps ok (sendMail cfg email subject_text (body_text code))"

text \<open>The mailer the store gets: whether a code could be delivered.\<close>

definition mailer_of :: "(smtp_step \<Rightarrow> bool) \<Rightarrow> Config \<Rightarrow> (string \<Rightarrow> string \<Rightarrow> bool) option" where
  "mailer_of ok cfg =
     (case FromConfig cfg of
        None \<Rightarrow> None
      | Some LogBackend \<Rightarrow> Some (\<lambda>_ _. True)
      | Some (SMTPSender c) \<Rightarrow> Some (\<lambda>email code. snd (SendCode ok c email code)))"

section \<open>One message, to one address\<close>

text \<open>The message a step hands over.\<close>

fun delivers :: "smtp_step \<Rightarrow> string option" where
  "delivers (WriteData msg) = Some msg"
| "delivers (SendMail addr au from to msg) = Some msg"
| "delivers st = None"

lemma run_steps_prefix:
  assumes "run_steps ok sts = (t, b)"
  shows "\<exists>rest. sts = t @ rest \<and> (\<forall>st\<in>set t. accepted ok st) \<and> (b \<longleftrightarrow> rest = [])"
  using assms by (induction sts arbitrary: t b) (auto split: if_splits prod.splits)

definition deliveries :: "smtp_step list \<Rightarrow> string list" where
  "deliveries t = List.map_filter delivers t"

lemma deliveries_simps [simp]:
  "deliveries [] = []"
  "deliveries (st # t) = (case delivers st of None \<Rightarrow> deliveries t | Some m \<Rightarrow> m # deliveries t)"
  by (simp_all add: deliveries_def List.map_filter_simps split: option.split)

text \<open>The two shapes of a session, with what must have been accepted before the message.\<close>

lemma run_sendMail:
  assumes "run_steps ok (sendMail cfg to subject body) = (t, b)"
  shows "(b \<longrightarrow> deliveries t \<noteq> [])
    \<and> (deliveries t = [] \<or> deliveries t = [message (SMTPFrom cfg) to subject body] \<and> one_line (SMTPFrom cfg) \<and> one_line to)"
proof (cases "SMTPSecure cfg \<or> SMTPPort cfg = 465")
  case True
  with assms show ?thesis
    by (auto simp: sendMail_def Let_def split: if_splits prod.splits)
next
  case False
  with assms show ?thesis by (auto simp: sendMail_def Let_def split: if_splits)
qed

lemma one_line_append [simp]: "one_line (a @ b) \<longleftrightarrow> one_line a \<and> one_line b"
  by (auto simp: one_line_def)

lemma one_line_Cons [simp]: "one_line (c # a) \<longleftrightarrow> c \<noteq> chr 13 \<and> c \<noteq> chr 10 \<and> one_line a"
  by (auto simp: one_line_def)

lemma one_line_Nil [simp]: "one_line []"
  by (simp add: one_line_def)

lemma chr_inj: "m < 256 \<Longrightarrow> n < 256 \<Longrightarrow> chr m = chr n \<longleftrightarrow> m = n"
  by (metis ord_chr)

lemma one_line_subject: "one_line subject_text"
  by (simp add: subject_text_def chr_inj)

lemma chr_literal: "n < 256 \<Longrightarrow> c = chr n \<longleftrightarrow> ord c = n"
  by (metis ord_chr chr_ord)

lemma header_lines_one_line:
  "one_line a \<Longrightarrow> one_line to \<Longrightarrow> one_line subject \<Longrightarrow> list_all one_line (header_lines a to subject)"
  by (simp add: header_lines_def chr_literal) (simp add: ord_def)

text \<open>
  C36: A code is sent as one message with the header the program wrote, or not at all.  Whatever the
  network does, at most one message is handed over; it is the five header lines, an empty line
  and the text, none of the lines broken by the address or the sender; and success means it was
  handed over.
\<close>

theorem one_message:
  assumes "SendCode ok cfg email code = (t, b)"
  shows "(b \<longrightarrow> deliveries t \<noteq> [])
    \<and> (deliveries t = [] \<or>
       list_all one_line (header_lines (SMTPFrom cfg) email subject_text)
       \<and> deliveries t = [concat (map (\<lambda>l. l @ CRLF) (header_lines (SMTPFrom cfg) email subject_text))
                           @ CRLF @ body_text code])"
proof -
  have "message a to subject body = concat (map (\<lambda>l. l @ CRLF) (header_lines a to subject)) @ CRLF @ body"
    for a to subject body
    by (simp add: message_def header_lines_def)
  with run_sendMail [OF assms [unfolded SendCode_def]] header_lines_one_line one_line_subject show ?thesis by auto
qed

definition mail_cfg :: Config where
  "mail_cfg =
     \<lparr>HTTPAddr = '':8080'', PublicOrigin = [], DatabaseURL = ''d'', RegistrationMode = ''email'',
      ExternalAuthURL = [], ExternalRegisterURL = [], EmailBackend = ''smtp'', SMTPHost = ''mx.example.org'',
      SMTPPort = 465, SMTPUsername = ''clip'', SMTPPassword = ''secret'', SMTPFrom = ''clip@example.org'',
      SMTPSecure = True, MaxTextBytes = 65536, MaxRequestBytes = 131072, MaxItems = 10000,
      MaxCiphertextBytes = 104857600, TrashRetentionSeconds = 604800, EventRetentionDays = 30,
      LogLevel = ''info''\<rparr>"

lemma sample_mail: "\<exists>t. SendCode (\<lambda>_. True) mail_cfg ''a@b.org'' ''123456'' = (t, True)"
  by (simp add: SendCode_def sendMail_def mail_cfg_def Let_def chr_literal) (simp add: ord_def)

theorem one_message_witness:
  "\<exists>t. SendCode (\<lambda>_. True) mail_cfg ''a@b.org'' ''123456'' = (t, True) \<and> length (deliveries t) = 1"
proof -
  from sample_mail obtain t where "SendCode (\<lambda>_. True) mail_cfg ''a@b.org'' ''123456'' = (t, True)" by blast
  with one_message [OF this] show ?thesis by auto
qed

end
