(* ===== verification/Clipd.thy ===== *)
theory Clipd
  imports Extauth Migrate Settings Mailer
begin

text \<open>
  The command \<open>clipd\<close> (server/cmd/clipd/main.go): the flags, the subcommands and how a process
  builds its store.  What the process finds around it is the record \<open>Process\<close>; the database it
  opens is the argument \<open>Schema\<close> of theory Migrate.  What the server answers once it listens is
  theory Router; here are the state it begins with and how serving ends.
\<close>

datatype serving_end = ListenFails | ServerClosed | Interrupted bool

record Process =
  p_env :: environment
  p_read_file :: file_reader
  p_parse_url :: url_parser
  p_pool_url :: "string \<Rightarrow> bool"
  p_ping :: bool
  p_exec :: executor
  p_files :: files
  p_server_id :: uuid
  p_sync_epoch :: uuid
  p_new_epoch :: uuid
  p_smtp :: "smtp_step \<Rightarrow> bool"
  p_exchange :: "string \<Rightarrow> string \<Rightarrow> exchanged"
  p_world :: World
  p_fresh :: Fresh
  p_random :: bytes
  p_clk :: clock
  p_now :: time
  p_stdin :: string
  p_health :: "int option"
  p_end :: serving_end

datatype start_error =
    LoadFailed load_error
  | BadPoolURL
  | DatabaseUnreachable
  | MigrationFailed mig_error
  | NoVersion failure
  | ListenError
  | ShutdownError
  | AdminUsage
  | UnknownAdmin
  | NeedUsername
  | NoInput
  | BadPassword
  | OperationFailed failure

section \<open>Opening the store\<close>

text \<open>\<open>store.Store\<close> with the two fields that are arguments of its operations in the model.\<close>

record Opened =
  op_Store :: Store
  op_Mailer :: "(string \<Rightarrow> string \<Rightarrow> bool) option"
  op_External :: "(string \<Rightarrow> string \<Rightarrow> failure + ExtUser) option"

definition openStore :: "Process \<Rightarrow> Config \<Rightarrow> Schema \<Rightarrow> (start_error + Opened) \<times> Schema" where
  "openStore p cfg s =
     (if \<not> p_pool_url p (DatabaseURL cfg) then (Inl BadPoolURL, s)
      else if \<not> p_ping p then (Inl DatabaseUnreachable, s)
      else case Apply (p_exec p) (p_files p) (p_server_id p) (p_sync_epoch p) s of
        (Inl e, s) \<Rightarrow> (Inl (MigrationFailed e), s)
      | (Inr _, s) \<Rightarrow>
          (Inr \<lparr>op_Store = store_New (tables s) cfg hub_New,
                op_Mailer = mailer_of (p_smtp p) cfg,
                op_External =
                  (if RegistrationMode cfg = ''external''
                   then Some (HTTPVerifier_Verify (w_tbl (p_world p)) (ExternalAuthURL cfg) (p_exchange p))
                   else None)\<rparr>, s))"

definition loaded :: "Process \<Rightarrow> start_error + Config" where
  "loaded p =
     (case Load (p_env p) (p_read_file p) (p_parse_url p) of Inl e \<Rightarrow> Inl (LoadFailed e) | Inr cfg \<Rightarrow> Inr cfg)"

section \<open>The server\<close>

text \<open>\<open>httpapi.New\<close>; then what \<open>runServer\<close> has when it begins to listen, and how it returns.\<close>

definition httpapi_New :: "Config \<Rightarrow> Store \<Rightarrow> bool \<Rightarrow> Handler" where
  "httpapi_New cfg st ready = \<lparr>h_cfg = cfg, h_store = st, h_ready = ready, h_loginHits = (\<lambda>_. [])\<rparr>"

definition startServer :: "Process \<Rightarrow> Schema \<Rightarrow> (start_error + Handler \<times> Opened) \<times> Schema" where
  "startServer p s =
     (case loaded p of
        Inl e \<Rightarrow> (Inl e, s)
      | Inr cfg \<Rightarrow>
          (case openStore p cfg s of
             (Inl e, s) \<Rightarrow> (Inl e, s)
           | (Inr opened, s) \<Rightarrow> (Inr (httpapi_New cfg (op_Store opened) True, opened), s)))"

definition runServer :: "Process \<Rightarrow> Schema \<Rightarrow> (start_error + unit) \<times> Schema" where
  "runServer p s =
     (case startServer p s of
        (Inl e, s) \<Rightarrow> (Inl e, s)
      | (Inr _, s) \<Rightarrow>
          (case p_end p of
             ListenFails \<Rightarrow> (Inl ListenError, s)
           | ServerClosed \<Rightarrow> (Inr (), s)
           | Interrupted ok \<Rightarrow> (if ok then Inr () else Inl ShutdownError, s)))"

section \<open>The subcommands\<close>

definition runMigrate :: "Process \<Rightarrow> Schema \<Rightarrow> (start_error + string) \<times> Schema" where
  "runMigrate p s =
     (case loaded p of
        Inl e \<Rightarrow> (Inl e, s)
      | Inr cfg \<Rightarrow>
          if \<not> p_pool_url p (DatabaseURL cfg) then (Inl BadPoolURL, s)
          else if \<not> p_ping p then (Inl DatabaseUnreachable, s)
          else case Apply (p_exec p) (p_files p) (p_server_id p) (p_sync_epoch p) s of
            (Inl e, s) \<Rightarrow> (Inl (MigrationFailed e), s)
          | (Inr _, s) \<Rightarrow>
              (case CurrentVersion s of Inl e \<Rightarrow> (Inl (NoVersion e), s) | Inr version \<Rightarrow> (Inr version, s)))"

text \<open>The last \<open>--username\<close> that is followed by an argument; and the line without its end.\<close>

fun username_arg :: "string list \<Rightarrow> string \<Rightarrow> string" where
  "username_arg (a # b # rest) u = username_arg (b # rest) (if a = ''--username'' then b else u)"
| "username_arg _ u = u"

definition ReadLine :: "string \<Rightarrow> string option" where
  "ReadLine s = (if chr 10 \<in> set s then Some (takeWhile (\<lambda>c. c \<noteq> chr 10) s @ [chr 10]) else None)"

definition trim_line_end :: "string \<Rightarrow> string" where
  "trim_line_end s = rev (dropWhile (\<lambda>c. c = chr 13 \<or> c = chr 10) (rev s))"

datatype admin_output = InviteToken string time | SyncEpoch string | NoOutput

text \<open>How a command leaves the database: the pool of its store.\<close>

definition finished :: "('a \<Rightarrow> admin_output) \<Rightarrow> (failure + 'a) \<times> Store \<Rightarrow> Schema
    \<Rightarrow> (start_error + admin_output) \<times> Schema" where
  "finished out res s =
     (case res of
        (Inl e, st) \<Rightarrow> (Inl (OperationFailed e), s\<lparr>tables := st_Pool st\<rparr>)
      | (Inr x, st) \<Rightarrow> (Inr (out x), s\<lparr>tables := st_Pool st\<rparr>))"

definition resetPassword :: "Process \<Rightarrow> string list \<Rightarrow> Store \<Rightarrow> Schema
    \<Rightarrow> (start_error + admin_output) \<times> Schema" where
  "resetPassword p args st s =
     (let username = username_arg (tl args) [] in
      if \<not> Username username then (Inl NeedUsername, s)
      else case ReadLine (p_stdin p) of
        None \<Rightarrow> (Inl NoInput, s)
      | Some line \<Rightarrow>
          let password = trim_line_end line in
          if \<not> Password password then (Inl BadPassword, s)
          else finished (\<lambda>_. NoOutput) (ResetPassword (p_world p) (p_fresh p) (p_clk p) username password st) s)"

definition runAdmin :: "Process \<Rightarrow> string list \<Rightarrow> Schema \<Rightarrow> (start_error + admin_output) \<times> Schema" where
  "runAdmin p args s =
     (if args = [] then (Inl AdminUsage, s)
      else case loaded p of
        Inl e \<Rightarrow> (Inl e, s)
      | Inr cfg \<Rightarrow>
          (case openStore p cfg s of
             (Inl e, s) \<Rightarrow> (Inl e, s)
           | (Inr opened, s) \<Rightarrow>
               let st = op_Store opened in
               if hd args = ''invite'' then
                 finished (\<lambda>(token, exp). InviteToken token exp) (CreateInvite (p_random p) (p_now p) (hours 24) st) s
               else if hd args = ''reset-password'' then resetPassword p args st s
               else if hd args = ''rotate-sync-epoch'' then
                 finished SyncEpoch (RotateSyncEpoch (p_clk p) (p_new_epoch p) st) s
               else (Inl UnknownAdmin, s)))"

section \<open>The command line\<close>

text \<open>\<open>flag.Parse\<close> with the one boolean flag \<open>healthcheck\<close>: its value and the arguments left, or the exit.\<close>

datatype parsed = Flags bool "string list" | FlagExit nat

definition ParseBool :: "string \<Rightarrow> bool option" where
  "ParseBool s =
     (if s \<in> {''1'', ''t'', ''T'', ''TRUE'', ''true'', ''True''} then Some True
      else if s \<in> {''0'', ''f'', ''F'', ''FALSE'', ''false'', ''False''} then Some False
      else None)"

datatype flag_kind = Positional | Terminator | BadFlag nat | SetFlag bool

definition flag_arg :: "string \<Rightarrow> flag_kind" where
  "flag_arg s =
     (if length s < 2 \<or> hd s \<noteq> CHR ''-'' then Positional
      else if s = ''--'' then Terminator
      else
        let body = drop (if HasPrefix s ''--'' then 2 else 1) s;
            name = takeWhile (\<lambda>c. c \<noteq> CHR ''='') body
        in if hd body = CHR ''-'' \<or> hd body = CHR ''='' then BadFlag 2
           else if name \<noteq> ''healthcheck'' then BadFlag (if name = ''help'' \<or> name = ''h'' then 0 else 2)
           else if name = body then SetFlag True
           else case ParseBool (drop (length name + 1) body) of None \<Rightarrow> BadFlag 2 | Some b \<Rightarrow> SetFlag b)"

fun parse_flags :: "string list \<Rightarrow> bool \<Rightarrow> parsed" where
  "parse_flags [] healthcheck = Flags healthcheck []"
| "parse_flags (s # args) healthcheck =
     (case flag_arg s of
        Positional \<Rightarrow> Flags healthcheck (s # args)
      | Terminator \<Rightarrow> Flags healthcheck args
      | BadFlag code \<Rightarrow> FlagExit code
      | SetFlag b \<Rightarrow> parse_flags args b)"

text \<open>The exit status of the process, and the database it leaves (for the server: begins with).\<close>

definition main :: "Process \<Rightarrow> string list \<Rightarrow> Schema \<Rightarrow> nat \<times> Schema" where
  "main p argv s =
     (case parse_flags argv False of
        FlagExit code \<Rightarrow> (code, s)
      | Flags healthcheck args \<Rightarrow>
          if healthcheck then (if p_health p = Some 200 then 0 else 1, s)
          else case args of
            [] \<Rightarrow> (case runServer p s of (Inl _, s) \<Rightarrow> (1, s) | (Inr _, s) \<Rightarrow> (0, s))
          | command # rest \<Rightarrow>
              if command = ''migrate'' then (case runMigrate p s of (Inl _, s) \<Rightarrow> (1, s) | (Inr _, s) \<Rightarrow> (0, s))
              else if command = ''admin'' then
                (case runAdmin p rest s of (Inl _, s) \<Rightarrow> (1, s) | (Inr _, s) \<Rightarrow> (0, s))
              else (2, s))"

end
