(* ===== verification/Deployment.thy ===== *)
theory Deployment
  imports Clipd
begin

text \<open>
  The program as it is deployed: a process that has loaded its configuration, migrated the
  database and serves requests, with the jobs in the background and administrative commands of
  other processes on the same database in between.  Whatever order these come in, the database
  stays consistent and every answer is within the contract.
\<close>

section \<open>Administrative commands\<close>

text \<open>The database is migrated: opening it again changes nothing.\<close>

definition up_to_date :: "Process \<Rightarrow> Schema \<Rightarrow> bool" where
  "up_to_date p s \<longleftrightarrow> Apply (p_exec p) (p_files p) (p_server_id p) (p_sync_epoch p) s = (Inr (), s)"

lemma openStore_up_to_date:
  assumes "up_to_date p s" and "openStore p cfg s = (r, s')"
  shows "s' = s" and "r = Inr op \<Longrightarrow> op_Store op = \<lparr>st_Pool = tables s, st_Cfg = cfg, st_Hub = Some hub_New\<rparr>"
  using assms by (auto simp: openStore_def up_to_date_def split: if_splits)

text \<open>
  The operations of the commands do not look at the configuration or the hub, so they do to the
  database what they would do to it in the running server.
\<close>

lemma admin_operations:
  assumes "st_Pool st' = st_Pool st"
  shows "CreateInvite raw t ttl st = (x, st1) \<Longrightarrow> \<exists>st2. CreateInvite raw t ttl st' = (x, st2) \<and> st_Pool st2 = st_Pool st1"
    and "ResetPassword w fr clk name new st = (x1, st1) \<Longrightarrow>
      \<exists>st2. ResetPassword w fr clk name new st' = (x1, st2) \<and> st_Pool st2 = st_Pool st1"
    and "RotateSyncEpoch clk fresh st = (x2, st1) \<Longrightarrow>
      \<exists>st2. RotateSyncEpoch clk fresh st' = (x2, st2) \<and> st_Pool st2 = st_Pool st1"
  using assms
  by (auto simp: CreateInvite_def ResetPassword_def RotateSyncEpoch_def run_tx_def close_user_def Let_def
      split: prod.splits sum.splits option.splits)

lemma account_reaches:
  assumes "account_step clk st st1" and "mono clk" and "t \<le> clk 0" and "st_Pool st1 = db"
  shows "reaches t st (clk readings) (st\<lparr>st_Pool := db\<rparr>)"
proof -
  have "reaches t st (clk readings) st1"
    by (rule reaches.step [OF reaches.start sys_step.account [OF assms(1-3)]])
  moreover have "st1\<lparr>st_Hub := st_Hub st\<rparr> = st\<lparr>st_Pool := db\<rparr>"
    using account_step_Cfg [OF assms(1)] assms(4) by (cases st1; cases st) simp
  ultimately show ?thesis using sys_step.sockets [of "clk readings" st1 "st_Hub st"] by (metis reaches.step)
qed

lemma admin_reaches:
  assumes "runAdmin p args s = (r, s')" and "up_to_date p s" and st: "tables s = st_Pool st"
    and clk: "mono (p_clk p)" "t \<le> p_clk p 0"
  shows "reaches t st (p_clk p readings) (st\<lparr>st_Pool := tables s'\<rparr>) \<or> tables s' = tables s"
proof -
  have step: "reaches t st (p_clk p readings) (st\<lparr>st_Pool := st_Pool st2\<rparr>)"
    if "account_step (p_clk p) st st1" "st_Pool st1 = st_Pool st2" for st1 st2
    by (rule account_reaches [OF that(1) clk that(2)])
  show ?thesis
  proof (cases "\<exists>cfg op. openStore p cfg s = (Inr op, s) \<and> op_Store op = \<lparr>st_Pool = tables s, st_Cfg = cfg, st_Hub = Some hub_New\<rparr>
      \<and> runAdmin p args s = (r, s') \<and> loaded p = Inr cfg \<and> args \<noteq> []")
    case False
    then have "s' = s"
      using assms(1,2) by (auto simp: runAdmin_def Let_def split: if_splits sum.splits prod.splits
        dest: openStore_up_to_date)
    then show ?thesis by simp
  next
    case True
    then obtain cfg op where op: "openStore p cfg s = (Inr op, s)" "loaded p = Inr cfg" "args \<noteq> []"
      and st0: "op_Store op = \<lparr>st_Pool = tables s, st_Cfg = cfg, st_Hub = Some hub_New\<rparr>" by blast
    let ?st0 = "\<lparr>st_Pool = tables s, st_Cfg = cfg, st_Hub = Some hub_New\<rparr> :: Store"
    have pool: "st_Pool st = st_Pool ?st0" using st by simp
    from assms(1) op st0 show ?thesis
      by (auto simp: runAdmin_def resetPassword_def finished_def Let_def
          split: if_splits sum.splits prod.splits option.splits
          dest!: admin_operations [OF pool] intro!: step intro: account_step.intros)
  qed
qed

section \<open>Starting\<close>

definition consistent :: "time \<Rightarrow> DB \<Rightarrow> bool" where
  "consistent t db \<longleftrightarrow> sync_inv db \<and> events_timed t db \<and> accounts_ok db"

text \<open>
  What PostgreSQL does with the migrations that are still to be executed: they define tables and
  leave the rows as they are.  Of an empty database these are all files, of an up to date one
  there are none.
\<close>

definition migrations_keep :: "Process \<Rightarrow> Schema \<Rightarrow> bool" where
  "migrations_keep p s \<longleftrightarrow> distinct (map fst (p_files p)) \<and>
     (\<forall>(n, body)\<in>set (p_files p). fmlookup (recorded s) n = None \<longrightarrow> p_exec p (string_of body) (tables s) = Inr (tables s))"

lemma execute_keeps:
  assumes "migrations_keep p s" and "execute (p_exec p) (p_files p) ns (tables s) = Inr db"
    and "\<forall>n\<in>set ns. fmlookup (recorded s) n = None"
  shows "db = tables s"
  using assms(2,3)
proof (induction ns)
  case (Cons n ns)
  then obtain body where body: "map_of (p_files p) n = Some body" by (auto split: option.splits)
  then have "p_exec p (string_of body) (tables s) = Inr (tables s)"
    using assms(1) Cons.prems(2) by (auto simp: migrations_keep_def dest!: map_of_SomeD)
  with Cons body show ?case by simp
qed simp

lemma Apply_keeps:
  assumes "Apply (p_exec p) (p_files p) sid epoch s = (Inr (), s')" and "migrations_keep p s"
  shows "tables s' = ensureServerState sid epoch (tables s)"
proof -
  from assms(2) have files: "distinct (map fst (p_files p))" by (simp add: migrations_keep_def)
  obtain ran db
    where "execute (p_exec p) (p_files p) (filter (\<lambda>n. fmlookup (recorded s) n = None) ran) (tables s) = Inr db"
      "tables s' = ensureServerState sid epoch db"
    by (rule Apply_runs [OF assms(1) files]) simp
  with execute_keeps [OF assms(2) this(1)] show ?thesis by simp
qed

lemma consistent_server_state [simp]: "consistent t (ensureServerState sid epoch db) = consistent t db"
proof -
  have "sync_inv (ensureServerState sid epoch db) = sync_inv db"
    by (rule sync_inv_cong) (auto simp: same_log_def ensureServerState_def split: option.split)
  then show ?thesis
    by (auto simp: consistent_def ensureServerState_def events_timed_def accounts_ok_def users_ok_def
        sessions_ok_def owners_ok_def split: option.split)
qed

lemma consistent_empty: "consistent t empty_db"
  by (simp add: consistent_def sync_inv_empty)
    (auto simp: empty_db_def events_timed_def accounts_ok_def users_ok_def sessions_ok_def owners_ok_def has_row_def)

lemma loaded_Inr: "loaded p = Inr cfg \<longleftrightarrow> Load (p_env p) (p_read_file p) (p_parse_url p) = Inr cfg"
  by (auto simp: loaded_def split: sum.split)

lemma startServer_Inr:
  assumes "startServer p s = (Inr (h, op), s')"
  obtains cfg where "loaded p = Inr cfg"
    and "Apply (p_exec p) (p_files p) (p_server_id p) (p_sync_epoch p) s = (Inr (), s')"
    and "h = httpapi_New cfg (op_Store op) True"
    and "op_Store op = \<lparr>st_Pool = tables s', st_Cfg = cfg, st_Hub = Some hub_New\<rparr>"
    and "op_Mailer op = mailer_of (p_smtp p) cfg"
    and "op_External op = (if RegistrationMode cfg = ''external''
      then Some (HTTPVerifier_Verify (w_tbl (p_world p)) (ExternalAuthURL cfg) (p_exchange p)) else None)"
  using assms
  by (auto simp: startServer_def openStore_def split: sum.splits prod.splits if_splits)

section \<open>Serving\<close>

text \<open>
  What may happen to a started server, with the requests it has answered so far: a request is
  served, the jobs make a round, a live connection is watched, or an administrative command of
  another process works on the same database.  Time does not run backwards.
\<close>

inductive live :: "Opened \<Rightarrow> time \<Rightarrow> Handler \<Rightarrow> (Env \<times> Request \<times> Response) list \<Rightarrow> time \<Rightarrow> Handler \<Rightarrow> bool"
  for op t0 h0 where
  started: "live op t0 h0 [] t0 h0"
| asked: "live op t0 h0 answered t h \<Longrightarrow> timed t ev \<Longrightarrow> ev_Mailer ev = op_Mailer op \<Longrightarrow>
    ev_External ev = op_External op \<Longrightarrow> serve ev r h = (rs, h') \<Longrightarrow>
    live op t0 h0 (answered @ [(ev, r, rs)]) (done_by ev) h'"
| ticked: "live op t0 h0 answered t h \<Longrightarrow> tick fuel clk1 clk2 clk3 (h_store h) = Some st \<Longrightarrow>
    mono clk1 \<Longrightarrow> mono clk2 \<Longrightarrow> mono clk3 \<Longrightarrow> t \<le> clk1 0 \<Longrightarrow> (\<And>n. clk1 n \<le> clk2 0) \<Longrightarrow> (\<And>n. clk2 n \<le> clk3 0) \<Longrightarrow>
    live op t0 h0 answered (clk3 readings) (h\<lparr>h_store := st\<rparr>)"
| watched: "live op t0 h0 answered t h \<Longrightarrow> websocket_step r i lv h = (lv', h') \<Longrightarrow>
    (\<And>ev. i = AuthTick ev \<Longrightarrow> mono (ev_AuthClk ev) \<and> t \<le> ev_AuthClk ev 0 \<and> ev_AuthClk ev readings \<le> t') \<Longrightarrow> t \<le> t' \<Longrightarrow>
    live op t0 h0 answered t' h'"
| administered: "live op t0 h0 answered t h \<Longrightarrow> up_to_date q s \<Longrightarrow> tables s = st_Pool (h_store h) \<Longrightarrow>
    runAdmin q args s = (r, s') \<Longrightarrow> mono (p_clk q) \<Longrightarrow> t \<le> p_clk q 0 \<Longrightarrow>
    live op t0 h0 answered (p_clk q readings) (h\<lparr>h_store := (h_store h)\<lparr>st_Pool := tables s'\<rparr>\<rparr>)"

lemma runs_close: "t \<le> t' \<Longrightarrow> runs t t' (h_store h) (h_store (websocket_close c reason h))"
  by (simp add: websocket_close_def runs_sockets)

lemma runs_websocket:
  assumes "websocket_step r i lv h = (lv', h')" and "t \<le> t'"
    and clk: "\<And>ev. i = AuthTick ev \<Longrightarrow> mono (ev_AuthClk ev) \<and> t \<le> ev_AuthClk ev 0 \<and> ev_AuthClk ev readings \<le> t'"
  shows "runs t t' (h_store h) (h_store h')"
proof (cases i)
  case (AuthTick ev)
  obtain x st where look: "LookupAccess (ev_AuthClk ev) (ev_GoClk ev 0)
      (TrimPrefix (Get (rq_Header r) ''Authorization'') ''Bearer '') (h_store h) = (x, st)" by fastforce
  have "runs t (ev_AuthClk ev readings) (h_store h) st"
    using clk [OF AuthTick] by (intro runs_account account_step.lookup [OF look]) auto
  moreover have "runs t1 t' st (h_store (websocket_close c reason (h\<lparr>h_store := st\<rparr>)))"
    if "t1 \<le> ev_AuthClk ev readings" for t1 c reason
    using runs_close [of t1 t' "h\<lparr>h_store := st\<rparr>" c reason] that clk [OF AuthTick] by simp
  moreover have "runs t1 t' st st" if "t1 \<le> ev_AuthClk ev readings" for t1
    using that clk [OF AuthTick] by (intro runs_refl) simp
  ultimately show ?thesis
    using assms(1,2) AuthTick look by (auto simp: websocket_check_def runs_refl split: if_splits sum.splits intro: runs_trans)
next
  case ReadFailed
  have "runs t t' (h_store h) (h_store (websocket_leave c h))" for c
    unfolding websocket_leave_def
    by (rule runs_trans [OF runs_sockets [OF assms(2), of "h_store h" "Remove c"]])
      (use runs_close [of _ t' "h\<lparr>h_store := on_hub (Remove c) (h_store h)\<rparr>"] in auto)
  with ReadFailed assms show ?thesis by (auto simp: runs_refl split: if_splits)
qed (use assms in \<open>auto simp: runs_refl runs_close split: if_splits\<close>)

lemma live_since:
  assumes "live op t0 h0 answered t h" and "synced t0 (h_store h0)"
  shows "since (h_store h0) t (h_store h)"
  using assms
proof (induction rule: live.induct)
  case started
  then show ?case by (rule synced_start)
next
  case (asked answered t h ev r rs h')
  from handler_runsD [OF handle_runs, of "route r" ev r h rs h' t] asked
  obtain t1 where "reaches t (h_store h) t1 (h_store h')" "t1 \<le> done_by ev"
    by (auto simp: serve_def runs_def)
  with asked show ?case by (blast intro: srv.run srv.later)
next
  case (ticked answered t h fuel clk1 clk2 clk3 st)
  then show ?case by (simp add: srv.ticked)
next
  case (watched answered t h r i lv lv' h' t')
  from runs_websocket [OF watched(2,4,3)] watched show ?case
    by (auto simp: runs_def intro: srv.run srv.later)
next
  case (administered answered t h q s args r s')
  have "t \<le> p_clk q readings" using administered mono_readings by blast
  with admin_reaches [OF administered(4,2,3,5,6)] administered show ?case
    by (auto intro: srv.run srv.later)
qed

text \<open>What \<open>RunJobs\<close> does on its own, with nothing in between, are such rounds.\<close>

lemma live_jobs:
  assumes "live op t0 h0 answered t h" and "RunJobs fuel first wakes (h_store h) = Some st"
    and "in_turn t (first # wakes)"
  shows "\<exists>t'. live op t0 h0 answered t' (h\<lparr>h_store := st\<rparr>)"
proof -
  have "\<exists>t'. live op t0 h0 answered t' (h\<lparr>h_store := st\<rparr>)"
    if "live op t0 h0 answered t h" "job_rounds fuel rs (h_store h) = Some st" "in_turn t rs" for rs t h
    using that
  proof (induction rs arbitrary: t h)
    case Nil
    then have "h\<lparr>h_store := st\<rparr> = h" by simp
    with Nil show ?case by metis
  next
    case (Cons r rs)
    obtain clk1 clk2 clk3 where c: "r = (clk1, clk2, clk3)" by (cases r)
    with Cons.prems(2) obtain st1 where tick: "tick fuel clk1 clk2 clk3 (h_store h) = Some st1"
      and rest: "job_rounds fuel rs (h_store (h\<lparr>h_store := st1\<rparr>)) = Some st" by (auto split: option.splits)
    have "live op t0 h0 answered (clk3 readings) (h\<lparr>h_store := st1\<rparr>)"
      by (rule live.ticked [OF Cons.prems(1) tick]) (use Cons.prems(3) c in auto)
    from Cons.IH [OF this rest] Cons.prems(3) c show ?case by simp
  qed
  from this [OF assms(1) _ assms(3)] assms(2) show ?thesis by (simp add: RunJobs_def)
qed

lemma live_contract:
  assumes "live op t0 h0 answered t h" and "verifier_listed (op_External op)"
  shows "\<forall>(ev, r, rs)\<in>set answered. contract_ok rs \<or> route r = WebsocketE \<and> ev_Socket ev = Inl rs"
  using assms
proof (induction rule: live.induct)
  case (asked answered t h ev r rs h')
  then show ?case using served_in_contract [of ev r h] by auto
qed auto

end
