(* ===== verification/Replica.thy ===== *)
theory Replica
  imports Guarantees
begin

text \<open>
  The abstract specification of synchronisation.  To a client the clipboard of an account is a
  map from identifiers to a version and a stage of life.  A client that starts from the map of
  an earlier state and applies the events of the change feed arrives at the map of the present
  state: the detailed tables, the log with its retention and the paging of the feed implement
  the replication of that map.
\<close>

section \<open>The replicated map\<close>

type_synonym replica = "uuid \<Rightarrow> (int \<times> life) option"

definition clip_map :: "DB \<Rightarrow> uuid \<Rightarrow> replica" where
  "clip_map db u c = map_option (\<lambda>(v, q). (v, life_of db u c)) (tip db u c)"

definition life_after :: "string \<Rightarrow> life" where
  "life_after kind =
     (if kind = ''clip.created'' \<or> kind = ''clip.restored'' then Active
      else if kind = ''clip.trashed'' then Trashed
      else if kind = ''clip.purged'' then Purged
      else Absent)"

definition absorb :: "Change \<Rightarrow> replica \<Rightarrow> replica" where
  "absorb ch m = m(ch_ClipID ch \<mapsto> (ch_Version ch, life_after (ch_Kind ch)))"

definition catch_up :: "Change list \<Rightarrow> replica \<Rightarrow> replica" where
  "catch_up chs m = fold absorb chs m"

lemma catch_up_Nil [simp]: "catch_up [] m = m"
  by (simp add: catch_up_def)

lemma catch_up_append: "catch_up (xs @ ys) m = catch_up ys (catch_up xs m)"
  by (simp add: catch_up_def)

text \<open>The value of an identifier is that of its last event, if it has one.\<close>

lemma catch_up_none: "\<forall>ch\<in>set chs. ch_ClipID ch \<noteq> c \<Longrightarrow> catch_up chs m c = m c"
  by (induction chs arbitrary: m) (auto simp: catch_up_def absorb_def)

lemma catch_up_last:
  "\<forall>ch'\<in>set post. ch_ClipID ch' \<noteq> ch_ClipID ch \<Longrightarrow>
     catch_up (pre @ ch # post) m (ch_ClipID ch) = Some (ch_Version ch, life_after (ch_Kind ch))"
  using catch_up_none [of post "ch_ClipID ch"]
  by (simp add: catch_up_append) (simp add: catch_up_def absorb_def)

lemma life_after_tip_kind:
  assumes "sync_inv db" and "tip db u c = Some vq"
  shows "life_after (tip_kind db u c) = life_of db u c"
proof (cases "fmlookup (clips db) (u, c)")
  case None
  with assms(2) show ?thesis
    by (auto simp: tip_kind_def life_after_def life_of_def tip_def has_row_def split: option.splits)
next
  case (Some r)
  with assms(1) have "check_clip r" by (rule sync_inv_clip)
  with Some show ?thesis
    by (auto simp: tip_kind_def life_after_def life_of_def check_clip_def)
qed

section \<open>One run of events\<close>

lemma events_replicate:
  assumes inv: "sync_inv db" and s: "fmlookup (user_sync_state db) u = Some s"
    and evolved: "tips_evolve u s0 s db0' db"
    and cur: "min_available_seq s \<le> next_seq s0 + 1"
    and seqs: "map fst evs = [next_seq s0 + 1..next_seq s]"
    and rows: "\<forall>(q, e)\<in>set evs. fmlookup (sync_events db) (u, q) = Some e"
  shows "catch_up (map change_of_row evs) (clip_map db0' u) = clip_map db u"
proof
  fix c
  from sync_invD [OF inv s] have tips: "tips_ok db u s" and evs: "events_ok db u" by (simp_all add: user_inv_def)
  have at_tip: "\<exists>e. (q, e) \<in> set evs \<and> e_clip_id e = c \<and> e_version e = v \<and> e_kind e = tip_kind db u c"
    if "tip db u c = Some (v, q)" "next_seq s0 < q" for v q
  proof -
    from tips that cur have q: "q \<le> next_seq s" and "\<exists>e. fmlookup (sync_events db) (u, q) = Some e \<and> e_clip_id e = c
      \<and> e_version e = v \<and> e_kind e = tip_kind db u c" by (auto simp: tips_ok_def)
    then obtain e where e: "fmlookup (sync_events db) (u, q) = Some e" "e_clip_id e = c" "e_version e = v"
      "e_kind e = tip_kind db u c" by blast
    have "q \<in> set (map fst evs)" unfolding seqs using q that(2) by simp
    then obtain e' where "(q, e') \<in> set evs" by auto
    with rows e show ?thesis by (intro exI [of _ e]) auto
  qed
  show "catch_up (map change_of_row evs) (clip_map db0' u) c = clip_map db u c"
  proof (cases "\<exists>qe\<in>set evs. e_clip_id (snd qe) = c")
    case False
    then have "catch_up (map change_of_row evs) (clip_map db0' u) c = clip_map db0' u c"
      by (intro catch_up_none) (auto simp: change_of_row_def)
    moreover have "tip db u c = tip db0' u c \<and> life_of db u c = life_of db0' u c"
    proof (rule ccontr)
      assume "\<not> ?thesis"
      with evolved obtain v q where "tip db u c = Some (v, q)" "next_seq s0 < q"
        unfolding tips_evolve_def by blast
      from at_tip [OF this] False show False by force
    qed
    ultimately show ?thesis by (simp add: clip_map_def)
  next
    case True
    then obtain pre qe post where split: "evs = pre @ qe # post" and qe: "e_clip_id (snd qe) = c"
      and post: "\<forall>x\<in>set post. e_clip_id (snd x) \<noteq> c" using split_list_last_prop [OF True] by blast
    obtain q1 e1 where q1: "qe = (q1, e1)" by (cases qe)
    from rows split q1 have "fmlookup (sync_events db) (u, q1) = Some e1" by auto
    with evs qe q1 obtain v q where tip: "tip db u c = Some (v, q)" "q1 \<le> q" unfolding events_ok_def by fastforce
    have "q1 \<in> set (map fst evs)" using split q1 by simp
    then have "next_seq s0 < q" unfolding seqs using tip(2) by simp
    from at_tip [OF tip(1) this] obtain e where e: "(q, e) \<in> set evs" "e_clip_id e = c" "e_version e = v"
      "e_kind e = tip_kind db u c" by blast
    have "sorted (map fst evs)" unfolding seqs by simp
    then have "q \<le> q1" using e(1,2) post split q1 by (auto simp: sorted_append)
    with tip(2) have "q = q1" by simp
    moreover from rows e(1) have "fmlookup (sync_events db) (u, q) = Some e" by blast
    moreover from rows split q1 have "fmlookup (sync_events db) (u, q1) = Some e1" by auto
    ultimately have "e = e1" by simp
    with e(3,4) q1 qe have ch: "change_of_row qe = \<lparr>ch_Seq = FormatSeq q1, ch_ClipID = c, ch_Kind = tip_kind db u c,
      ch_Version = v, ch_OccurredAt = e_occurred_at e1\<rparr>" by (simp add: change_of_row_def)
    have "catch_up (map change_of_row evs) (clip_map db0' u) c = Some (v, life_after (tip_kind db u c))"
      using catch_up_last [of "map change_of_row post" "change_of_row qe" "map change_of_row pre" "clip_map db0' u"] post
      by (simp add: split ch) (auto simp: change_of_row_def)
    then show ?thesis using life_after_tip_kind [OF inv tip(1)] by (simp add: clip_map_def tip(1))
  qed
qed

text \<open>
  C2: Replicas converge.  A client holds the map of the account's clips as of an earlier state
  and the high watermark it has read the feed up to.  Whatever happened since, if the feed still
  serves that cursor, polling it to the end and applying the events in their order yields exactly
  the map of the present state: every clip with its version and its stage of life.
\<close>

theorem replica_converges:
  assumes syn: "synced t0 st0" and run: "reaches t0 st0 t st"
    and s: "fmlookup (user_sync_state (st_Pool st0)) (sc_UserID scope) = Some s"
    and served: "Changes clk scope epoch (next_seq s) limit st = Inr page"
    and s': "fmlookup (user_sync_state (st_Pool st)) (sc_UserID scope) = Some s'"
    and fuel: "nat (next_seq s' - next_seq s) < fuel"
  shows "\<exists>changes. poll clk scope epoch limit st fuel (next_seq s) = Some changes
    \<and> catch_up changes (clip_map (st_Pool st0) (sc_UserID scope)) = clip_map (st_Pool st) (sc_UserID scope)"
proof -
  let ?u = "sc_UserID scope" and ?db = "st_Pool st"
  have inv: "sync_inv ?db" by (rule run_inv [OF run syn])
  from served obtain s1 ss where s1: "fmlookup (user_sync_state ?db) ?u = Some s1"
    and ss: "server_state ?db = Some ss" "epoch = sync_epoch ss"
    and cur: "min_available_seq s1 \<le> next_seq s + 1" "next_seq s \<le> next_seq s1" by (rule Changes_Inr)
  from s1 s' have eq: "s1 = s'" by simp
  from poll_all [OF inv s1 ss(1) cur, of fuel clk limit] fuel eq ss(2) obtain evs where
    p: "poll clk scope epoch limit st fuel (next_seq s) = Some (map change_of_row evs)"
    and seqs: "map fst evs = [next_seq s + 1..next_seq s']"
    and rows: "\<forall>(q, e) \<in> set evs. fmlookup (sync_events ?db) (?u, q) = Some e" by auto
  have evolved: "tips_evolve ?u s s' (st_Pool st0) ?db"
    using run_evolves [OF run syn, of ?u] s s' by (auto simp: evolves_def)
  from events_replicate [OF inv s' evolved cur(1) [unfolded eq] seqs rows] p show ?thesis by blast
qed

theorem replica_converges_witness:
  "\<exists>changes. poll (\<lambda>_. 30) scope1 epoch1 1 store2 2 1 = Some changes
     \<and> catch_up changes (clip_map db1 user1) = clip_map db2 user1 \<and> clip_map db2 user1 clip1 = Some (2, Trashed)"
proof -
  let ?s = "\<lparr>next_seq = 1, min_available_seq = 1, ciphertext_bytes = 20, item_count = 1\<rparr>"
  have p: "\<exists>page. Changes (\<lambda>_. 30) scope1 epoch1 (next_seq ?s) 1 store2 = Inr page"
    using Changes_store2 [of 1] by simp
  have "clip_map db2 user1 clip1 = Some (2, Trashed)"
    by (simp add: clip_map_def tip_def life_of_def trashed1_def clip_row1_def)
  with p replica_converges [OF run_synced [OF sample_run1 sample_synced] sample_run2,
      of scope1 ?s "\<lambda>_. 30" epoch1 1 _ _ 2] show ?thesis
    by auto
qed

end
