(* ===== verification/Rescan.thy ===== *)
theory Rescan
  imports Replica
begin

text \<open>
  The rebuilding of a client's copy from a snapshot session (docs/04-sync-protocol.md, section 7).
  The pages of a scan are read at different moments, while other devices and the jobs go on
  changing the clips; the events after the sequence number the session was begun at make up for
  that.  The scan is the relation \<open>scan\<close>, in which the server may take any steps between two
  pages; \<open>rescan_converges\<close> shows that scan and events together give the clipboard as it is.
\<close>

section \<open>Identifiers in the order of the scan\<close>

lemma pointwise_le: "list_all2 (\<le>) xs (ys :: 'a :: linorder list) \<Longrightarrow> xs \<le> ys"
  by (induction rule: list_all2_induct) auto

lemma lower_hex_zero: "lower_hex c \<Longrightarrow> CHR ''0'' \<le> c"
  by (auto simp: lower_hex_def is_digit_def less_eq_char_def ord_def)

lemma zero_uuid_nth: "list_all (\<lambda>i. zero_uuid ! i = (if i \<in> {8, 13, 18, 23} then CHR ''-'' else CHR ''0'')) [0..<36]"
  by code_simp

text \<open>The nil identifier is a UUID as the server checks it, and the least of them.\<close>

lemma UUID_zero: "UUID zero_uuid"
  by code_simp

lemma zero_uuid_least:
  assumes "UUID c" and "c \<noteq> zero_uuid"
  shows "zero_uuid < c"
proof -
  have "list_all2 (\<le>) zero_uuid c"
  proof (rule list_all2_all_nthI)
    show "length zero_uuid = length c" using assms(1) by (simp add: UUID_def uuidRE_def zero_uuid_def)
    fix i assume "i < length zero_uuid"
    then have "i < 36" by (simp add: zero_uuid_def)
    with assms(1) have "if i \<in> {8, 13, 18, 23} then c ! i = CHR ''-'' else lower_hex (c ! i)"
      by (simp add: UUID_def uuidRE_def list_all_iff)
    moreover from zero_uuid_nth \<open>i < 36\<close>
    have "zero_uuid ! i = (if i \<in> {8, 13, 18, 23} then CHR ''-'' else CHR ''0'')" by (simp add: list_all_iff)
    ultimately show "zero_uuid ! i \<le> c ! i" using lower_hex_zero by (auto split: if_splits)
  qed
  then show ?thesis using assms(2) pointwise_le by force
qed

section \<open>What a page shows of one clip\<close>

definition of_clip :: "uuid \<Rightarrow> Clip list \<Rightarrow> Clip list" where
  "of_clip c items = filter (\<lambda>it. env_ID it = c) items"

definition sighted :: "int \<Rightarrow> time \<Rightarrow> uuid \<Rightarrow> uuid \<Rightarrow> DB \<Rightarrow> Clip list" where
  "sighted base t u c db =
     (case fmlookup (clips db) (u, c) of
        None \<Rightarrow> []
      | Some r \<Rightarrow> if snapshot_match t base (c, r) then [clip_of_row c r] else [])"

lemma filter_keys:
  "distinct (map fst xs) \<Longrightarrow>
     filter (\<lambda>x. fst x = c) xs = (case map_of xs c of None \<Rightarrow> [] | Some r \<Rightarrow> [(c, r)])"
proof (induction xs)
  case (Cons x xs)
  show ?case
  proof (cases "fst x = c")
    case True
    with Cons.prems have "c \<notin> fst ` set xs" by simp
    then have "filter (\<lambda>x. fst x = c) xs = []" by (auto simp: filter_empty_conv)
    with True show ?thesis by (cases x) simp
  next
    case False
    with Cons show ?thesis by (cases x) simp
  qed
qed simp

lemma set_snapshot_rows [simp]:
  "(c, r) \<in> set (snapshot_rows db t u base after) \<longleftrightarrow>
     fmlookup (clips db) (u, c) = Some r \<and> snapshot_match t base (c, r) \<and> after < c"
  by (auto simp: snapshot_rows_def)

lemma snapshot_rows_ordered: "sorted_wrt (\<lambda>x y. fst x < fst y) (snapshot_rows db t u base after)"
proof -
  have "distinct (map fst (snapshot_rows db t u base after))"
    unfolding snapshot_rows_def distinct_map_sort_key by (rule distinct_map_filter) simp
  then have "sorted_wrt (<) (map fst (snapshot_rows db t u base after))"
    by (simp add: strict_sorted_iff snapshot_rows_def)
  then show ?thesis by (simp add: sorted_wrt_map)
qed

lemma distinct_snapshot_rows: "distinct (map fst (snapshot_rows db t u base after))"
  using snapshot_rows_ordered [of db t u base after] by (simp add: strict_sorted_iff flip: sorted_wrt_map)

lemma of_clip_rows:
  assumes "xs = filter P (snapshot_rows db t u base after)" and "\<And>r. P (c, r) \<longleftrightarrow> shown"
  shows "of_clip c (map (\<lambda>(c, r). clip_of_row c r) xs) = (if shown \<and> after < c then sighted base t u c db else [])"
proof -
  have "distinct (map fst xs)" using assms(1) distinct_snapshot_rows by (simp add: distinct_map_filter)
  moreover have "map_of xs c = (if shown \<and> after < c then
      (case fmlookup (clips db) (u, c) of None \<Rightarrow> None
       | Some r \<Rightarrow> if snapshot_match t base (c, r) then Some r else None) else None)"
  proof (rule option.expand; (intro allI)?)
    show "(map_of xs c = None) = ((if shown \<and> after < c then
      (case fmlookup (clips db) (u, c) of None \<Rightarrow> None
       | Some r \<Rightarrow> if snapshot_match t base (c, r) then Some r else None) else None) = None)"
      using assms by (force simp: map_of_eq_None_iff split: option.split)
  qed (use \<open>distinct (map fst xs)\<close> assms in \<open>auto dest!: map_of_SomeD split: option.splits if_splits\<close>)
  moreover have "of_clip c (map (\<lambda>(c, r). clip_of_row c r) xs)
      = map (\<lambda>(c, r). clip_of_row c r) (filter (\<lambda>x. fst x = c) xs)"
    by (simp add: of_clip_def filter_map comp_def case_prod_beta clip_of_row_def)
  ultimately show ?thesis by (simp add: filter_keys sighted_def split: option.split)
qed

definition scan_start :: "string \<Rightarrow> uuid" where
  "scan_start after = (if after \<noteq> [] then after else zero_uuid)"

lemma take_filter_keys:
  assumes "sorted_wrt (\<lambda>x y. fst x < (fst y :: 'k :: linorder)) xs" and "0 < n" and "n < length xs"
  shows "take n xs = filter (\<lambda>x. fst x \<le> fst (xs ! (n - 1))) xs"
proof -
  let ?k = "fst (xs ! (n - 1))"
  have "fst x \<le> ?k" if "x \<in> set (take n xs)" for x
  proof -
    from that obtain i where i: "i < n" "x = xs ! i" using assms(3) by (auto simp: in_set_conv_nth)
    then show ?thesis
      using sorted_wrt_nth_less [OF assms(1), of i "n - 1"] assms(2,3) by (cases "i = n - 1") (auto intro: less_imp_le)
  qed
  moreover have "\<not> fst x \<le> ?k" if "x \<in> set (drop n xs)" for x
  proof -
    from that obtain i where "i < length xs - n" "x = xs ! (n + i)" using assms(3) by (auto simp: in_set_conv_nth)
    then show ?thesis using sorted_wrt_nth_less [OF assms(1), of "n - 1" "n + i"] assms(2) by fastforce
  qed
  ultimately have "filter (\<lambda>x. fst x \<le> ?k) (take n xs @ drop n xs) = take n xs"
    unfolding filter_append by (simp add: filter_id_conv filter_empty_conv)
  then show ?thesis by simp
qed

lemma SnapshotPage_Inr:
  assumes "SnapshotPage clk scope token after limit st = Inr page" and "sp_BaseSeq page = FormatSeq base"
  obtains L cp where "0 < L"
    and "cut_page (int L) (map (\<lambda>(c, r). clip_of_row c r) (take (Suc L)
      (snapshot_rows (st_Pool st) (clk 1) (sc_UserID scope) base (scan_start after))))
      = (sp_Items page, cp)" and "sp_NextPageToken page = map_option env_ID cp"
proof -
  have lim: "(if limit \<le> 0 then 100 else limit) = int (page_size limit)" "nat (int k + 1) = Suc k" for k
    by (auto simp: page_size_def)
  show thesis
    using assms that [OF page_size_pos [of limit]]
    unfolding SnapshotPage_def Let_def lim scan_start_def
    by (auto simp: FormatSeq_def split: if_splits option.splits prod.splits)
qed

lemma page_sighted:
  assumes page: "SnapshotPage clk scope token after limit st = Inr page" and base: "sp_BaseSeq page = FormatSeq base"
  shows "of_clip c (sp_Items page) =
      (if scan_start after < c \<and> (\<forall>k. sp_NextPageToken page = Some k \<longrightarrow> c \<le> k)
       then sighted base (clk 1) (sc_UserID scope) c (st_Pool st) else [])"
    and "sp_NextPageToken page = Some k \<Longrightarrow> scan_start after < k"
proof -
  from page base obtain L cp where L: "0 < L"
    and cut: "cut_page (int L) (map (\<lambda>(c, r). clip_of_row c r) (take (Suc L)
      (snapshot_rows (st_Pool st) (clk 1) (sc_UserID scope) base (scan_start after))))
      = (sp_Items page, cp)" and nxt: "sp_NextPageToken page = map_option env_ID cp" by (rule SnapshotPage_Inr)
  let ?rows = "snapshot_rows (st_Pool st) (clk 1) (sc_UserID scope) base (scan_start after)"
  have items: "sp_Items page = map (\<lambda>(c, r). clip_of_row c r) (take L ?rows)"
    and cp: "cp = map_option (\<lambda>(c, r). clip_of_row c r) (if L < length ?rows then Some (?rows ! (L - 1)) else None)"
    using cut unfolding cut_page_map [OF L] cut_page_take [OF L] by simp_all
  have nk: "sp_NextPageToken page = (if L < length ?rows then Some (fst (?rows ! (L - 1))) else None)"
    by (simp add: nxt cp clip_of_row_def split: prod.split)
  show "of_clip c (sp_Items page) =
      (if scan_start after < c \<and> (\<forall>k. sp_NextPageToken page = Some k \<longrightarrow> c \<le> k)
       then sighted base (clk 1) (sc_UserID scope) c (st_Pool st) else [])"
  proof (cases "L < length ?rows")
    case True
    have "of_clip c (sp_Items page) = (if c \<le> fst (?rows ! (L - 1)) \<and> scan_start after < c
        then sighted base (clk 1) (sc_UserID scope) c (st_Pool st) else [])"
      unfolding items take_filter_keys [OF snapshot_rows_ordered L True]
      by (rule of_clip_rows [OF refl]) simp
    with True show ?thesis by (auto simp: nk)
  next
    case False
    then have "of_clip c (sp_Items page) = (if True \<and> scan_start after < c
        then sighted base (clk 1) (sc_UserID scope) c (st_Pool st) else [])"
      unfolding items by (intro of_clip_rows [where P = "\<lambda>_. True"]) simp_all
    with False show ?thesis by (auto simp: nk)
  qed
  show "scan_start after < k" if "sp_NextPageToken page = Some k"
  proof -
    from that nk have len: "L < length ?rows" and k: "k = fst (?rows ! (L - 1))" by (auto split: if_splits)
    from len have "?rows ! (L - 1) \<in> set ?rows" by (intro nth_mem) simp
    with k show ?thesis by (metis set_snapshot_rows prod.collapse)
  qed
qed

section \<open>A scan\<close>

text \<open>
  A client reads pages until one has no token; before every page the server may take any steps.
\<close>

inductive scan ::
  "Scope \<Rightarrow> string \<Rightarrow> string \<Rightarrow> string \<Rightarrow> time \<Rightarrow> Store \<Rightarrow> Clip list \<Rightarrow> time \<Rightarrow> Store \<Rightarrow> bool"
  for scope token base where
  last_page: "scan scope token base after t st (sp_Items page) (clk readings) st1"
    if "reaches t st t1 st1" "mono clk" "t1 \<le> clk 0" "SnapshotPage clk scope token after limit st1 = Inr page"
      "sp_BaseSeq page = base" "sp_NextPageToken page = None"
| next_page: "scan scope token base after t st (sp_Items page @ items) t' st'"
    if "reaches t st t1 st1" "mono clk" "t1 \<le> clk 0" "SnapshotPage clk scope token after limit st1 = Inr page"
      "sp_BaseSeq page = base" "sp_NextPageToken page = Some k"
      "scan scope token base k (clk readings) st1 items t' st'"

lemma clock_runs: "mono clk \<Longrightarrow> t \<le> clk 0 \<Longrightarrow> t \<le> clk readings"
  using monoD [of clk 0 readings] by simp

lemma scan_since: "scan scope token base after t st items t' st' \<Longrightarrow> since st0 t st \<Longrightarrow> since st0 t' st'"
proof (induction rule: scan.induct)
  case (last_page t st t1 st1 clk after limit page)
  from srv.run [OF last_page(1,7)] show ?case by (rule since_later [OF _ clock_runs [OF last_page(2,3)]])
next
  case (next_page t st t1 st1 clk after limit page k items t' st')
  from srv.run [OF next_page(1,9)] have "since st0 (clk readings) st1"
    by (rule since_later [OF _ clock_runs [OF next_page(2,3)]])
  then show ?case by (rule next_page.IH)
qed

lemma sys_step_time: "sys_step t st t' st' \<Longrightarrow> t \<le> t'"
  by (erule sys_step.cases) (simp_all only: clock_runs order_refl)

lemma reaches_time: "reaches t st t' st' \<Longrightarrow> t \<le> t'"
  by (induction rule: reaches.induct) (auto dest: sys_step_time)

lemma scan_time: "scan scope token base after t st items t' st' \<Longrightarrow> t \<le> t'"
  by (induction rule: scan.induct) (meson reaches_time clock_runs order_trans)+

text \<open>
  Every identifier after the nil one is looked at exactly once in a scan, at some moment of it:
  what the scan has of the clip is what a page showed of it then.
\<close>

lemma of_clip_append: "of_clip c (xs @ ys) = of_clip c xs @ of_clip c ys"
  by (simp add: of_clip_def)

lemma scan_sighted:
  assumes "scan scope token (FormatSeq base) after t st items t' st'" and "since st0 t st"
  shows "if scan_start after < c
    then \<exists>sti tm. (\<exists>ti. since st0 ti sti) \<and> since sti t' st' \<and> tm \<le> t'
      \<and> of_clip c items = sighted base tm (sc_UserID scope) c (st_Pool sti)
    else of_clip c items = []"
  using assms
proof (induction rule: scan.induct)
  case (last_page t st t1 st1 clk after limit page)
  from srv.run [OF last_page(1,7)] have st1: "since st0 t1 st1" .
  then have "synced t1 st1" by (simp add: since_def)
  then have "since st1 (clk readings) st1"
    by (rule since_later [OF synced_start clock_runs [OF last_page(2,3)]])
  moreover have "clk 1 \<le> clk readings" by (rule monoD [OF last_page(2)]) (simp add: readings_def)
  ultimately show ?case
    using page_sighted(1) [OF last_page(4,5), of c] last_page(6) st1 by auto
next
  case (next_page t st t1 st1 clk after limit page k items t' st')
  from srv.run [OF next_page(1,9)] have st1: "since st0 t1 st1" .
  then have "synced t1 st1" by (simp add: since_def)
  then have here: "since st1 (clk readings) st1"
    by (rule since_later [OF synced_start clock_runs [OF next_page(2,3)]])
  have late: "since st1 t' st'" by (rule scan_since [OF next_page(7) here])
  have tm: "clk 1 \<le> t'"
    using monoD [OF next_page(2), of 1 readings] scan_time [OF next_page(7)] by (simp add: readings_def)
  note page = page_sighted [OF next_page(4,5)]
  have "scan_start after < k" by (rule page(2) [OF next_page(6)])
  moreover from this have "scan_start k = k" by (cases "k = []") (auto simp: scan_start_def)
  moreover note next_page(8) [OF since_later [OF st1 clock_runs [OF next_page(2,3)]]]
  ultimately show ?case
    using page(1) [of c] next_page(6) st1 late tm by (cases "k < c") (auto simp: of_clip_append not_less)
qed

section \<open>The client\<close>

text \<open>
  The client starts from an empty copy, enters the clips the pages show, and applies the events
  after the base, none of which may put a clip back to an earlier version.
\<close>

definition shown_life :: "string \<Rightarrow> life" where
  "shown_life status = (if status = ''active'' then Active else Trashed)"

definition entered :: "Clip list \<Rightarrow> replica" where
  "entered items = fold (\<lambda>it m. m(env_ID it \<mapsto> (cl_Version it, shown_life (cl_Status it)))) items (\<lambda>_. None)"

definition absorb_newer :: "Change \<Rightarrow> replica \<Rightarrow> replica" where
  "absorb_newer ch m =
     (case m (ch_ClipID ch) of
        None \<Rightarrow> absorb ch m
      | Some (v, _) \<Rightarrow> if ch_Version ch \<le> v then m else absorb ch m)"

definition make_up :: "Change list \<Rightarrow> replica \<Rightarrow> replica" where
  "make_up chs m = fold absorb_newer chs m"

lemma entered_of_clip:
  "entered items c = (if of_clip c items = [] then None
     else Some (cl_Version (last (of_clip c items)), shown_life (cl_Status (last (of_clip c items)))))"
  by (induction items rule: rev_induct) (auto simp: entered_def of_clip_def)

lemma make_up_none: "\<forall>ch\<in>set chs. ch_ClipID ch \<noteq> c \<Longrightarrow> make_up chs m c = m c"
  by (induction chs arbitrary: m) (auto simp: make_up_def absorb_newer_def absorb_def split: option.split)

text \<open>No value is beyond the last version, and one of that version is the last.\<close>

definition upto_tip :: "int \<Rightarrow> life \<Rightarrow> (int \<times> life) option \<Rightarrow> bool" where
  "upto_tip v l x = (case x of None \<Rightarrow> True | Some (w, k) \<Rightarrow> w \<le> v \<and> (w = v \<longrightarrow> k = l))"

lemma make_up_tip:
  assumes "\<forall>ch\<in>set chs. ch_ClipID ch = c \<longrightarrow> upto_tip v l (Some (ch_Version ch, life_after (ch_Kind ch)))"
    and "upto_tip v l (m c)"
  shows "upto_tip v l (make_up chs m c)"
    and "m c = Some (v, l) \<or> (\<exists>ch\<in>set chs. ch_ClipID ch = c \<and> ch_Version ch = v) \<Longrightarrow>
      make_up chs m c = Some (v, l)"
proof -
  have "upto_tip v l (make_up chs m c)
    \<and> (m c = Some (v, l) \<or> (\<exists>ch\<in>set chs. ch_ClipID ch = c \<and> ch_Version ch = v) \<longrightarrow>
        make_up chs m c = Some (v, l))"
    using assms
  proof (induction chs arbitrary: m)
    case (Cons ch chs)
    have "upto_tip v l (absorb_newer ch m c)
      \<and> (m c = Some (v, l) \<or> ch_ClipID ch = c \<and> ch_Version ch = v \<longrightarrow> absorb_newer ch m c = Some (v, l))"
      using Cons.prems by (auto simp: absorb_newer_def absorb_def upto_tip_def split: option.splits)
    with Cons.IH [of "absorb_newer ch m"] Cons.prems(1) show ?case by (auto simp: make_up_def)
  qed (simp add: make_up_def)
  then show "upto_tip v l (make_up chs m c)"
    and "m c = Some (v, l) \<or> (\<exists>ch\<in>set chs. ch_ClipID ch = c \<and> ch_Version ch = v) \<Longrightarrow>
      make_up chs m c = Some (v, l)" by blast+
qed

section \<open>Scan and events together\<close>

text \<open>Trash that had expired by t; such a clip is on no page and its purge is still to come.\<close>

definition expired_by :: "time \<Rightarrow> DB \<Rightarrow> uuid \<Rightarrow> uuid \<Rightarrow> bool" where
  "expired_by t db u c =
     (case fmlookup (clips db) (u, c) of
        None \<Rightarrow> False
      | Some r \<Rightarrow> c_status r = ''trash'' \<and> (case c_expires_at r of None \<Rightarrow> False | Some e \<Rightarrow> e \<le> t))"

lemma sighted_entry:
  assumes "sync_inv db" and "of_clip c items = sighted base t u c db"
  shows "entered items c = None \<or> entered items c = clip_map db u c"
    and "tip db u c = Some (v, q) \<Longrightarrow> q \<le> base \<Longrightarrow>
      entered items c = clip_map db u c
        \<or> entered items c = None \<and> (life_of db u c = Purged \<or> expired_by t db u c)"
proof -
  show 1: "entered items c = None \<or> entered items c = clip_map db u c"
    using assms(2) by (auto simp: entered_of_clip sighted_def clip_map_def tip_def life_of_def clip_of_row_def
        shown_life_def split: option.splits if_splits)
  assume tip: "tip db u c = Some (v, q)" "q \<le> base"
  show "entered items c = clip_map db u c
      \<or> entered items c = None \<and> (life_of db u c = Purged \<or> expired_by t db u c)"
  proof (cases "fmlookup (clips db) (u, c)")
    case None
    with tip assms(2) have "life_of db u c = Purged" "entered items c = None"
      by (auto simp: tip_def life_of_def has_row_def entered_of_clip sighted_def split: option.splits)
    then show ?thesis by simp
  next
    case (Some r)
    with assms(1) have "check_clip r" by (rule sync_inv_clip)
    moreover from Some tip have "c_last_seq r \<le> base" by (simp add: tip_def)
    ultimately have "snapshot_match t base (c, r) \<or> expired_by t db u c"
      using Some by (auto simp: snapshot_match_def expired_by_def check_clip_def not_less)
    moreover have "entered items c \<noteq> None" if "snapshot_match t base (c, r)"
      using that Some assms(2) by (simp add: entered_of_clip sighted_def)
    ultimately show ?thesis using 1 by auto
  qed
qed

lemma scan_and_events:
  assumes inv: "sync_inv db" "sync_inv dbi" and s: "fmlookup (user_sync_state db) u = Some s"
    and si: "fmlookup (user_sync_state dbi) u = Some si" "base \<le> next_seq si"
    and ev: "tips_evolve u si s dbi db"
    and cur: "min_available_seq s \<le> base + 1"
    and seqs: "map fst evs = [base + 1..next_seq s]"
    and rows: "\<forall>(q, e)\<in>set evs. fmlookup (sync_events db) (u, q) = Some e"
    and scan: "of_clip c items = sighted base t u c dbi"
  shows "make_up (map change_of_row evs) (entered items) c = clip_map db u c
    \<or> make_up (map change_of_row evs) (entered items) c = None
        \<and> (life_of db u c = Purged \<or> expired_by t db u c)"
proof -
  from sync_invD [OF inv(1) s] have tips: "tips_ok db u s" and evs: "events_ok db u" by (simp_all add: user_inv_def)
  have of_ch: "\<exists>q e. fmlookup (sync_events db) (u, q) = Some e \<and> base < q \<and> e_clip_id e = ch_ClipID ch
      \<and> ch_Version ch = e_version e \<and> ch_Kind ch = e_kind e" if ch: "ch \<in> set (map change_of_row evs)" for ch
  proof -
    from ch obtain q e where qe: "(q, e) \<in> set evs" "ch = change_of_row (q, e)" by auto
    then have "q \<in> set (map fst evs)" by force
    then have "base < q" unfolding seqs by simp
    with qe rows show ?thesis by (intro exI [of _ q] exI [of _ e]) (auto simp: change_of_row_def)
  qed
  have same: "tip db u c = tip dbi u c \<and> life_of db u c = life_of dbi u c
        \<and> fmlookup (clips db) (u, c) = fmlookup (clips dbi) (u, c)
      \<or> (\<exists>v q. tip db u c = Some (v, q) \<and> next_seq si < q \<and> q \<le> next_seq s \<and> tip_version dbi u c < v)"
    using ev unfolding tips_evolve_def by blast
  show ?thesis
  proof (cases "\<exists>v q. tip db u c = Some (v, q) \<and> base < q")
    case True
    then obtain v q where tip: "tip db u c = Some (v, q)" "base < q" by blast
    let ?l = "life_of db u c"
    from tips tip cur obtain e where e: "q \<le> next_seq s" "fmlookup (sync_events db) (u, q) = Some e"
      "e_clip_id e = c" "e_version e = v" "e_kind e = tip_kind db u c" by (force simp: tips_ok_def)
    have l: "life_after (tip_kind db u c) = ?l" by (rule life_after_tip_kind [OF inv(1) tip(1)])
    have "q \<in> set (map fst evs)" unfolding seqs using e(1) tip(2) by simp
    then obtain e' where e': "(q, e') \<in> set evs" by auto
    with rows e(2) have "e' = e" by auto
    with e' have "change_of_row (q, e) \<in> set (map change_of_row evs)" by auto
    moreover have "ch_ClipID (change_of_row (q, e)) = c \<and> ch_Version (change_of_row (q, e)) = v"
      using e by (simp add: change_of_row_def)
    ultimately have last: "\<exists>ch\<in>set (map change_of_row evs). ch_ClipID ch = c \<and> ch_Version ch = v" by blast
    have "upto_tip v ?l (Some (ch_Version ch, life_after (ch_Kind ch)))"
      if ch: "ch \<in> set (map change_of_row evs)" "ch_ClipID ch = c" for ch
    proof -
      from of_ch [OF ch(1)] ch(2) obtain q1 e1 where e1: "fmlookup (sync_events db) (u, q1) = Some e1"
        "e_clip_id e1 = c" "ch_Version ch = e_version e1" "ch_Kind ch = e_kind e1" by auto
      with evs tip(1) have le: "q1 \<le> q" "e_version e1 \<le> v" by (force simp: events_ok_def)+
      show ?thesis
      proof (cases "q1 = q")
        case True
        with e e1 l show ?thesis by (simp add: upto_tip_def)
      next
        case False
        with le(1) have "q1 < q" by simp
        moreover have "e_clip_id e1 = e_clip_id e" using e1(2) e(3) by simp
        ultimately have "e_version e1 < e_version e" using evs e1(1) e(2) unfolding events_ok_def by blast
        with e(4) e1(3) show ?thesis by (simp add: upto_tip_def)
      qed
    qed
    moreover have "upto_tip v ?l (entered items c)"
      using sighted_entry(1) [OF inv(2) scan] same tip(1)
      by (auto simp: upto_tip_def clip_map_def tip_version_def split: option.splits)
    ultimately have "make_up (map change_of_row evs) (entered items) c = Some (v, ?l)"
      using last by (intro make_up_tip(2)) auto
    then show ?thesis by (simp add: clip_map_def tip(1))
  next
    case False
    have "ch_ClipID ch \<noteq> c" if ch: "ch \<in> set (map change_of_row evs)" for ch
    proof
      assume "ch_ClipID ch = c"
      with of_ch [OF ch] evs obtain q v q' where "base < q" "tip db u c = Some (v, q')" "q \<le> q'"
        by (fastforce simp: events_ok_def)
      with False show False by force
    qed
    then have "make_up (map change_of_row evs) (entered items) c = entered items c" by (intro make_up_none) blast
    moreover from False si(2) same have kept: "tip db u c = tip dbi u c" "life_of db u c = life_of dbi u c"
      "fmlookup (clips db) (u, c) = fmlookup (clips dbi) (u, c)" by (auto dest: less_le_trans order_le_less_trans)
    moreover from kept(3) have "expired_by t db u c = expired_by t dbi u c" by (simp add: expired_by_def)
    moreover from kept have "clip_map db u c = clip_map dbi u c" by (simp add: clip_map_def)
    moreover have "entered items c = clip_map dbi u c \<or> entered items c = None
        \<and> (life_of dbi u c = Purged \<or> expired_by t dbi u c)"
    proof (cases "tip dbi u c")
      case None
      then have "clip_map dbi u c = None" by (simp add: clip_map_def)
      with sighted_entry(1) [OF inv(2) scan] show ?thesis by auto
    next
      case (Some vq)
      obtain v q where vq: "vq = (v, q)" by (cases vq)
      with Some kept(1) False have "q \<le> base" by (auto simp: not_less)
      with sighted_entry(2) [OF inv(2) scan] Some vq show ?thesis by blast
    qed
    ultimately show ?thesis by simp
  qed
qed

lemma expired_by_later: "expired_by t db u c \<Longrightarrow> t \<le> t' \<Longrightarrow> expired_by t' db u c"
  by (auto simp: expired_by_def split: option.splits)

lemma BeginSnapshot_Inr:
  assumes "BeginSnapshot clk raw scope st = (Inr snap, st')"
  obtains s where "fmlookup (user_sync_state (st_Pool st)) (sc_UserID scope) = Some s"
    and "sn_BaseSeq snap = FormatSeq (next_seq s)"
  using assms by (auto simp: BeginSnapshot_def run_tx_def Let_def RandomToken_def res split: sum.splits option.splits)

text \<open>
  C3: A rebuilt copy is the clipboard.  A client begins a snapshot session, reads its pages while
  the server goes on with any operations and jobs, and then applies the events after the base,
  skipping those older than what it has.  If the feed still serves the base, then every clip the
  client has is exactly as the server has it, and the only clips it lacks are purged ones and
  trash whose time is up, whatever happened in between and however the pages were cut: no clip
  is lost, none that was deleted comes back, none is at an old version.  The one exception is the
  nil identifier: the server accepts it for a clip, and no page shows that clip.
\<close>

theorem rescan_converges:
  assumes syn: "synced t0 st0"
    and begun: "BeginSnapshot clk0 raw scope st0 = (Inr snap, st1)" "mono clk0" "t0 \<le> clk0 0"
    and scan: "scan scope (sn_Token snap) (sn_BaseSeq snap) [] (clk0 readings) st1 items t2 st2"
    and run: "reaches t2 st2 t st"
    and base: "Seq (sn_BaseSeq snap) = Some base"
    and served: "Changes clk scope (sn_SyncEpoch snap) base limit st = Inr page"
    and s: "fmlookup (user_sync_state (st_Pool st)) (sc_UserID scope) = Some s"
    and fuel: "nat (next_seq s - base) < fuel"
  shows "\<exists>changes. poll clk scope (sn_SyncEpoch snap) limit st fuel base = Some changes
    \<and> (\<forall>c. UUID c \<longrightarrow> c \<noteq> zero_uuid \<longrightarrow>
         make_up changes (entered items) c = clip_map (st_Pool st) (sc_UserID scope) c
         \<or> make_up changes (entered items) c = None
             \<and> (life_of (st_Pool st) (sc_UserID scope) c = Purged
                  \<or> expired_by t (st_Pool st) (sc_UserID scope) c))
    \<and> of_clip zero_uuid items = []"
proof -
  let ?u = "sc_UserID scope" and ?db = "st_Pool st"
  from BeginSnapshot_Inr [OF begun(1)] obtain s0 where
    s0: "fmlookup (user_sync_state (st_Pool st0)) ?u = Some s0" and bs: "sn_BaseSeq snap = FormatSeq (next_seq s0)" .
  with base have b: "base = next_seq s0" by (simp add: Seq_Some_iff FormatSeq_def)
  have "reaches t0 st0 (clk0 readings) st1"
    by (rule reaches.step [OF reaches.start]) (rule sys_step.snapshot [OF begun])
  then have start: "since st0 (clk0 readings) st1" by (rule run_since [OF _ syn])
  from srv.run [OF run scan_since [OF scan start]] have inv: "sync_inv ?db" by (simp add: since_def synced_def)
  from served obtain s1 ss where s1: "fmlookup (user_sync_state ?db) ?u = Some s1"
    and ss: "server_state ?db = Some ss" "sn_SyncEpoch snap = sync_epoch ss"
    and cur1: "min_available_seq s1 \<le> base + 1" "base \<le> next_seq s1" by (rule Changes_Inr)
  from s s1 cur1 have cur: "min_available_seq s \<le> base + 1" "base \<le> next_seq s" by simp_all
  from poll_all [OF inv s ss(1) cur fuel, of clk limit] ss(2) obtain evs where
    p: "poll clk scope (sn_SyncEpoch snap) limit st fuel base = Some (map change_of_row evs)"
    and seqs: "map fst evs = [base + 1..next_seq s]"
    and rows: "\<forall>(q, e) \<in> set evs. fmlookup (sync_events ?db) (?u, q) = Some e" by auto
  have "make_up (map change_of_row evs) (entered items) c = clip_map ?db ?u c
      \<or> make_up (map change_of_row evs) (entered items) c = None
          \<and> (life_of ?db ?u c = Purged \<or> expired_by t ?db ?u c)" if c: "UUID c" "c \<noteq> zero_uuid" for c
  proof -
    from scan_sighted [OF scan [unfolded bs] start, of c] zero_uuid_least [OF c] obtain ti sti tm where
      sti: "since st0 ti sti" "since sti t2 st2" and tm: "tm \<le> t2"
      and seen: "of_clip c items = sighted (next_seq s0) tm ?u c (st_Pool sti)" by (auto simp: scan_start_def)
    from sti(1) have "evolves ?u (st_Pool st0) (st_Pool sti)" and invi: "sync_inv (st_Pool sti)"
      by (simp_all add: since_def synced_def)
    from this(1) s0 obtain si where si: "fmlookup (user_sync_state (st_Pool sti)) ?u = Some si"
      "next_seq s0 \<le> next_seq si" by (rule evolvesD)
    from srv.run [OF run sti(2)] have "evolves ?u (st_Pool sti) ?db" by (simp add: since_def)
    then obtain s' where "fmlookup (user_sync_state ?db) ?u = Some s'" "tips_evolve ?u si s' (st_Pool sti) ?db"
      using si(1) by (rule evolvesD)
    with s have ev: "tips_evolve ?u si s (st_Pool sti) ?db" by simp
    from reaches_time [OF run] tm have "tm \<le> t" by simp
    with scan_and_events [OF inv invi s si [folded b] ev cur(1) seqs rows seen [folded b]]
    show ?thesis by (auto intro: expired_by_later)
  qed
  moreover have "of_clip zero_uuid items = []"
    using scan_sighted [OF scan [unfolded bs] start, of zero_uuid] by (simp add: scan_start_def)
  ultimately show ?thesis using p by blast
qed

text \<open>
  The sample: a session begun after the clip was created, one page that shows the clip, which is
  moved to the trash afterwards.
\<close>

definition raw1 :: bytes where "raw1 = replicate 32 5"

definition snap1 :: Snapshot where
  "snap1 = \<lparr>sn_Token = Encode raw1, sn_BaseSeq = ''1'', sn_SyncEpoch = epoch1, sn_ExpiresAt = 11 + seconds 900\<rparr>"

definition session_db :: "DB \<Rightarrow> DB" where
  "session_db db = db\<lparr>snapshot_sessions := fmupd (HashToken (Encode raw1))
     \<lparr>n_user_id = user1, n_device_id = device1, n_base_seq = 1, n_sync_epoch = epoch1,
      n_expires_at = 11 + seconds 900\<rparr> fmempty\<rparr>"

lemma sessions_db1 [simp]: "snapshot_sessions db1 = fmempty"
  by (simp add: db1_def log_write_def db0_def empty_db_def)

lemma begin1: "BeginSnapshot (\<lambda>_. 11) raw1 scope1 store1 = (Inr snap1, store1\<lparr>st_Pool := session_db db1\<rparr>)"
proof -
  have "length (HashToken (Encode raw1)) = 32" by (simp add: HashToken_def)
  then show ?thesis
    by (simp add: BeginSnapshot_def run_tx_def RandomToken_def Let_def insert_snapshot_def check_defs HashToken_def
      snap1_def session_db_def res)
qed

lemma singleton_list: "set xs = {x} \<Longrightarrow> distinct xs \<Longrightarrow> xs = [x]"
  by (cases xs) (auto dest: equalityD1 simp: subset_singleton_iff)

lemma rows1: "snapshot_rows (session_db db1) 12 user1 1 zero_uuid = [(clip1, clip_row1 10 1)]"
proof -
  have "clip1 \<noteq> zero_uuid" by (simp add: clip1_def zero_uuid_def)
  then have "set (snapshot_rows (session_db db1) 12 user1 1 zero_uuid) = {(clip1, clip_row1 10 1)}"
    using zero_uuid_least [OF sample_uuids(1)]
    by (auto simp: session_db_def snapshot_match_def clip_row1_def split: if_splits)
  moreover have "distinct (snapshot_rows (session_db db1) 12 user1 1 zero_uuid)"
    using distinct_snapshot_rows [of "session_db db1" 12 user1 1 zero_uuid] by (simp only: distinct_map)
  ultimately show ?thesis by (intro singleton_list)
qed

definition page1 :: Snapshot_page where
  "page1 = \<lparr>sp_BaseSeq = ''1'', sp_SyncEpoch = epoch1, sp_Items = [clip_of_row clip1 (clip_row1 10 1)],
     sp_NextPageToken = None, sp_ServerTime = 12\<rparr>"

lemma page_page1:
  "SnapshotPage (\<lambda>_. 12) scope1 (sn_Token snap1) [] 1 (store1\<lparr>st_Pool := session_db db1\<rparr>) = Inr page1"
proof -
  have "Token (Encode raw1)" unfolding raw1_def by code_simp
  with rows1 show ?thesis
    by (simp add: SnapshotPage_def snap1_def session_db_def page1_def cut_page_def seconds_def)
qed

lemma trash_after: "MutateClip (\<lambda>_. 20) scope1 clip1 op1 ''trash'' 1 hash1 (store1\<lparr>st_Pool := session_db db1\<rparr>)
    = (Inr receipt2, store2\<lparr>st_Pool := session_db db2\<rparr>)"
  by (simp add: MutateClip_def mutate_tx_def live_receipt_def applyMutation_def scanClip_def bump_def
      clip_of_row_def run_tx_def Let_def statement_defs check_defs sample_defs session_db_def
      hash1_def nonce1_def cipher1_def notify_def store1_def db1_def receipt2_def receipt_row2_def
      clip_row1_def clip_id1_def log_write_def store2_def db2_def trashed1_def add_receipt_def)

theorem rescan_converges_witness:
  "\<exists>changes. make_up changes (entered (sp_Items page1)) clip1 = Some (2, Trashed)"
proof -
  let ?st1 = "store1\<lparr>st_Pool := session_db db1\<rparr>" and ?st = "store2\<lparr>st_Pool := session_db db2\<rparr>"
  let ?s = "\<lparr>next_seq = 2, min_available_seq = 1, ciphertext_bytes = 20, item_count = 1\<rparr>"
  have const: "mono (\<lambda>_. t :: time)" for t by (simp add: mono_def)
  have syn: "synced 10 store1" by (rule run_synced [OF sample_run1 sample_synced])
  have "scan scope1 (sn_Token snap1) ''1'' [] 11 ?st1 (sp_Items page1) ((\<lambda>_. 12) readings) ?st1"
    by (rule scan.last_page [OF reaches.start const _ page_page1]) (simp_all add: page1_def)
  then have scan: "scan scope1 (sn_Token snap1) (sn_BaseSeq snap1) [] ((\<lambda>_. 11) readings) ?st1
      (sp_Items page1) 12 ?st1" by (simp add: snap1_def)
  have "sys_step 12 ?st1 ((\<lambda>_. 20) readings) ?st"
    by (rule sys_step.mutate [OF trash_after const]) simp
  then have run: "reaches 12 ?st1 20 ?st" by (simp add: reaches.step [OF reaches.start])
  have now: "sync_inv (st_Pool ?st)"
  proof -
    have "since store1 11 ?st1"
      using run_since [OF reaches.step [OF reaches.start sys_step.snapshot [OF begin1 const]] syn] by simp
    from srv.run [OF run since_later [OF this]] show ?thesis by (simp add: since_def synced_def)
  qed
  have s: "fmlookup (user_sync_state (st_Pool ?st)) (sc_UserID scope1) = Some ?s" by (simp add: session_db_def)
  have "\<exists>page. Changes (\<lambda>_. 30) scope1 epoch1 1 1 ?st = Inr page"
    using Changes_eq [OF user_log_ok [OF now s] s, where ss = "\<lparr>server_id = epoch1, sync_epoch = epoch1\<rparr>" and after = 1]
    by (simp add: session_db_def)
  then obtain page where served: "Changes (\<lambda>_. 30) scope1 (sn_SyncEpoch snap1) 1 1 ?st = Inr page"
    by (auto simp: snap1_def)
  have base: "Seq (sn_BaseSeq snap1) = Some 1" by (simp add: snap1_def) code_simp
  have le: "(10 :: time) \<le> (\<lambda>_. 11) 0" by simp
  have "clip1 \<noteq> zero_uuid" by (simp add: clip1_def zero_uuid_def)
  moreover have "clip_map (st_Pool ?st) user1 clip1 = Some (2, Trashed)" "life_of (st_Pool ?st) user1 clip1 = Trashed"
    "\<not> expired_by 20 (st_Pool ?st) user1 clip1"
    by (simp_all add: clip_map_def tip_def life_of_def session_db_def trashed1_def clip_row1_def expired_by_def hours_def seconds_def)
  moreover from rescan_converges [OF syn begin1 const le scan run base served s, of 2] obtain changes where
    "\<forall>c. UUID c \<longrightarrow> c \<noteq> zero_uuid \<longrightarrow> make_up changes (entered (sp_Items page1)) c = clip_map (st_Pool ?st) user1 c
      \<or> make_up changes (entered (sp_Items page1)) c = None \<and> (life_of (st_Pool ?st) user1 c = Purged
          \<or> expired_by 20 (st_Pool ?st) user1 c)" by auto
  ultimately show ?thesis using sample_uuids(1) by (metis life.distinct)
qed

end
