(* ===== verification/Quota.thy ===== *)
theory Quota
  imports Guarantees
begin

text \<open>
  The quota of an account: only the creation of a clip adds to what is stored, and it refuses
  what would go beyond the limits of the configuration.
\<close>

definition stored_bytes :: "DB \<Rightarrow> uuid \<Rightarrow> int" where
  "stored_bytes db u = (\<Sum>c\<in>clip_set db u. clip_bytes (fmlookup (clips db) (u, c)))"

definition within_quota :: "Store \<Rightarrow> bool" where
  "within_quota st \<longleftrightarrow>
     (\<forall>u. int (card (clip_set (st_Pool st) u)) \<le> MaxItems (st_Cfg st)
        \<and> stored_bytes (st_Pool st) u \<le> MaxCiphertextBytes (st_Cfg st))"

section \<open>Operations that add no clip\<close>

definition no_more :: "DB \<Rightarrow> DB \<Rightarrow> bool" where
  "no_more db db' \<longleftrightarrow>
     (\<forall>k r'. fmlookup (clips db') k = Some r' \<longrightarrow>
        (\<exists>r. fmlookup (clips db) k = Some r \<and> c_ciphertext r' = c_ciphertext r))"

lemma no_more_same: "clips db' = clips db \<Longrightarrow> no_more db db'"
  by (simp add: no_more_def)

lemma no_more_stored:
  assumes "no_more db db'"
  shows "card (clip_set db' u) \<le> card (clip_set db u)" and "stored_bytes db' u \<le> stored_bytes db u"
proof -
  have sub: "clip_set db' u \<subseteq> clip_set db u"
    using assms by (fastforce simp: clip_set_def has_row_iff no_more_def)
  then show "card (clip_set db' u) \<le> card (clip_set db u)" by (intro card_mono) simp_all
  have "clip_bytes (fmlookup (clips db') (u, c)) = clip_bytes (fmlookup (clips db) (u, c))"
    if "c \<in> clip_set db' u" for c
    using assms that by (fastforce simp: clip_set_def has_row_iff no_more_def clip_bytes_def)
  then have "stored_bytes db' u = (\<Sum>c\<in>clip_set db' u. clip_bytes (fmlookup (clips db) (u, c)))"
    unfolding stored_bytes_def by (intro sum.cong) simp_all
  also have "\<dots> \<le> stored_bytes db u"
    unfolding stored_bytes_def using sub by (intro sum_mono2) (simp_all add: clip_bytes_def split: option.split)
  finally show "stored_bytes db' u \<le> stored_bytes db u" .
qed

lemma no_more_quota:
  assumes "no_more (st_Pool st) (st_Pool st')" and "st_Cfg st' = st_Cfg st" and "within_quota st"
  shows "within_quota st'"
  unfolding within_quota_def
proof
  fix u
  from assms(3) have "int (card (clip_set (st_Pool st) u)) \<le> MaxItems (st_Cfg st)"
    "stored_bytes (st_Pool st) u \<le> MaxCiphertextBytes (st_Cfg st)" by (simp_all add: within_quota_def)
  with no_more_stored [OF assms(1), of u] assms(2)
  show "int (card (clip_set (st_Pool st') u)) \<le> MaxItems (st_Cfg st')
      \<and> stored_bytes (st_Pool st') u \<le> MaxCiphertextBytes (st_Cfg st')" by auto
qed

lemma same_content_ciphertext: "same_content r r' \<Longrightarrow> c_ciphertext r' = c_ciphertext r"
  unfolding same_content_def by (drule arg_cong [of _ _ c_ciphertext]) simp

lemma log_step_clips:
  assumes "log_step u c r i e db db'"
  shows "fmlookup (clips db') k = (if k = (u, c) then r else fmlookup (clips db) k)"
proof -
  from assms obtain s' where "db' = log_write u c s' r i e db" unfolding log_step_def by blast
  then show ?thesis by (simp add: tab)
qed

lemma log_step_content:
  "log_step u c (Some r) i e db db' \<Longrightarrow> fmlookup (clips db) (u, c) = Some r0 \<Longrightarrow> same_content r0 r"
  unfolding log_step_def by blast

lemma log_step_counts:
  assumes "log_step u c r i e db db'" and "fmlookup (user_sync_state db) u = Some s"
  obtains s' where "fmlookup (user_sync_state db') u = Some s'" and "sync_in_range s'"
    and "item_count s' = item_count s + row_count r - row_count (fmlookup (clips db) (u, c))"
    and "ciphertext_bytes s' = ciphertext_bytes s + clip_bytes r - clip_bytes (fmlookup (clips db) (u, c))"
proof -
  from assms(1) obtain s0 s' where "fmlookup (user_sync_state db) u = Some s0" "db' = log_write u c s' r i e db"
    "sync_in_range s'" "item_count s' = item_count s0 + row_count r - row_count (fmlookup (clips db) (u, c))"
    "ciphertext_bytes s' = ciphertext_bytes s0 + clip_bytes r - clip_bytes (fmlookup (clips db) (u, c))"
    unfolding log_step_def by blast
  with assms(2) show thesis by (intro that [of s']) (simp_all add: tab)
qed

lemma log_step_no_more:
  assumes "log_step u c r i e db db'" and "fmlookup (clips db) (u, c) = Some r0"
  shows "no_more db db'"
  unfolding no_more_def
proof (intro allI impI)
  fix k r' assume r': "fmlookup (clips db') k = Some r'"
  show "\<exists>r. fmlookup (clips db) k = Some r \<and> c_ciphertext r' = c_ciphertext r"
  proof (cases "k = (u, c)")
    case True
    with r' log_step_clips [OF assms(1)] have "r = Some r'" by simp
    with log_step_content [of u c r' i e db db', OF _ assms(2)] assms True show ?thesis
      by (simp add: same_content_ciphertext)
  next
    case False
    with r' log_step_clips [OF assms(1)] show ?thesis by simp
  qed
qed

lemma MutateClip_no_more:
  assumes "MutateClip clk scope c op kind v h st = (x, st')" and inv: "sync_inv (st_Pool st)"
  shows "no_more (st_Pool st) (st_Pool st')"
  using assms(1)
proof (cases rule: MutateClip_cases)
  case (fresh receipt db)
  from fresh(2) show ?thesis
  proof (cases rule: mutate_tx_cases)
    case (fresh db1 r)
    from applyMutation_step [OF inv fresh(3)] have "no_more (st_Pool st) db1"
      by (auto simp: mutated_def Let_def intro: log_step_no_more)
    with fresh(6) \<open>st' = _\<close> show ?thesis by (simp add: add_receipt_def no_more_def)
  qed simp
qed (simp_all add: no_more_same)

lemma purgeUserExpired_no_more:
  assumes "purgeUserExpired clk u st = (x, st')" and "mono clk"
  shows "no_more (st_Pool st) (st_Pool st')"
proof (cases x)
  case (Inl e)
  with assms(1) show ?thesis by (simp add: purgeUserExpired_def res no_more_same)
next
  case (Inr n)
  show ?thesis
    using purgeUserExpired_Inr(3) [OF assms(1) [unfolded Inr] assms(2)] by (auto simp: no_more_def split: if_splits)
qed

lemma RetainEvents_no_more: "RetainEvents clk st = (x, st') \<Longrightarrow> no_more (st_Pool st) (st_Pool st')"
  by (auto simp: RetainEvents_def run_tx_def retain_tx_def Let_def no_more_def split: if_splits)

section \<open>Creation\<close>

lemma CreateClip_quota:
  assumes "CreateClip clk scope env nonce ct h st = (x, st')" and inv: "sync_inv (st_Pool st)"
    and old: "within_quota st"
  shows "within_quota st'"
  using assms(1)
proof (cases rule: CreateClip_cases)
  case (fresh res db)
  let ?u = "sc_UserID scope" and ?cfg = "st_Cfg st"
  from create_tx_step [OF fresh(3,2)] obtain i r e where
    step: "log_step ?u (env_ID env) (Some r) i e (st_Pool st) db" and ct: "c_ciphertext r = ct" by blast
  from fresh(2,3) obtain s where s: "fmlookup (user_sync_state (st_Pool st)) ?u = Some s"
    and lim: "item_count s + 1 \<le> MaxItems ?cfg" "i64 (ciphertext_bytes s + int (length ct)) \<le> MaxCiphertextBytes ?cfg"
    and new: "fmlookup (clip_ids (st_Pool st)) (?u, env_ID env) = None"
    by (auto simp: create_tx_def Let_def not_less split: if_splits option.splits)
  from new have "fmlookup (clips (st_Pool st)) (?u, env_ID env) = None"
    by (metis inv sync_inv_clip not_None_eq)
  with log_step_counts [OF step s] ct obtain s' where s': "fmlookup (user_sync_state db) ?u = Some s'"
    "sync_in_range s'" "item_count s' = item_count s + 1" "ciphertext_bytes s' = ciphertext_bytes s + int (length ct)"
    by (auto simp: row_count_def clip_bytes_def)
  have "int (card (clip_set db v)) \<le> MaxItems ?cfg \<and> stored_bytes db v \<le> MaxCiphertextBytes ?cfg" for v
  proof (cases "v = ?u")
    case True
    from log_step_inv [OF step inv] s'(1) have "counts_ok db ?u s'" by (auto dest: sync_invD simp: user_inv_def)
    moreover have "i64 (ciphertext_bytes s') = ciphertext_bytes s'"
      using s'(2) by (simp add: sync_in_range_def)
    ultimately show ?thesis using lim s'(3,4) True by (simp add: counts_ok_def stored_bytes_def)
  next
    case False
    with log_step_clips [OF step] have "fmlookup (clips db) (v, c) = fmlookup (clips (st_Pool st)) (v, c)" for c
      by simp
    then have "clip_set db v = clip_set (st_Pool st) v" "stored_bytes db v = stored_bytes (st_Pool st) v"
      by (simp_all add: clip_set_def has_row_iff stored_bytes_def)
    with old show ?thesis by (simp add: within_quota_def)
  qed
  with fresh(4) show ?thesis by (simp add: within_quota_def)
qed (use old in simp_all)

section \<open>The contract\<close>

text \<open>Every step keeps the invariants, the configuration and what else \<open>since\<close> says.\<close>

lemma since_here: "synced t st \<Longrightarrow> since st T st' \<Longrightarrow> synced T st' \<and> st_Cfg st' = st_Cfg st"
  by (simp add: since_def)

interpretation quota: server_contract "\<lambda>t st. synced t st \<and> within_quota st"
proof
  fix t t' :: time and st :: Store
  assume "synced t st \<and> within_quota st" "t \<le> t'"
  then show "synced t' st \<and> within_quota st" by (auto simp: synced_def intro: events_timed_later)
next
  fix t st u
  assume "synced t st \<and> within_quota st"
  then show "synced t (notify u st) \<and> within_quota (notify u st)" by (simp add: synced_def within_quota_def)
next
  fix t st u x st' and clk :: clock
  assume I: "synced t st \<and> within_quota st" and clk: "mono clk" "t \<le> clk 0"
    and p: "purgeUserExpired clk u st = (x, st')"
  from I srv.purge_user [OF synced_start clk p] have "since st (clk readings) st'" by simp
  with I no_more_quota [OF purgeUserExpired_no_more [OF p clk(1)]]
  show "synced (clk readings) st' \<and> within_quota st'" by (simp add: since_def)
next
  fix t st x st' and clk :: clock
  assume I: "synced t st \<and> within_quota st" and clk: "mono clk" "t \<le> clk 0" and p: "RetainEvents clk st = (x, st')"
  from I srv.retain [OF synced_start clk p] have "since st (clk readings) st'" by simp
  with I no_more_quota [OF RetainEvents_no_more [OF p]]
  show "synced (clk readings) st' \<and> within_quota st'" by (simp add: since_def)
next
  fix t st and clk :: clock
  assume I: "synced t st \<and> within_quota st" and clk: "mono clk" "t \<le> clk 0"
  from I srv.cleanup [OF synced_start clk] have "since st (clk readings) (CleanupAux clk st)" by simp
  with I no_more_quota [of st "CleanupAux clk st"]
  show "synced (clk readings) (CleanupAux clk st) \<and> within_quota (CleanupAux clk st)"
    by (simp add: since_def no_more_same CleanupAux_def)
next
  fix t and st st' :: Store
  assume I: "synced t st \<and> within_quota st" and q: "quiet (st_Pool st) (st_Pool st')" "st_Cfg st' = st_Cfg st"
  from I srv.quietly [OF synced_start q] have "since st t st'" by simp
  with I q no_more_quota [of st st'] show "synced t st' \<and> within_quota st'"
    by (simp add: since_def quiet_def log_frame_def no_more_same)
next
  fix t st scope env nonce ciphertext h x st' and clk :: clock
  assume I: "synced t st \<and> within_quota st" and clk: "mono clk" "t \<le> clk 0"
    and c: "CreateClip clk scope env nonce ciphertext h st = (x, st')"
  from I srv.created [OF synced_start clk c] have "since st (clk readings) st'" by simp
  with I CreateClip_quota [OF c] show "synced (clk readings) st' \<and> within_quota st'"
    by (simp add: since_def synced_def)
next
  fix t st scope c op kind v h y st' and clk :: clock
  assume I: "synced t st \<and> within_quota st" and clk: "mono clk" "t \<le> clk 0"
    and m: "MutateClip clk scope c op kind v h st = (y, st')"
  from I srv.mutated_by [OF synced_start clk m] have "since st (clk readings) st'" by simp
  with I no_more_quota [OF MutateClip_no_more [OF m]] show "synced (clk readings) st' \<and> within_quota st'"
    by (simp add: since_def synced_def)
qed

text \<open>
  C15: The quota holds.  From a state in which no account stores more clips, or more bytes of
  ciphertext, than the configuration allows, the server reaches only such states, whatever its
  clients do: what counts is what the tables really hold, not the counters, and the additions
  are checked before they can wrap around.
\<close>

theorem quota_holds:
  assumes "synced t0 st0" and "within_quota st0" and "reaches t0 st0 t st"
  shows "int (card (clip_set (st_Pool st) u)) \<le> MaxItems (st_Cfg st0)
    \<and> (\<Sum>c\<in>clip_set (st_Pool st) u. clip_bytes (fmlookup (clips (st_Pool st)) (u, c))) \<le> MaxCiphertextBytes (st_Cfg st0)"
proof -
  have "within_quota st" using quota.run [OF assms(3)] assms(1,2) by simp
  moreover have "st_Cfg st = st_Cfg st0" using run_since [OF assms(3,1)] by (simp add: since_def)
  ultimately show ?thesis by (simp add: within_quota_def stored_bytes_def)
qed

theorem quota_holds_witness:
  "int (card (clip_set db2 user1)) \<le> 10000
    \<and> (\<Sum>c\<in>clip_set db2 user1. clip_bytes (fmlookup (clips db2) (user1, c))) \<le> 67108864"
proof -
  have "within_quota store0"
    by (simp add: within_quota_def clip_set_def has_row_def stored_bytes_def) (simp add: store0_def cfg1_def)
  from quota_holds [OF sample_synced this sample_run, of user1] show ?thesis by (simp add: store0_def cfg1_def)
qed

end
