(* ===== verification/Shapes.thy ===== *)
theory Shapes
  imports Errors
begin

text \<open>
  The types of the responses: which status and which kind of body each endpoint answers with,
  and what an error looks like.
\<close>

text \<open>Whether a request registered a new clip.\<close>

definition created :: "Handler \<Rightarrow> Handler \<Rightarrow> bool" where
  "created h h' \<longleftrightarrow> fmdom (clip_ids (st_Pool (h_store h'))) \<noteq> fmdom (clip_ids (st_Pool (h_store h)))"

text \<open>The status of a success.  That of an upload depends on whether the clip is a new one.\<close>

fun success_status :: "bool \<Rightarrow> endpoint \<Rightarrow> int set" where
  "success_status new RegisterE = {201}"
| "success_status new PutVaultE = {201}"
| "success_status new BeginSnapshotE = {201}"
| "success_status new CreateClipE = {if new then 201 else 200}"
| "success_status new EmailCodeE = {204}"
| "success_status new LogoutE = {204}"
| "success_status new ChangePasswordE = {204}"
| "success_status new (RevokeDeviceE i) = {204}"
| "success_status new PutPasswordWrapE = {204}"
| "success_status new WebsocketE = {101}"
| "success_status new NoRoute = {}"
| "success_status new _ = {200}"

definition success_body :: "endpoint \<Rightarrow> payload option \<Rightarrow> bool" where
  "success_body e body \<longleftrightarrow>
     (case (e, body) of
        (Health, Some (PStage s)) \<Rightarrow> s = ''ready'' \<or> s = ''skeleton''
      | (Readyz, Some (PStage s)) \<Rightarrow> s = ''ready''
      | (Info, Some (PInfo i)) \<Rightarrow> True
      | (RegisterE, Some (PAuth a)) \<Rightarrow> True
      | (EmailCodeE, None) \<Rightarrow> True
      | (LoginE, Some (PAuth a)) \<Rightarrow> True
      | (RefreshE, Some (PTokens t)) \<Rightarrow> True
      | (LogoutE, None) \<Rightarrow> True
      | (ChangePasswordE, None) \<Rightarrow> True
      | (ListDevicesE, Some (PDevices ds)) \<Rightarrow> True
      | (RevokeDeviceE i, None) \<Rightarrow> UUID i
      | (GetVaultE, Some (PVault v)) \<Rightarrow> True
      | (PutVaultE, Some (PVault v)) \<Rightarrow> UUID (ve_VaultID v) \<and> ve_FormatVersion v = 1 \<and> ve_KeyEpoch v = 1
      | (PutPasswordWrapE, None) \<Rightarrow> True
      | (CreateClipE, Some (PReceipt r)) \<Rightarrow> True
      | (ListClipsE, Some (PClips p)) \<Rightarrow> True
      | (GetClipE i, Some (PClip c)) \<Rightarrow> UUID i \<and> env_ID c = i
      | (TrashClipE i, Some (PReceipt r)) \<Rightarrow> UUID i
      | (RestoreClipE i, Some (PReceipt r)) \<Rightarrow> UUID i
      | (PurgeClipE i, Some (PReceipt r)) \<Rightarrow> UUID i
      | (ChangesE, Some (PChanges p)) \<Rightarrow> True
      | (BeginSnapshotE, Some (PSnapshot s)) \<Rightarrow> True
      | (SnapshotPageE t, Some (PSnapshotPage p)) \<Rightarrow> True
      | (WebsocketE, None) \<Rightarrow> True
      | _ \<Rightarrow> False)"

text \<open>The headers: a JSON body is announced as one, and a clip carries its version as ETag.\<close>

definition success_headers :: "Response \<Rightarrow> bool" where
  "success_headers rs \<longleftrightarrow>
     (case rs_Body rs of
        None \<Rightarrow> rs_Header rs = []
      | Some b \<Rightarrow> set json_headers \<subseteq> set (rs_Header rs) \<and>
          (\<forall>c. b = PClip c \<longrightarrow> (''ETag'', quote # FormatInt (cl_Version c) @ [quote]) \<in> set (rs_Header rs)))"

definition success :: "bool \<Rightarrow> endpoint \<Rightarrow> Response \<Rightarrow> bool" where
  "success new e rs \<longleftrightarrow> rs_Status rs \<in> success_status new e \<and> success_body e (rs_Body rs) \<and> success_headers rs"

text \<open>A typed response: an error of the table, announced as JSON, or a success of the endpoint.\<close>

definition typed_as :: "bool \<Rightarrow> endpoint \<Rightarrow> Response \<Rightarrow> bool" where
  "typed_as new e rs \<longleftrightarrow>
     (case rs_Body rs of
        Some (PError c ds) \<Rightarrow> (rs_Status rs, c) \<in> set error_table \<and> set json_headers \<subseteq> set (rs_Header rs)
      | _ \<Rightarrow> success new e rs)"

text \<open>What the handlers show for themselves: the table is theory Errors.\<close>

definition shaped :: "bool \<Rightarrow> endpoint \<Rightarrow> Response \<Rightarrow> bool" where
  "shaped new e rs \<longleftrightarrow> (\<exists>hs err. rs = writeError hs err) \<or> success new e rs"

lemma success_no_error [simp]: "\<not> success_body e (Some (PError c ds))"
  by (cases e) (simp_all add: success_body_def)

lemma typed_shaped:
  assumes "shaped new e rs" and "contract_ok rs"
  shows "typed_as new e rs"
proof (cases "\<exists>hs err. rs = writeError hs err")
  case True
  with assms(2) show ?thesis by (auto simp: typed_as_def writeError_def writeJSON_def contract_ok_def)
next
  case False
  with assms(1) have ok: "success new e rs" by (auto simp: shaped_def)
  then have "rs_Body rs \<noteq> Some (PError c ds)" for c ds by (auto simp: success_def)
  with ok show ?thesis by (auto simp: typed_as_def split: option.split payload.split)
qed

lemma typed_error [simp]: "shaped new e (writeError hs err)"
  by (auto simp: shaped_def)

lemma typed_refuse [simp]: "shaped new e (fst (refuse err h))"
  by (simp add: refuse_def)

lemma typed_reply: "(\<And>x st. res = (Inr x, st) \<Longrightarrow> shaped new e (ok x)) \<Longrightarrow> shaped new e (fst (reply ok h res))"
  by (auto simp: reply_def split: err_splits)

lemma typed_gate: "gateKey now key n hs = (Some rs, hs') \<Longrightarrow> shaped new e rs"
  by (auto simp: gateKey_def split: if_splits)

lemma typed_gated: "(\<And>h. shaped new e (fst (f ev r h))) \<Longrightarrow> shaped new e (fst (gated n f ev r h))"
  by (auto simp: gated_def gateIP_def dest: typed_gate split: err_splits)

lemma typed_auth: "(\<And>scope h. shaped new e (fst (f ev r scope h)) \<or> P (fst (f ev r scope h))) \<Longrightarrow>
    shaped new e (fst (auth f ev r h)) \<or> P (fst (auth f ev r h))"
  by (auto simp: auth_def Let_def split: err_splits)

lemma typed_JSON:
  "s \<in> success_status new e \<Longrightarrow> success_body e (Some p) \<Longrightarrow>
     (\<And>c. p = PClip c \<Longrightarrow> (''ETag'', quote # FormatInt (cl_Version c) @ [quote]) \<in> set hs) \<Longrightarrow>
     shaped new e (writeJSON hs s p)"
  by (auto simp: shaped_def success_def success_headers_def writeJSON_def)

lemma typed_empty:
  "s \<in> success_status new e \<Longrightarrow> success_body e None \<Longrightarrow> shaped new e \<lparr>rs_Status = s, rs_Header = [], rs_Body = None\<rparr>"
  by (simp add: shaped_def success_def success_headers_def)

lemma typed_noContent: "204 \<in> success_status new e \<Longrightarrow> success_body e None \<Longrightarrow> shaped new e noContent"
  unfolding noContent_def by (rule typed_empty)

lemmas typed_intros = typed_reply typed_JSON typed_noContent typed_empty

lemma GetClip_ID: "GetClip clk scope i st = Inr c \<Longrightarrow> env_ID c = i"
  by (auto simp: GetClip_def scanClip_def clip_of_row_def comp_def split: if_splits bool.splits option.splits)

lemma typed_public:
  "shaped new Health (fst (health ev r h))" "shaped new Readyz (fst (readyz ev r h))"
  "shaped new Info (fst (serverInfo ev r h))" "shaped new RegisterE (fst (register_passed ev r h))"
  "shaped new EmailCodeE (fst (emailCode_passed ev r h))" "shaped new RefreshE (fst (refresh ev r h))"
  "shaped new LoginE (fst (login_passed ev r h))"
  by (auto simp: health_def readyz_def serverInfo_def register_passed_def emailCode_passed_def refresh_def
      login_passed_def Let_def success_body_def intro!: typed_intros dest: typed_gate split: err_splits)

lemma typed_authed:
  "shaped new LogoutE (fst (logout ev r scope h))" "shaped new ChangePasswordE (fst (changePassword ev r scope h))"
  "shaped new ListDevicesE (fst (listDevices ev r scope h))" "shaped new (RevokeDeviceE i) (fst (revokeDevice i ev r scope h))"
  "shaped new GetVaultE (fst (getVault ev r scope h))" "shaped new PutVaultE (fst (putVault ev r scope h))"
  "shaped new PutPasswordWrapE (fst (putPasswordWrap ev r scope h))"
  "shaped new ListClipsE (fst (listClips ev r scope h))" "shaped new (GetClipE i) (fst (getClip i ev r scope h))"
  "shaped new (TrashClipE i) (fst (trashClip i ev r scope h))" "shaped new (RestoreClipE i) (fst (restoreClip i ev r scope h))"
  "shaped new (PurgeClipE i) (fst (purgeClip i ev r scope h))" "shaped new ChangesE (fst (changes ev r scope h))"
  "shaped new BeginSnapshotE (fst (beginSnapshot ev r scope h))" "shaped new (SnapshotPageE i) (fst (snapshotPage i ev r scope h))"
  by (auto simp: authed_defs trashClip_def restoreClip_def purgeClip_def Let_def success_body_def
      intro!: typed_intros dest: GetClip_ID split: err_splits)

text \<open>An upload registers a clip exactly when it succeeds with 201.\<close>

lemma CreateClip_registers:
  assumes "CreateClip clk scope env nonce ct hash st = (Inr res, st')"
  shows "cr_Created res \<longleftrightarrow> fmdom (clip_ids (st_Pool st')) \<noteq> fmdom (clip_ids (st_Pool st))"
  using assms
proof (cases rule: CreateClip_cases)
  case (fresh res' db)
  then obtain s where "fmlookup (clip_ids (st_Pool st)) (sc_UserID scope, env_ID env) = None"
    by (auto simp: create_tx_def Let_def split: if_splits option.splits)
  moreover obtain i r e where "log_step (sc_UserID scope) (env_ID env) (Some r) i e (st_Pool st) db"
    using create_tx_step [OF fresh(3,2)] by blast
  then have "fmlookup (clip_ids db) (sc_UserID scope, env_ID env) = Some i" by (auto simp: log_step_def log_write_def)
  ultimately have "fmdom (clip_ids db) \<noteq> fmdom (clip_ids (st_Pool st))"
    by (auto dest: fmdomI fmdom_notI)
  with fresh show ?thesis by simp
qed auto

lemma typed_reply_state:
  assumes "\<And>x st. res = (Inr x, st) \<Longrightarrow> shaped (created h (h\<lparr>h_store := st\<rparr>)) e (ok x)"
  shows "shaped (created h (snd (reply ok h res))) e (fst (reply ok h res))"
  using assms by (cases res; cases "fst res") (auto simp: reply_def)

lemma typed_receipt:
  "CreateClip clk scope env nonce ct hash (h_store h) = (Inr res, st) \<Longrightarrow>
     shaped (created h (h\<lparr>h_store := st\<rparr>)) CreateClipE (writeJSON [] (if cr_Created res then 201 else 200) (PReceipt rc))"
  by (drule CreateClip_registers) (auto simp: created_def success_body_def intro!: typed_JSON)

text \<open>The handler refuses, or answers with what \<open>CreateClip\<close> has done.\<close>

lemma createClip_answers:
  assumes "\<And>e. P (refuse e h)"
    and "\<And>env nonce ct hash. P (reply (\<lambda>res. writeJSON [] (if cr_Created res then 201 else 200)
      (PReceipt (cr_Receipt res))) h (CreateClip (ev_Clk ev) scope env nonce ct hash (h_store h)))"
  shows "P (createClip ev r scope h)"
  unfolding createClip_def Let_def using assms by (simp split: sum.split option.split)

lemma typed_create: "shaped (created h (snd (createClip ev r scope h))) CreateClipE (fst (createClip ev r scope h))"
proof (rule createClip_answers [where P = "\<lambda>p. shaped (created h (snd p)) CreateClipE (fst p)"], goal_cases)
  case (1 e)
  then show ?case by simp
next
  case (2 env nonce ct hash)
  show ?case by (intro typed_reply_state typed_receipt)
qed

lemma LookupAccess_registry:
  "LookupAccess clk now token st = (x, st') \<Longrightarrow> clip_ids (st_Pool st') = clip_ids (st_Pool st)"
  by (auto simp: LookupAccess_def touch_device_def split: if_splits option.splits prod.splits)

lemma typed_auth_create:
  "shaped (created h (snd (auth createClip ev r h))) CreateClipE (fst (auth createClip ev r h))"
proof -
  obtain x st where look: "LookupAccess (ev_AuthClk ev) (ev_GoClk ev 0)
      (TrimPrefix (Get (rq_Header r) ''Authorization'') ''Bearer '') (h_store h) = (x, st)" by fastforce
  have "created (h\<lparr>h_store := st\<rparr>) h' = created h h'" for h'
    using LookupAccess_registry [OF look] by (simp add: created_def)
  with typed_create [of "h\<lparr>h_store := st\<rparr>" ev r] look show ?thesis
    by (cases x) (simp_all add: auth_def Let_def)
qed

text \<open>
  C23: Every response has the type its endpoint announces: an error body whose status and code
  are a pair of the table, or the one status and the one kind of body the endpoint succeeds with.
  An upload succeeds with 201 exactly when it registers a new clip, and with 200 when it repeats
  one; a clip that is read is the one asked for, with its version as its ETag.  The external
  account service is taken to fail within the table.  The one other response is that of the
  WebSocket library when it refuses an upgrade.
\<close>

theorem response_types:
  assumes "verifier_listed (ev_External ev)"
  shows "typed_as (created h (snd (serve ev r h))) (route r) (fst (serve ev r h))
    \<or> route r = WebsocketE \<and> ev_Socket ev = Inl (fst (serve ev r h))"
proof -
  have plain: "shaped new e (fst (auth f ev r h))" if "\<And>scope h. shaped new e (fst (f ev r scope h))" for new e f
    using typed_auth [of new e f ev r "\<lambda>_. False" h] that by simp
  have socket: "shaped new WebsocketE (fst (websocket ev r scope h)) \<or> ev_Socket ev = Inl (fst (websocket ev r scope h))"
    for new scope h by (auto simp: websocket_def success_body_def intro!: typed_empty split: sum.split)
  have "shaped (created h (snd (serve ev r h))) (route r) (fst (serve ev r h))
      \<or> route r = WebsocketE \<and> ev_Socket ev = Inl (fst (serve ev r h))"
    unfolding serve_def
    using typed_auth [of _ WebsocketE websocket ev r "\<lambda>rs. ev_Socket ev = Inl rs" h] socket typed_auth_create
    by (cases "route r") (auto simp: register_def emailCode_def login_def intro!: plain typed_authed typed_public typed_gated)
  with served_in_contract [OF assms, of r h] show ?thesis by (auto intro: typed_shaped)
qed

text \<open>The logout of the sample session.\<close>

theorem response_types_witness:
  "typed_as (created handler1 (snd (serve env1 logout1 handler1))) LogoutE (fst (serve env1 logout1 handler1))"
  using response_types [of env1 handler1 logout1] by (simp add: verifier_listed_def)

end
