(* ===== verification/Spec2Isabelle.thy ===== *)
theory Spec2Isabelle
  imports EndToEnd Limits Secrecy Names Deployment Rescan Quota Shapes
begin

text \<open>
  The server of onlineclipboard, an end-to-end encrypted clipboard that the devices of an account
  share: a Go program (src/server) on a PostgreSQL database.  Clients encrypt; the server stores
  sealed clips, orders their changes in one log per account, and lets every device follow the log.
  This development models the Go packages of the server as HOL functions on an explicit state and
  proves what makes them correct, each by itself and together.

  The parts and how they interact.  A process (\<open>cmd/clipd\<close>) loads its configuration from the
  environment, migrates the database, and serves HTTP.  A request passes the multiplexer, the rate
  limiter or the authentication wrapper, and the checks of its handler (\<open>httpapi\<close>, \<open>canon\<close>), and
  becomes one operation of the store, which is one transaction (\<open>store\<close>).  A transaction that
  changes a clip takes the next sequence number of the account and appends one event; afterwards
  the hub (\<open>notify\<close>) tells the account's live connections.  Background jobs purge expired trash,
  drop old events and expired rows.  Errors are values (\<open>apperr\<close>) that the handler turns into
  responses.

  How code becomes HOL.  A struct is a record with the fields of the code, a function of the code a
  definition of the same name, an error the left side of a sum, a database table a finite map from
  the primary key to rows, an SQL statement a function that checks the CHECK, unique and foreign
  key constraints the migrations declare; a transaction is a function of the database that either
  yields a new one or fails and leaves it (\<open>run_tx\<close>).  Strings are byte strings (\<open>char list\<close>),
  raw bytes are \<open>8 word\<close>, int64 values are integers with their range checked or wrapped where
  the code or the database does so.  Clocks are functions from the number of a reading to a time,
  so the successive calls of \<open>clock_timestamp()\<close> and \<open>time.Now()\<close> may differ; random bytes and
  identifiers are arguments.

  The theories, from the library to the whole.
  \<^item> Prelude: basic types, the bind of fallible steps, tables.  GoStd, GoTime, Base64, Sha256, Json,
    Marshal, Float64, Aes: the parts of Go's standard library the server uses, written out:
    strings and UTF-8, integers and their decimal forms, RFC 3339, base64url, SHA-256, the JSON
    decoder and encoder with their round trip, double precision numbers, HMAC, HKDF, AES-GCM.
    The locales \<open>encoder\<close> and \<open>codec\<close> (Base64) are the interface of an encoding, interpreted for
    base64url values, tokens and sequence numbers.
  \<^item> Apperr, Config, Hub, Passwd, Canon: the packages apperr, config (its record), notify, passwd,
    canon.  Settings is the rest of config: \<open>Load\<close>, its helpers and \<open>RedactURL\<close>.
  \<^item> Schema, AuthSql: the tables and the statements on them.  Store, Clips, Listing, Sync, Jobs, Auth:
    package store, by its files store.go, clips.go, sync.go, jobs.go, auth.go.
  \<^item> SyncInv, Lifecycle, Evolution, Retention: the invariant of the synchronisation tables, the
    abstract step \<open>log_step\<close> that every change of a clip refines, and what any number of steps
    may change.  AuthFrame, AuthQuiet: the invariant of the account tables, and that every operation on
    accounts leaves clips and logs alone.
  \<^item> Pager, Feed: keyset pagination as the locale \<open>pager\<close>, interpreted for the listing of clips and
    applied to the change feed; what a client that polls the feed reads.
  \<^item> System, Guarantees, Access, Replica, Rescan, Quota: the server as a transition system over all operations,
    jobs and socket events (\<open>sys_step\<close>, \<open>reaches\<close>), with the locale \<open>server_contract\<close> for what
    survives every step; what holds over every run; the refinement of the replicated map of clips,
    both by following the feed and by rebuilding it from a snapshot session; and the quota.  The locales \<open>purge_contract\<close> and \<open>job_contract\<close> are its part for the jobs.
  \<^item> Http, Router: package httpapi: decoding, checks, the rate limiter, every handler, the
    multiplexer.  Serving, Errors, Shapes, Limits, Isolation, Secrecy: every request is a run; the
    error contract; the types of responses; the sliding window; accounts do not change and cannot
    learn of each other.
  \<^item> Clipcrypto, Uploads, EndToEnd: package clipcrypto with the locale \<open>sealing\<close> and its four
    interpretations; a clip that is uploaded is the clip that is downloaded; both together, and the
    handlers accept exactly the sizes the format produces.
  \<^item> Migrate, Mailer, Extauth, Clipd: packages migrate, mailer, extauth and the command.  Deployment
    and this theory: the running program, with requests, jobs and administrative commands in any
    order.
  \<^item> Sample: the small concrete server on which most properties are applied once.

  What the properties show, from the outside in.  The deployed program keeps its database
  consistent and answers within the error contract; what it is wired with is complete; the
  administrator's command does what it says.  A replica that follows the feed converges, and so
  does one rebuilt from a scan while the server goes on; no account exceeds its quota; no update
  is lost; a page of the feed is contiguous, whatever commits while it is read, and a refused cursor is exactly one that cannot be
  served; a mutation with a version succeeds at most once, and one that is repeated, or a creation
  that is, is answered from its record; a purged clip stays purged; the purge job ends.  A token
  authenticates exactly its live session, refreshing rotates it, a new password and a revoked
  device end access for good, and the keys of a vault never change.  Requests are runs of the
  transition system; accounts are isolated in both directions; what one device encrypts every
  device of the account decrypts, and nothing else opens.  Migrations run once, in order; a
  configuration that loads is valid; a code is mailed in at most one well-formed message; the rate
  limiter's bound holds; the external service signs in only active, identified users.

  Bounds and fuel.  \<open>readings\<close> = 400 bounds the clock readings of one transaction: the largest,
  the purge of one user, handles 100 clips with three readings each, and one more.  \<open>PurgeExpired\<close> has
  fuel for its rounds: \<open>PurgeExpired_ends\<close> shows that the number of clips plus one is enough.
  So is it for every round of \<open>RunJobs\<close> (\<open>RunJobs_ends\<close>).
  The JSON parser has fuel twice the length of its input plus one, which \<open>parse_fuel\<close> shows to be
  enough, and the decoder's depth of 10000.  Polling has fuel for its pages; the number of events
  left plus one is enough (\<open>poll_complete\<close>).  Loops over strings and \<open>collapse_under\<close> terminate by
  a measure.

  Assumptions.  A transaction is atomic and serialised by the row locks the code takes.  Some
  operations read with several statements and no lock: the change feed, \<open>LookupAccess\<close>, \<open>GetClip\<close>,
  \<open>SnapshotPage\<close> and the first part of \<open>loginLocal\<close>.  They are one step on one state here, and what
  is said of polling and of scans (\<open>replica_converges\<close>, \<open>rescan_converges\<close>, \<open>no_lost_update\<close>,
  \<open>poll_complete\<close>) is said of pages that are each read from one state.  The feed has a second
  definition with a database per statement (\<open>Changes_read\<close>), and \<open>Changes_page\<close> shows what a page is
  when transactions commit between them.  A request and a round of the jobs are single steps of
  the deployed program (\<open>live\<close>); interleavings inside a round are those of \<open>sys_step\<close>, where every
  transaction is a step of its own.  \<open>smtp.SendMail\<close> is one step: a failure after the message was
  handed over counts as nothing sent.  \<open>ResetPassword\<close> closes the connections of the hub it is
  given; the administrator's process has a hub of its own, which is empty, so on a running server
  the connections of the account stay until their next check of the token; \<open>administered\<close> takes over
  the tables alone, and so has it this way.  Parameters, because their code is not in the
  repository or is I/O: Argon2id, the lower-case tables of Unicode and of PostgreSQL, \<open>url.Parse\<close>,
  the environment and the files, what PostgreSQL does with the text of a migration, the HTTP
  exchange with the account service, which steps of an SMTP session succeed, whether a WebSocket
  upgrade is accepted.  \<open>int64(float64)\<close> is that of amd64.

  Not modelled: \<open>domain/contracts.go\<close>, interfaces that nothing implements through; the texts of
  error messages and log lines; sockets, signals, timeouts and the semaphore that delays key
  derivations; the goroutines that write to WebSockets; failures of the connection to the
  database in the middle of a transaction, which roll it back.  The clients in other languages,
  the OpenAPI document and the deployment files are outside the Go program.
\<close>

section \<open>The program as a whole\<close>

text \<open>
  C1: The deployed program.  A server that has started on a consistent database -- an empty one,
  or one an earlier process has left -- keeps it consistent for ever: whatever requests it
  answers, whatever rounds its jobs make and whatever administrative commands other processes
  run on the database in between, the invariants of the synchronisation and of the account
  tables hold, no account, device, session or vault is lost and no clip's history is rewritten;
  and every response it has sent is within the error contract, whichever account service it was
  configured with (the WebSocket library's own refusal apart).
\<close>

theorem deployed_server:
  assumes start: "startServer p s = (Inr (h0, op), s')"
    and db: "consistent t0 (tables s)" "migrations_keep p s"
    and live: "live op t0 h0 answered t h"
  shows "consistent t (st_Pool (h_store h))
    \<and> account_kept (tables s') (st_Pool (h_store h)) \<and> (\<forall>u. evolves u (tables s') (st_Pool (h_store h)))
    \<and> (\<forall>(ev, r, rs)\<in>set answered. contract_ok rs \<or> route r = WebsocketE \<and> ev_Socket ev = Inl rs)"
proof -
  from startServer_Inr [OF start] obtain cfg where
    apply1: "Apply (p_exec p) (p_files p) (p_server_id p) (p_sync_epoch p) s = (Inr (), s')"
    and h0: "h0 = httpapi_New cfg (op_Store op) True"
    and st: "op_Store op = \<lparr>st_Pool = tables s', st_Cfg = cfg, st_Hub = Some hub_New\<rparr>"
    and ext: "op_External op = (if RegistrationMode cfg = ''external''
      then Some (HTTPVerifier_Verify (w_tbl (p_world p)) (ExternalAuthURL cfg) (p_exchange p)) else None)" by metis
  have pool: "st_Pool (h_store h0) = tables s'" by (simp add: h0 httpapi_New_def st)
  have ok: "consistent t0 (tables s')" using db(1) Apply_keeps [OF apply1 db(2)] by simp
  then have "since (h_store h0) t (h_store h)"
    by (intro live_since [OF live]) (simp add: synced_def pool consistent_def)
  moreover have "verifier_listed (op_External op)" by (simp add: ext verifier_listed_def errs_HTTPVerifier)
  ultimately show ?thesis
    using live_contract [OF live] ok by (simp add: since_def synced_def consistent_def pool)
qed

text \<open>
  C39: What a started server is wired with.  The handler serves with the configuration that was
  loaded, its limits are valid, the database has the identity of the server; registration by
  email has a mailer, and exactly in external mode there is an account service, at an HTTP
  address.  So no operation meets a part that is missing.
\<close>

theorem boot_wired:
  assumes "startServer p s = (Inr (h, op), s')"
  shows "h_ready h \<and> h_store h = op_Store op \<and> st_Cfg (h_store h) = h_cfg h \<and> limits_ok (h_cfg h)
    \<and> server_state (st_Pool (h_store h)) \<noteq> None
    \<and> (RegistrationMode (h_cfg h) = ''email'' \<longrightarrow> op_Mailer op \<noteq> None)
    \<and> (op_External op \<noteq> None \<longleftrightarrow> RegistrationMode (h_cfg h) = ''external'')
    \<and> (RegistrationMode (h_cfg h) = ''external'' \<longrightarrow> parseHTTPURL (p_parse_url p) (ExternalAuthURL (h_cfg h)))"
proof -
  from startServer_Inr [OF assms] obtain cfg where cfg: "loaded p = Inr cfg"
    and apply1: "Apply (p_exec p) (p_files p) (p_server_id p) (p_sync_epoch p) s = (Inr (), s')"
    and h: "h = httpapi_New cfg (op_Store op) True"
    and st: "op_Store op = \<lparr>st_Pool = tables s', st_Cfg = cfg, st_Hub = Some hub_New\<rparr>"
    and mail: "op_Mailer op = mailer_of (p_smtp p) cfg"
    and ext: "op_External op = (if RegistrationMode cfg = ''external''
      then Some (HTTPVerifier_Verify (w_tbl (p_world p)) (ExternalAuthURL cfg) (p_exchange p)) else None)" by metis
  have valid: "limits_ok cfg" "email_ok cfg"
    "RegistrationMode cfg = ''external'' \<longrightarrow> parseHTTPURL (p_parse_url p) (ExternalAuthURL cfg)"
    using Load_sound [OF cfg [unfolded loaded_Inr]] by auto
  have "server_state (tables s') \<noteq> None"
    using apply1 by (auto simp: Apply_def ensureServerState_def Let_def split: prod.splits sum.splits option.splits)
  moreover have "RegistrationMode cfg = ''email'' \<longrightarrow> op_Mailer op \<noteq> None"
    using valid(2) by (auto simp: mail mailer_of_def FromConfig_def email_ok_def)
  ultimately show ?thesis using valid(1,3) by (simp add: h httpapi_New_def st ext)
qed

text \<open>
  C40: Resetting a password from the command line.  \<open>clipd admin reset-password\<close> succeeds only for
  a canonical user name that exists and a password within the policy, read from the first line
  of the input; afterwards the account has the hash of that password and no session of it is
  alive.
\<close>

theorem admin_reset:
  assumes "runAdmin p (''reset-password'' # args) s = (Inr out, s')"
  shows "\<exists>line u r. ReadLine (p_stdin p) = Some line \<and> Password (trim_line_end line)
    \<and> Username (username_arg args []) \<and> fmlookup (users (tables s')) u = Some r
    \<and> u_username r = username_arg args []
    \<and> u_password_hash r = Hash (w_idkey (p_world p)) (f_salt (p_fresh p)) (trim_line_end line)
    \<and> (\<forall>i x. fmlookup (sessions (tables s')) i = Some x \<longrightarrow> s_user_id x = u \<longrightarrow> s_revoked_at x \<noteq> None)"
proof -
  from assms obtain st st1 line where line: "ReadLine (p_stdin p) = Some line" "Password (trim_line_end line)"
    and name: "Username (username_arg args [])"
    and reset: "ResetPassword (p_world p) (p_fresh p) (p_clk p) (username_arg args []) (trim_line_end line) st = (Inr (), st1)"
    and s': "tables s' = st_Pool st1"
    by (auto simp: runAdmin_def resetPassword_def finished_def Let_def
        split: sum.splits prod.splits option.splits if_splits)
  from ResetPassword_sets [OF reset] obtain u r0 where u: "fmlookup (users (st_Pool st)) u = Some r0"
    "u_username r0 = username_arg args []"
    and set: "password_set (p_world p) (p_fresh p) (trim_line_end line) u st1" by blast
  from ResetPassword_quiet [OF reset] u(1) obtain r where "fmlookup (users (st_Pool st1)) u = Some r" "same_user r0 r"
    by (auto simp: quiet_def account_kept_def dest: rows_keptD)
  with u set line name show ?thesis unfolding s' password_set_def same_user_def by auto
qed

section \<open>Examples\<close>

text \<open>A process with the smallest environment, on a new database; and the administrator's.\<close>

definition process1 :: Process where
  "process1 =
     \<lparr>p_env = env_min, p_read_file = (\<lambda>_. None), p_parse_url = (\<lambda>_. None), p_pool_url = (\<lambda>_. True),
      p_ping = True, p_exec = (\<lambda>_ db. Inr db), p_files = files1, p_server_id = op1, p_sync_epoch = epoch1,
      p_new_epoch = epoch1, p_smtp = (\<lambda>_. True), p_exchange = (\<lambda>_ _. Unanswered), p_world = world1,
      p_fresh = fresh1, p_random = nonce1, p_clk = (\<lambda>_. 40), p_now = 5,
      p_stdin = ''new-secret-of-alice'' @ [chr 10], p_health = None, p_end = ServerClosed\<rparr>"

lemma process1_starts: "\<exists>h op s'. startServer process1 fresh_schema = (Inr (h, op), s')"
proof -
  from sample_load obtain cfg where "loaded process1 = Inr cfg" by (auto simp: loaded_Inr process1_def)
  moreover from sample_migration obtain s' where "Apply (\<lambda>_ db. Inr db) files1 op1 epoch1 fresh_schema = (Inr (), s')" by blast
  ultimately show ?thesis by (simp add: startServer_def openStore_def process1_def)
qed

theorem deployed_server_witness:
  "\<exists>h op s' rs h'. startServer process1 fresh_schema = (Inr (h, op), s') \<and>
     live op 40 h [(env1\<lparr>ev_Mailer := op_Mailer op, ev_External := op_External op\<rparr>, logout1, rs)] 50 h' \<and>
     contract_ok rs \<and> consistent 50 (st_Pool (h_store h'))"
proof -
  from process1_starts obtain h op s' where start: "startServer process1 fresh_schema = (Inr (h, op), s')" by blast
  let ?ev = "env1\<lparr>ev_Mailer := op_Mailer op, ev_External := op_External op\<rparr>"
  obtain rs h' where serve: "serve ?ev logout1 h = (rs, h')" by fastforce
  have ev: "timed 40 ?ev" "done_by ?ev = 50" by (simp_all add: timed_def done_by_def env1_def mono_def)
  have live: "live op 40 h [(?ev, logout1, rs)] 50 h'"
    using live.asked [OF live.started ev(1) _ _ serve, of op] ev(2) by simp
  have "migrations_keep process1 fresh_schema" by (simp add: migrations_keep_def process1_def)
  from deployed_server [OF start _ this live] show ?thesis
    using start live consistent_empty [of 40] by (auto simp: fresh_schema_def)
qed

theorem boot_wired_witness:
  "\<exists>h op s'. startServer process1 fresh_schema = (Inr (h, op), s') \<and> h_ready h
     \<and> server_state (st_Pool (h_store h)) \<noteq> None"
  using process1_starts boot_wired [of process1 fresh_schema] by blast

lemma Password_ascii:
  assumes "\<forall>c\<in>set s. ord c < 128" and "12 \<le> length s" and "length s \<le> 128"
  shows "Password s"
proof -
  have "\<forall>b\<in>set (map ord s). b < 128" using assms(1) by simp
  then have "RuneCountInString s = length s"
    unfolding RuneCountInString_def by (subst rune_widths_ascii) simp_all
  with ValidString_ascii [OF assms(1)] assms(2,3) show ?thesis by (simp add: Password_def)
qed

definition schema_in :: Schema where
  "schema_in = \<lparr>schema_migrations = None, tables = st_Pool store_in\<rparr>"

theorem admin_reset_witness:
  "\<exists>s' u r. runAdmin process1 [''reset-password'', ''--username'', ''alice''] schema_in = (Inr NoOutput, s')
     \<and> fmlookup (users (tables s')) u = Some r \<and> u_username r = ''alice''
     \<and> u_password_hash r = Hash (w_idkey world1) (f_salt fresh1) ''new-secret-of-alice''"
proof -
  let ?pw = "''new-secret-of-alice''"
  obtain cfg where cfg: "loaded process1 = Inr cfg"
    using sample_load by (auto simp: loaded_Inr process1_def)
  let ?s = "schema_in\<lparr>schema_migrations := Some (record_all files1 [''000001_a.sql'', ''000002_b.sql''] fmempty)\<rparr>"
  have "Apply (\<lambda>_ db. Inr db) files1 op1 epoch1 schema_in = (Inr (), ?s)"
    by (simp add: Apply_def Let_def recorded_def schema_in_def record_all_def ensureServerState_def store_in_def
        files1_def [THEN arg_cong [of _ _ map_of]])
  then have op: "\<exists>op. openStore process1 cfg schema_in = (Inr op, ?s) \<and>
      op_Store op = \<lparr>st_Pool = st_Pool store_in, st_Cfg = cfg, st_Hub = Some hub_New\<rparr>"
    by (simp add: openStore_def process1_def schema_in_def)
  obtain st1 where reset: "ResetPassword world1 fresh1 (\<lambda>_. 40) ''alice'' ?pw
      \<lparr>st_Pool = st_Pool store_in, st_Cfg = cfg, st_Hub = Some hub_New\<rparr> = (Inr (), st1)"
    using reset_in [of "\<lparr>st_Pool = st_Pool store_in, st_Cfg = cfg, st_Hub = Some hub_New\<rparr>" ?pw] by auto
  have line: "ReadLine (p_stdin process1) = Some (?pw @ [chr 10])" "trim_line_end (?pw @ [chr 10]) = ?pw"
    by (simp_all add: ReadLine_def trim_line_end_def process1_def chr_literal) (simp_all add: ord_def)
  have ok: "Password ?pw" "Username ''alice''"
    by (rule Password_ascii) (simp_all add: Username_def ord_def)
  from op line ok cfg reset have run: "\<exists>s'. runAdmin process1 [''reset-password'', ''--username'', ''alice''] schema_in = (Inr NoOutput, s')"
    by (auto simp: runAdmin_def resetPassword_def finished_def process1_def)
  then obtain s' where run: "runAdmin process1 [''reset-password'', ''--username'', ''alice''] schema_in = (Inr NoOutput, s')" by blast
  from admin_reset [OF run] line run show ?thesis by (auto simp: process1_def)
qed

end
